theory Spec2Isabelle
  imports Main "HOL-Library.Char_ord" "HOL-Library.List_Lexorder" "HOL-Library.AList"
    "HOL-Library.Multiset"
begin

section \<open>Strings and numbers of the Go standard library\<close>

text \<open>
  A Go string is a sequence of bytes, here a \<^typ>\<open>string\<close>; text is held in it as UTF-8.
  The functions below are the library calls the program makes. White space is Unicode
  white space: \<open>strings.Fields\<close> and \<open>strings.TrimSpace\<close> decode the bytes into code
  points and ask \<open>unicode.IsSpace\<close>. The regular expression class \<open>\d\<close> is \<open>0\<close> to \<open>9\<close>.

  \<open>utf8.DecodeRuneInString\<close>: the code point at the head of the bytes and the number of
  bytes it takes. Bytes that do not start a well-formed encoding give \<open>RuneError\<close> with
  width 1. A \<open>range\<close> loop over a string decodes in the same way.
\<close>

definition RuneError :: nat where
  "RuneError = 0xFFFD"

definition byte :: "char \<Rightarrow> nat" where
  "byte c = of_char c"

definition runeSize :: "nat \<Rightarrow> nat" where
  "runeSize s0 =
     (if s0 < 0x80 then 1 else if s0 < 0xC2 then 0 else if s0 < 0xE0 then 2
      else if s0 < 0xF0 then 3 else if s0 < 0xF5 then 4 else 0)"

definition acceptLo :: "nat \<Rightarrow> nat" where
  "acceptLo s0 = (if s0 = 0xE0 then 0xA0 else if s0 = 0xF0 then 0x90 else 0x80)"

definition acceptHi :: "nat \<Rightarrow> nat" where
  "acceptHi s0 = (if s0 = 0xED then 0x9F else if s0 = 0xF4 then 0x8F else 0xBF)"

definition DecodeRuneInString :: "string \<Rightarrow> nat \<times> nat" where
  "DecodeRuneInString s =
     (if length s < 1 then (RuneError, 0)
      else
        let s0 = byte (s ! 0); sz = runeSize s0 in
        if s0 < 0x80 then (s0, 1)
        else if sz = 0 then (RuneError, 1)
        else if length s < sz then (RuneError, 1)
        else if byte (s ! 1) < acceptLo s0 \<or> acceptHi s0 < byte (s ! 1) then (RuneError, 1)
        else if sz \<le> 2 then (s0 mod 32 * 64 + byte (s ! 1) mod 64, 2)
        else if byte (s ! 2) < 0x80 \<or> 0xBF < byte (s ! 2) then (RuneError, 1)
        else if sz \<le> 3 then
          (s0 mod 16 * 4096 + byte (s ! 1) mod 64 * 64 + byte (s ! 2) mod 64, 3)
        else if byte (s ! 3) < 0x80 \<or> 0xBF < byte (s ! 3) then (RuneError, 1)
        else (s0 mod 8 * 262144 + byte (s ! 1) mod 64 * 4096 + byte (s ! 2) mod 64 * 64 +
              byte (s ! 3) mod 64, 4))"

text \<open>
  \<open>utf8.DecodeLastRuneInString\<close>: the code point at the end of the bytes. It looks for
  the start of the last encoding among the four last bytes and decodes from there; the
  result counts only when the encoding ends where the string ends.
\<close>

definition RuneStart :: "char \<Rightarrow> bool" where
  "RuneStart b = (byte b < 0x80 \<or> 0xC0 \<le> byte b)"

definition DecodeLastRuneInString :: "string \<Rightarrow> nat \<times> nat" where
  "DecodeLastRuneInString s =
     (let n = length s in
      if n = 0 then (RuneError, 0)
      else if byte (s ! (n - 1)) < 0x80 then (byte (s ! (n - 1)), 1)
      else
        let lim = n - 4;
            start = (case find (\<lambda>i. RuneStart (s ! i)) (rev [lim ..< n - 1]) of
                       Some i \<Rightarrow> i | None \<Rightarrow> lim - 1)
        in case DecodeRuneInString (drop start s) of
             (r, width) \<Rightarrow> if start + width \<noteq> n then (RuneError, 1) else (r, width))"

text \<open>
  \<open>unicode.IsSpace\<close>: in Latin-1 the six ASCII white space characters, U+0085 and
  U+00A0; beyond it the code points of the property \<open>White_Space\<close>.
\<close>

definition IsSpace :: "nat \<Rightarrow> bool" where
  "IsSpace r =
     (if r \<le> 0xFF then
        r = 0x09 \<or> r = 0x0A \<or> r = 0x0B \<or> r = 0x0C \<or> r = 0x0D \<or> r = 0x20 \<or> r = 0x85 \<or> r = 0xA0
      else
        r = 0x1680 \<or> (0x2000 \<le> r \<and> r \<le> 0x200A) \<or> r = 0x2028 \<or> r = 0x2029 \<or> r = 0x202F \<or>
        r = 0x205F \<or> r = 0x3000)"

definition isDigit :: "char \<Rightarrow> bool" where
  "isDigit c = (48 \<le> (of_char c :: nat) \<and> (of_char c :: nat) \<le> 57)"

definition isUpper :: "char \<Rightarrow> bool" where
  "isUpper c = (65 \<le> (of_char c :: nat) \<and> (of_char c :: nat) \<le> 90)"

definition isLower :: "char \<Rightarrow> bool" where
  "isLower c = (97 \<le> (of_char c :: nat) \<and> (of_char c :: nat) \<le> 122)"

definition isAlnum :: "char \<Rightarrow> bool" where
  "isAlnum c = (isDigit c \<or> isUpper c \<or> isLower c)"

text \<open>
  \<open>strings.FieldsFunc\<close>: the maximal runs of code points that do not satisfy \<open>f\<close>, each
  with the bytes it has in the string. \<open>strings.Fields\<close> is \<open>FieldsFunc\<close> with
  \<open>unicode.IsSpace\<close> (its fast path for a string of ASCII bytes gives the same fields).
\<close>

function fieldsFrom :: "(nat \<Rightarrow> bool) \<Rightarrow> string \<Rightarrow> string \<Rightarrow> string list" where
  "fieldsFrom f cur [] = (if cur = [] then [] else [cur])"
| "fieldsFrom f cur (c # cs) =
     (case DecodeRuneInString (c # cs) of
        (r, width) \<Rightarrow>
          if f r then
            (if cur = [] then fieldsFrom f [] (drop width (c # cs))
             else cur # fieldsFrom f [] (drop width (c # cs)))
          else fieldsFrom f (cur @ take width (c # cs)) (drop width (c # cs)))"
  by pat_completeness auto
termination
  by (relation "measure (\<lambda>(f, cur, s). length s)")
     (auto simp: DecodeRuneInString_def Let_def split: if_splits)

definition FieldsFunc :: "string \<Rightarrow> (nat \<Rightarrow> bool) \<Rightarrow> string list" where
  "FieldsFunc s f = fieldsFrom f [] s"

definition Fields :: "string \<Rightarrow> string list" where
  "Fields s = FieldsFunc s IsSpace"

text \<open>The no-break space U+00A0 in UTF-8, for the examples.\<close>

definition noBreakSpace :: string where
  "noBreakSpace = [CHR 0xC2, CHR 0xA0]"

text \<open>\<open>strings.Join\<close>.\<close>

fun Join :: "string list \<Rightarrow> string \<Rightarrow> string" where
  "Join [] sep = []"
| "Join [x] sep = x"
| "Join (x # y # ys) sep = x @ sep @ Join (y # ys) sep"

text \<open>\<open>strings.HasPrefix\<close> and \<open>strings.TrimPrefix\<close>.\<close>

definition HasPrefix :: "string \<Rightarrow> string \<Rightarrow> bool" where
  "HasPrefix s p = (take (length p) s = p)"

definition TrimPrefix :: "string \<Rightarrow> string \<Rightarrow> string" where
  "TrimPrefix s p = (if HasPrefix s p then drop (length p) s else s)"

text \<open>
  \<open>strings.TrimSpace\<close> is \<open>TrimFunc\<close> with \<open>unicode.IsSpace\<close> (its fast path for ASCII
  bytes gives the same string). \<open>indexFunc\<close> walks the code points from the front,
  \<open>lastIndexFunc\<close> from the end; both return \<open>-1\<close> when every code point fails the test.
\<close>

function indexFrom :: "(nat \<Rightarrow> bool) \<Rightarrow> bool \<Rightarrow> nat \<Rightarrow> string \<Rightarrow> int" where
  "indexFrom f truth i [] = - 1"
| "indexFrom f truth i (c # cs) =
     (case DecodeRuneInString (c # cs) of
        (r, width) \<Rightarrow>
          if f r = truth then int i else indexFrom f truth (i + width) (drop width (c # cs)))"
  by pat_completeness auto
termination
  by (relation "measure (\<lambda>(f, truth, i, s). length s)")
     (auto simp: DecodeRuneInString_def Let_def split: if_splits)

definition indexFunc :: "string \<Rightarrow> (nat \<Rightarrow> bool) \<Rightarrow> bool \<Rightarrow> int" where
  "indexFunc s f truth = indexFrom f truth 0 s"

function lastIndexFunc :: "string \<Rightarrow> (nat \<Rightarrow> bool) \<Rightarrow> bool \<Rightarrow> int" where
  "lastIndexFunc s f truth =
     (if length s > 0 then
        (case DecodeLastRuneInString s of
           (r, width) \<Rightarrow>
             if f r = truth then int (length s - width)
             else lastIndexFunc (take (length s - width) s) f truth)
      else - 1)"
  by pat_completeness auto
termination
proof (relation "measure (\<lambda>(s, f, truth). length s)", goal_cases)
  case 1
  show ?case by simp
next
  case (2 s f truth r width)
  define start where "start = (case find (\<lambda>i. RuneStart (s ! i)) (rev [length s - 4 ..< length s - 1]) of
      Some i \<Rightarrow> i | None \<Rightarrow> length s - 4 - 1)"
  have "i \<in> set xs" if "find P xs = Some i" for P and xs :: "nat list" and i
    using that by (metis find_Some_iff nth_mem)
  then have "start < length s"
    using 2(1) unfolding start_def by (fastforce split: option.splits)
  then have "0 < width"
    using 2(1,2,3) unfolding DecodeLastRuneInString_def Let_def start_def [symmetric]
    by (auto split: if_splits prod.splits)
  with 2(1) show ?case by simp
qed

declare lastIndexFunc.simps [simp del]

definition TrimLeftFunc :: "string \<Rightarrow> (nat \<Rightarrow> bool) \<Rightarrow> string" where
  "TrimLeftFunc s f = (let i = indexFunc s f False in if i = - 1 then [] else drop (nat i) s)"

definition TrimRightFunc :: "string \<Rightarrow> (nat \<Rightarrow> bool) \<Rightarrow> string" where
  "TrimRightFunc s f =
     (let i = lastIndexFunc s f False;
          i' = (if i \<ge> 0 \<and> byte (s ! nat i) \<ge> 0x80
                then i + int (snd (DecodeRuneInString (drop (nat i) s))) else i + 1)
      in take (nat i') s)"

definition TrimFunc :: "string \<Rightarrow> (nat \<Rightarrow> bool) \<Rightarrow> string" where
  "TrimFunc s f = TrimRightFunc (TrimLeftFunc s f) f"

definition TrimSpace :: "string \<Rightarrow> string" where
  "TrimSpace s = TrimFunc s IsSpace"

text \<open>
  \<open>strings.ToLower\<close> on ASCII text. The call in \<open>buildQueryTokens\<close> passes a string in
  which \<open>queryReg\<close> has replaced everything but ASCII letters and digits by spaces
  (\<open>replaceRuns_ascii\<close> below).
\<close>

definition toLowerChar :: "char \<Rightarrow> char" where
  "toLowerChar c = (if isUpper c then char_of (of_char c + (32::nat)) else c)"

definition ToLower :: "string \<Rightarrow> string" where
  "ToLower s = map toLowerChar s"

text \<open>
  \<open>strconv.Atoi\<close> on the strings its call sites pass, which are strings of decimal digits
  (each is the text a \<open>\d\<close> pattern matched, possibly with one \<open>0\<close> trimmed). The result is
  the value and whether an error is returned. The empty string is a syntax error with
  value 0; a value beyond the 64-bit \<open>int\<close> is a range error with the largest \<open>int\<close>.
  Any other text is reported as a syntax error with value 0.
\<close>

definition maxInt :: int where
  "maxInt = 9223372036854775807"

definition digitVal :: "char \<Rightarrow> int" where
  "digitVal c = int (of_char c :: nat) - 48"

definition decimal :: "string \<Rightarrow> int" where
  "decimal s = foldl (\<lambda>a c. 10 * a + digitVal c) 0 s"

definition Atoi :: "string \<Rightarrow> int \<times> bool" where
  "Atoi s =
     (if s = [] \<or> \<not> list_all isDigit s then (0, True)
      else if decimal s > maxInt then (maxInt, True)
      else (decimal s, False))"

text \<open>
  The patterns of the program. \<open>seasonReg = s(\d+)\<close> and \<open>episodeReg = e(\d+)\<close> are not
  anchored: \<open>FindAllStringSubmatch(field, -1)[0][1]\<close> is the group of the leftmost match,
  the longest run of digits after the first marker letter that has a digit behind it.
  \<open>yearReg = ^\d{4}$\<close> and \<open>intReg = ^\d+$\<close> match the whole string.
\<close>

fun firstSubmatch :: "char \<Rightarrow> string \<Rightarrow> string option" where
  "firstSubmatch m [] = None"
| "firstSubmatch m (c # cs) =
     (if c = m \<and> takeWhile isDigit cs \<noteq> [] then Some (takeWhile isDigit cs)
      else firstSubmatch m cs)"

definition seasonReg :: "string \<Rightarrow> string option" where
  "seasonReg field = firstSubmatch (CHR ''s'') field"

definition episodeReg :: "string \<Rightarrow> string option" where
  "episodeReg field = firstSubmatch (CHR ''e'') field"

definition yearReg :: "string \<Rightarrow> bool" where
  "yearReg field = (length field = 4 \<and> list_all isDigit field)"

definition intReg :: "string \<Rightarrow> bool" where
  "intReg s = (s \<noteq> [] \<and> list_all isDigit s)"

section \<open>The hint extractor\<close>

text \<open>
  The three numbers one field yields in the loop body of
  \<open>extractTvSeasonEpisodeFromQuery\<close>: each is 0 unless its pattern matches.
\<close>

definition fieldSeason :: "string \<Rightarrow> int" where
  "fieldSeason field =
     (case seasonReg field of None \<Rightarrow> 0 | Some d \<Rightarrow> fst (Atoi (TrimPrefix d ''0'')))"

definition fieldEpisode :: "string \<Rightarrow> int" where
  "fieldEpisode field =
     (case episodeReg field of None \<Rightarrow> 0 | Some d \<Rightarrow> fst (Atoi (TrimPrefix d ''0'')))"

definition fieldYear :: "string \<Rightarrow> int" where
  "fieldYear field = (if yearReg field then fst (Atoi field) else 0)"

text \<open>
  One iteration of the loop over the fields. The state is the four local variables
  \<open>(newQuery, season, episode, year)\<close>; \<open>yearHigh\<close> is \<open>time.Now().Year() + 1\<close>.
\<close>

definition extractStep ::
  "int \<Rightarrow> string list \<times> int \<times> int \<times> int \<Rightarrow> string \<Rightarrow> string list \<times> int \<times> int \<times> int" where
  "extractStep yearHigh st field =
     (case st of (newQuery, season, episode, year) \<Rightarrow>
        (if fieldSeason field = 0 \<and> fieldEpisode field = 0 \<and> fieldYear field = 0
           then newQuery @ [field] else newQuery,
         if fieldSeason field > 0 \<and> season = 0 then fieldSeason field else season,
         if fieldEpisode field > 0 \<and> episode = 0 then fieldEpisode field else episode,
         if fieldYear field \<ge> 1900 \<and> fieldYear field \<le> yearHigh \<and> year = 0
           then fieldYear field else year))"

text \<open>
  \<open>extractTvSeasonEpisodeFromQuery\<close>, with the current year as a parameter. It returns
  the residual query, the season, the episode and the year.
\<close>

definition extractTvSeasonEpisodeFromQuery ::
  "int \<Rightarrow> string \<Rightarrow> string \<times> int \<times> int \<times> int" where
  "extractTvSeasonEpisodeFromQuery thisYear qry =
     (case foldl (extractStep (thisYear + 1)) ([], 0, 0, 0) (Fields qry) of
        (newQuery, season, episode, year) \<Rightarrow> (Join newQuery '' '', season, episode, year))"

text \<open>The test of the last \<open>if\<close> of the loop body: the field goes to the residual.\<close>

definition keepField :: "string \<Rightarrow> bool" where
  "keepField field = (fieldSeason field = 0 \<and> fieldEpisode field = 0 \<and> fieldYear field = 0)"

text \<open>
  Notions the statements about the extractor use. \<open>yearInRange\<close> is the value a field
  yields for the year: its four-digit number when that lies in \<open>[1900, yearHigh]\<close>, else 0.
  \<open>firstNonZero\<close> is the first value of a sequence that is not 0, or 0 when there is none.
\<close>

definition yearInRange :: "int \<Rightarrow> string \<Rightarrow> int" where
  "yearInRange yearHigh field =
     (if fieldYear field \<ge> 1900 \<and> fieldYear field \<le> yearHigh then fieldYear field else 0)"

definition firstNonZero :: "int list \<Rightarrow> int" where
  "firstNonZero vs = (case find (\<lambda>v. v \<noteq> 0) vs of None \<Rightarrow> 0 | Some v \<Rightarrow> v)"

text \<open>
  The residual as the specification words it: the tokens that match none of the three
  patterns, a season marker (\<open>s\<close> followed by digits), an episode marker (\<open>e\<close> followed by
  digits) or a bare four-digit year within \<open>[1900, currentYear + 1]\<close>.
\<close>

definition matchesNoPattern :: "int \<Rightarrow> string \<Rightarrow> bool" where
  "matchesNoPattern thisYear field =
     (seasonReg field = None \<and> episodeReg field = None \<and>
      \<not> (yearReg field \<and> 1900 \<le> fst (Atoi field) \<and> fst (Atoi field) \<le> thisYear + 1))"

definition specResidual :: "int \<Rightarrow> string \<Rightarrow> string" where
  "specResidual thisYear qry = Join (filter (matchesNoPattern thisYear) (Fields qry)) '' ''"

section \<open>The catalog cache\<close>

text \<open>
  \<open>fmt.Sprintf("%d", n)\<close> and \<open>strconv.Itoa\<close>: the decimal digits, after a minus
  sign for a negative number.
\<close>

definition digitChar :: "nat \<Rightarrow> char" where
  "digitChar d = char_of (48 + d)"

function natDigits :: "nat \<Rightarrow> string" where
  "natDigits n = (if n < 10 then [digitChar n] else natDigits (n div 10) @ [digitChar (n mod 10)])"
  by pat_completeness auto
termination
  by (relation "measure id") auto

declare natDigits.simps [simp del]

definition Itoa :: "int \<Rightarrow> string" where
  "Itoa i = (if i < 0 then CHR ''-'' # natDigits (nat (- i)) else natDigits (nat i))"

text \<open>
  \<open>url.QueryEscape\<close>: letters, digits and \<open>-_.~\<close> stand for themselves, a space becomes
  \<open>+\<close>, every other byte becomes \<open>%XX\<close> in upper-case hexadecimal.
\<close>

definition hexDigit :: "nat \<Rightarrow> char" where
  "hexDigit n = (if n < 10 then char_of (48 + n) else char_of (55 + n))"

definition escapeByte :: "char \<Rightarrow> string" where
  "escapeByte c =
     (if isAlnum c \<or> c \<in> set ''-_.~'' then [c]
      else if c = CHR '' '' then ''+''
      else [CHR ''%'', hexDigit ((of_char c :: nat) div 16), hexDigit ((of_char c :: nat) mod 16)])"

definition QueryEscape :: "string \<Rightarrow> string" where
  "QueryEscape s = concat (map escapeByte s)"

text \<open>
  The errors of the program. \<open>Quit\<close> and \<open>Skipped\<close> are \<open>errors.New("quit")\<close> and
  \<open>errors.New("skipped")\<close> of the selector; the others come from the HTTP client and
  from \<open>json.Unmarshal\<close>.
\<close>

datatype error =
    RequestError
  | TransportError
  | ApiRequestError string
  | ReadError
  | JsonError
  | GetwdError
  | Quit
  | Skipped

text \<open>
  What the network does with one request, should it be made: \<open>http.NewRequest\<close> fails,
  \<open>Client.Do\<close> fails, or a response arrives with its status code, its status text and
  the result of reading its body (\<open>None\<close> when \<open>ioutil.ReadAll\<close> fails).
\<close>

datatype httpOutcome =
    NewRequestFails
  | DoFails
  | Response int string "string option"

record cacheResult =
  body :: string
  createdAt :: int

text \<open>
  \<open>MovieDb\<close>. The cache is a Go map, here an association list read with \<^const>\<open>map_of\<close>.
  Times are nanoseconds on the monotonic clock. \<open>cacheRetensionSeconds\<close> is a \<open>float64\<close>
  holding a whole number of seconds (60.0 in \<open>NewMovieDb\<close>); at this magnitude
  \<open>age.Seconds() > cacheRetensionSeconds\<close> is exactly the comparison of the nanoseconds.
  The HTTP client is left out; \<open>requests\<close> is the log of the URLs given to \<open>Client.Do\<close>,
  which makes the remote requests observable.
\<close>

record MovieDb =
  ApiKey :: string
  cache :: "(string \<times> cacheResult) list"
  cacheRetensionSeconds :: int
  requests :: "string list"

definition NewMovieDb :: "string \<Rightarrow> MovieDb" where
  "NewMovieDb apiKey =
     \<lparr>ApiKey = apiKey, cache = [], cacheRetensionSeconds = 60, requests = []\<rparr>"

definition expired :: "int \<Rightarrow> int \<Rightarrow> cacheResult \<Rightarrow> bool" where
  "expired retention now entry = (now - createdAt entry > retention * 1000000000)"

text \<open>
  The sweep at the head of \<open>cacheGet\<close>. \<open>keys\<close> is made with \<open>len(c.cache)\<close> empty
  strings and the keys of the map appended to them. For a key the map does not hold,
  \<open>c.cache[k]\<close> is the zero entry and \<open>delete\<close> does nothing, whichever way the test
  goes.
\<close>

fun sweepKeys ::
  "int \<Rightarrow> int \<Rightarrow> string list \<Rightarrow> (string \<times> cacheResult) list \<Rightarrow> (string \<times> cacheResult) list" where
  "sweepKeys retention now [] entries = entries"
| "sweepKeys retention now (k # ks) entries =
     sweepKeys retention now ks
       (case map_of entries k of
          None \<Rightarrow> entries
        | Some entry \<Rightarrow> if expired retention now entry then AList.delete k entries else entries)"

definition cacheSweep :: "MovieDb \<Rightarrow> int \<Rightarrow> (string \<times> cacheResult) list" where
  "cacheSweep c now =
     sweepKeys (cacheRetensionSeconds c) now
       (replicate (length (cache c)) [] @ map fst (cache c)) (cache c)"

text \<open>
  The remote request of \<open>cacheGet\<close>, after the lookup has missed: the bytes and the error
  it comes back with, and whether \<open>Client.Do\<close> was called.
\<close>

definition httpGet :: "httpOutcome \<Rightarrow> (string \<times> error option) \<times> bool" where
  "httpGet outcome =
     (case outcome of
        NewRequestFails \<Rightarrow> (([], Some RequestError), False)
      | DoFails \<Rightarrow> (([], Some TransportError), True)
      | Response statusCode status readAll \<Rightarrow>
          if statusCode < 200 \<or> statusCode \<ge> 300 then (([], Some (ApiRequestError status)), True)
          else (case readAll of
                  None \<Rightarrow> (([], Some ReadError), True)
                | Some responseBody \<Rightarrow> ((responseBody, None), True)))"

text \<open>
  \<open>cacheGet\<close>. \<open>now\<close> is the clock during the sweep, \<open>later\<close> the clock when the response
  is stored (\<open>time.Now()\<close> after the request), \<open>outcome\<close> what the network does.
\<close>

definition cacheGet ::
  "MovieDb \<Rightarrow> int \<Rightarrow> int \<Rightarrow> httpOutcome \<Rightarrow> string \<Rightarrow> string \<Rightarrow> (string \<times> error option) \<times> MovieDb" where
  "cacheGet c now later outcome key url =
     (let c1 = c\<lparr>cache := cacheSweep c now\<rparr> in
      case map_of (cache c1) key of
        Some hit \<Rightarrow> ((body hit, None), c1)
      | None \<Rightarrow>
          (case httpGet outcome of
             ((response, err), didSend) \<Rightarrow>
               let c2 = (if didSend then c1\<lparr>requests := requests c1 @ [url]\<rparr> else c1) in
               (case err of
                  Some e \<Rightarrow> ((response, Some e), c2)
                | None \<Rightarrow>
                    ((response, None),
                     c2\<lparr>cache := AList.update key \<lparr>body = response, createdAt = later\<rparr> (cache c2)\<rparr>))))"

text \<open>
  The records of the catalog, with the fields the program reads (the scores, counts and
  image paths of the JSON are left out).
\<close>

record Movie =
  Movie_Id :: int
  Movie_Title :: string
  Movie_ReleaseDate :: string
  Movie_Overview :: string

record Tv =
  Tv_Id :: int
  Tv_Name :: string
  Tv_Overview :: string
  Tv_FirstAirDate :: string

record SearchMovieResponse =
  SearchMovie_Page :: int
  SearchMovie_Results :: "Movie list"
  SearchMovie_TotalResults :: int
  SearchMovie_TotalPages :: int

record SearchTvResponse =
  SearchTv_Page :: int
  SearchTv_Results :: "Tv list"
  SearchTv_TotalResults :: int
  SearchTv_TotalPages :: int

definition emptySearchMovieResponse :: SearchMovieResponse where
  "emptySearchMovieResponse =
     \<lparr>SearchMovie_Page = 0, SearchMovie_Results = [], SearchMovie_TotalResults = 0, SearchMovie_TotalPages = 0\<rparr>"

definition emptySearchTvResponse :: SearchTvResponse where
  "emptySearchTvResponse = \<lparr>SearchTv_Page = 0, SearchTv_Results = [], SearchTv_TotalResults = 0, SearchTv_TotalPages = 0\<rparr>"

text \<open>
  \<open>searchMovieUrl\<close> and \<open>searchTvUrl\<close>. \<open>url.Parse\<close> of the constant base cannot fail, so
  the error result is always \<open>nil\<close> and is left out. \<open>Values.Encode\<close> writes the
  parameters sorted by name.
\<close>

definition urlBase :: string where
  "urlBase = ''https://api.themoviedb.org''"

definition searchParams :: "string \<Rightarrow> string \<Rightarrow> int \<Rightarrow> int \<Rightarrow> string" where
  "searchParams apiKey qry page year =
     ''api_key='' @ QueryEscape apiKey @
     (if page > 0 then ''&page='' @ QueryEscape (Itoa page) else []) @
     ''&query='' @ QueryEscape qry @
     (if year > 0 then ''&year='' @ QueryEscape (Itoa year) else [])"

definition searchMovieUrl :: "string \<Rightarrow> string \<Rightarrow> int \<Rightarrow> int \<Rightarrow> string" where
  "searchMovieUrl apiKey qry page year =
     urlBase @ ''/3/search/movie?'' @ searchParams apiKey qry page year"

definition searchTvUrl :: "string \<Rightarrow> string \<Rightarrow> int \<Rightarrow> int \<Rightarrow> string" where
  "searchTvUrl apiKey qry page year =
     urlBase @ ''/3/search/tv?'' @ searchParams apiKey qry page year"

text \<open>The cache keys: \<open>fmt.Sprintf("search-movie-%s-%d", query, page)\<close> and its sibling.\<close>

definition searchMovieKey :: "string \<Rightarrow> int \<Rightarrow> string" where
  "searchMovieKey qry page = ''search-movie-'' @ qry @ ''-'' @ Itoa page"

definition searchTvKey :: "string \<Rightarrow> int \<Rightarrow> string" where
  "searchTvKey qry page = ''search-tv-'' @ qry @ ''-'' @ Itoa page"

text \<open>
  \<open>SearchMovie\<close> and \<open>SearchTv\<close>. \<open>json.Unmarshal\<close> is a parameter: it gives the
  response it has filled in and its error.
\<close>

definition SearchMovie ::
  "(string \<Rightarrow> SearchMovieResponse \<times> error option) \<Rightarrow> MovieDb \<Rightarrow> int \<Rightarrow> int \<Rightarrow> httpOutcome \<Rightarrow>
   string \<Rightarrow> int \<Rightarrow> int \<Rightarrow> (SearchMovieResponse \<times> error option) \<times> MovieDb" where
  "SearchMovie unmarshal c now later outcome qry page year =
     (case cacheGet c now later outcome (searchMovieKey qry page)
             (searchMovieUrl (ApiKey c) qry page year) of
        ((payload, Some err), c') \<Rightarrow> ((emptySearchMovieResponse, Some err), c')
      | ((payload, None), c') \<Rightarrow> (unmarshal payload, c'))"

definition SearchTv ::
  "(string \<Rightarrow> SearchTvResponse \<times> error option) \<Rightarrow> MovieDb \<Rightarrow> int \<Rightarrow> int \<Rightarrow> httpOutcome \<Rightarrow>
   string \<Rightarrow> int \<Rightarrow> int \<Rightarrow> (SearchTvResponse \<times> error option) \<times> MovieDb" where
  "SearchTv unmarshal c now later outcome qry page year =
     (case cacheGet c now later outcome (searchTvKey qry page)
             (searchTvUrl (ApiKey c) qry page year) of
        ((payload, Some err), c') \<Rightarrow> ((emptySearchTvResponse, Some err), c')
      | ((payload, None), c') \<Rightarrow> (unmarshal payload, c'))"

section \<open>Media records\<close>

record TvEpisode =
  TvEpisode_Id :: int
  TvEpisode_Name :: string
  TvEpisode_AirDate :: string
  TvEpisode_EpisonNumber :: int
  TvEpisode_SeasonNumber :: int
  TvEpisode_Overview :: string
  TvEpisode_TvName :: string
  TvEpisode_SeasonName :: string
  TvEpisode_FirstAirDate :: string

record TvSeason =
  TvSeason_Id :: int
  TvSeason_Name :: string
  TvSeason_AirDate :: string
  TvSeason_Episodes :: "TvEpisode list"
  TvSeason_Overview :: string
  TvSeason_SeasonNumber :: int
  TvSeason_TvName :: string

text \<open>The zero value \<open>TvSeason{}\<close>.\<close>

definition emptyTvSeason :: TvSeason where
  "emptyTvSeason =
     \<lparr>TvSeason_Id = 0, TvSeason_Name = [], TvSeason_AirDate = [], TvSeason_Episodes = [],
      TvSeason_Overview = [], TvSeason_SeasonNumber = 0, TvSeason_TvName = []\<rparr>"

text \<open>The zero value \<open>Movie{}\<close>, returned beside the quit and skip errors.\<close>

definition emptyMovie :: Movie where
  "emptyMovie = \<lparr>Movie_Id = 0, Movie_Title = [], Movie_ReleaseDate = [], Movie_Overview = []\<rparr>"

text \<open>The interface \<open>Media\<close> with its three implementations.\<close>

datatype Media = MovieMedia Movie | TvMedia Tv | TvEpisodeMedia TvEpisode

datatype panic = Panic string

text \<open>\<open>strings.Split\<close> at a separator of one character: it never returns an empty slice.\<close>

fun splitFrom :: "char \<Rightarrow> string \<Rightarrow> string \<Rightarrow> string list" where
  "splitFrom sep cur [] = [cur]"
| "splitFrom sep cur (c # cs) =
     (if c = sep then cur # splitFrom sep [] cs else splitFrom sep (cur @ [c]) cs)"

definition Split :: "string \<Rightarrow> char \<Rightarrow> string list" where
  "Split s sep = splitFrom sep [] s"

text \<open>\<open>%02d\<close>: at least two characters, filled with zeros behind the sign.\<close>

definition pad2 :: "int \<Rightarrow> string" where
  "pad2 n = (if 0 \<le> n \<and> n < 10 then CHR ''0'' # Itoa n else Itoa n)"

fun GetId :: "Media \<Rightarrow> int" where
  "GetId (MovieMedia m) = Movie_Id m"
| "GetId (TvMedia m) = Tv_Id m"
| "GetId (TvEpisodeMedia m) = TvEpisode_Id m"

fun GetName :: "Media \<Rightarrow> string" where
  "GetName (MovieMedia m) = Movie_Title m"
| "GetName (TvMedia m) = Tv_Name m"
| "GetName (TvEpisodeMedia m) = TvEpisode_Name m"

fun GetDate :: "Media \<Rightarrow> string" where
  "GetDate (MovieMedia m) = Movie_ReleaseDate m"
| "GetDate (TvMedia m) = Tv_FirstAirDate m"
| "GetDate (TvEpisodeMedia m) = TvEpisode_AirDate m"

fun GetOverview :: "Media \<Rightarrow> string" where
  "GetOverview (MovieMedia m) = Movie_Overview m"
| "GetOverview (TvMedia m) = Tv_Overview m"
| "GetOverview (TvEpisodeMedia m) = TvEpisode_Overview m"

fun GetType :: "Media \<Rightarrow> string" where
  "GetType (MovieMedia m) = ''movie''"
| "GetType (TvMedia m) = ''tv''"
| "GetType (TvEpisodeMedia m) = ''tv_episode''"

text \<open>
  \<open>GetPath\<close>. \<open>dateParts[0]\<close> panics on an empty slice, which is a branch here;
  \<open>Tv.GetPath\<close> is \<open>panic("No path for tv")\<close>.
\<close>

fun GetPath :: "Media \<Rightarrow> panic + string" where
  "GetPath (MovieMedia m) =
     (case Split (Movie_ReleaseDate m) (CHR ''-'') of
        [] \<Rightarrow> Inl (Panic ''index out of range'')
      | year # rest \<Rightarrow>
          Inr (Movie_Title m @ '' ('' @ year @ '')/'' @ Movie_Title m @ '' ('' @ year @ '')''))"
| "GetPath (TvMedia m) = Inl (Panic ''No path for tv'')"
| "GetPath (TvEpisodeMedia m) =
     (case Split (TvEpisode_FirstAirDate m) (CHR ''-'') of
        [] \<Rightarrow> Inl (Panic ''index out of range'')
      | year # rest \<Rightarrow>
          Inr (TvEpisode_TvName m @ '' ('' @ year @ '')/'' @ TvEpisode_TvName m @
               '' ('' @ year @ '') S'' @ pad2 (TvEpisode_SeasonNumber m) @
               ''E'' @ pad2 (TvEpisode_EpisonNumber m)))"

text \<open>The \<open>MediaResults\<close> methods.\<close>

definition SearchMovie_MediaResults :: "SearchMovieResponse \<Rightarrow> Media list" where
  "SearchMovie_MediaResults r = map MovieMedia (SearchMovie_Results r)"

definition SearchTv_MediaResults :: "SearchTvResponse \<Rightarrow> Media list" where
  "SearchTv_MediaResults r = map TvMedia (SearchTv_Results r)"

definition TvSeason_MediaResults :: "TvSeason \<Rightarrow> Media list" where
  "TvSeason_MediaResults r = map TvEpisodeMedia (TvSeason_Episodes r)"

text \<open>A show for the examples.\<close>

definition exampleTv :: Tv where
  "exampleTv = \<lparr>Tv_Id = 42, Tv_Name = ''Show'', Tv_Overview = [], Tv_FirstAirDate = ''2019-05-01''\<rparr>"

section \<open>The tokenizer and the sibling reducer\<close>

text \<open>\<open>stringSliceContains\<close>.\<close>

fun stringSliceContains :: "string list \<Rightarrow> string \<Rightarrow> bool" where
  "stringSliceContains [] a = False"
| "stringSliceContains (b # s) a = (if a = b then True else stringSliceContains s a)"

text \<open>
  \<open>queryReg.ReplaceAllString(movieStr, " ")\<close> with \<open>queryReg = [^a-zA-Z0-9]+\<close>: every
  maximal run of characters that are not letters or digits becomes one space. Every
  byte of a code point beyond ASCII, and every byte that is not well-formed UTF-8, is
  part of such a run. The flag says whether the previous byte was part of a run.
\<close>

fun replaceRuns :: "bool \<Rightarrow> string \<Rightarrow> string" where
  "replaceRuns inRun [] = []"
| "replaceRuns inRun (c # cs) =
     (if isAlnum c then c # replaceRuns False cs
      else if inRun then replaceRuns True cs
      else CHR '' '' # replaceRuns True cs)"

text \<open>\<open>validSingleCharTokens\<close>: \<open>a\<close>, \<open>i\<close> and the ten digits, each as a string.\<close>

definition validSingleCharTokens :: "string list" where
  "validSingleCharTokens = [''a'', ''i''] @ map (\<lambda>d. [digitChar d]) [0..<10]"

definition isQueryToken :: "string \<Rightarrow> string list \<Rightarrow> bool" where
  "isQueryToken token stopWords =
     (\<not> stringSliceContains stopWords token \<and>
      \<not> (length token = 1 \<and> \<not> stringSliceContains validSingleCharTokens token))"

definition buildQueryTokens :: "string \<Rightarrow> string list \<Rightarrow> string list" where
  "buildQueryTokens movieStr stopWords =
     filter (\<lambda>word. isQueryToken word stopWords) (Fields (ToLower (replaceRuns False movieStr)))"

definition buildQuery :: "string \<Rightarrow> string list \<Rightarrow> string" where
  "buildQuery movieStr stopWords = Join (buildQueryTokens movieStr stopWords) '' ''"

text \<open>
  Paths, on a system whose separator is \<open>/\<close>. \<open>filepath.Ext\<close> is the suffix from the last
  dot of the last element; \<open>filepath.Base\<close> the last element, after trailing slashes are
  dropped; \<open>filepath.Clean\<close> drops empty and \<open>.\<close> elements and resolves \<open>..\<close>;
  \<open>filepath.Dir\<close> cleans the path up to its last slash.
\<close>

fun extFrom :: "string \<Rightarrow> string \<Rightarrow> string" where
  "extFrom acc [] = []"
| "extFrom acc (c # cs) =
     (if c = CHR ''/'' then [] else if c = CHR ''.'' then c # acc else extFrom (c # acc) cs)"

definition Ext :: "string \<Rightarrow> string" where
  "Ext path = extFrom [] (rev path)"

definition Base :: "string \<Rightarrow> string" where
  "Base path =
     (if path = [] then ''.''
      else let stripped = rev (dropWhile (\<lambda>c. c = CHR ''/'') (rev path));
               element = rev (takeWhile (\<lambda>c. c \<noteq> CHR ''/'') (rev stripped))
           in if element = [] then ''/'' else element)"

fun cleanElems :: "bool \<Rightarrow> string list \<Rightarrow> string list \<Rightarrow> string list" where
  "cleanElems rooted kept [] = rev kept"
| "cleanElems rooted kept (e # es) =
     (if e = [] \<or> e = ''.'' then cleanElems rooted kept es
      else if e = ''..'' then
        (case kept of
           [] \<Rightarrow> if rooted then cleanElems rooted [] es else cleanElems rooted [e] es
         | k # ks \<Rightarrow> if k = ''..'' then cleanElems rooted (e # kept) es
                     else cleanElems rooted ks es)
      else cleanElems rooted (e # kept) es)"

definition Clean :: "string \<Rightarrow> string" where
  "Clean path =
     (let rooted = (path \<noteq> [] \<and> hd path = CHR ''/'');
          out = Join (cleanElems rooted [] (Split path (CHR ''/''))) ''/''
      in if rooted then CHR ''/'' # out else if out = [] then ''.'' else out)"

definition Dir :: "string \<Rightarrow> string" where
  "Dir path = Clean (rev (dropWhile (\<lambda>c. c \<noteq> CHR ''/'') (rev path)))"

text \<open>
  \<open>filepath.Abs\<close>: an absolute path is cleaned; a relative one is joined to the working
  directory, and \<open>os.Getwd\<close> may fail. \<open>wd\<close> is the result of \<open>os.Getwd\<close>.
\<close>

definition Abs :: "error + string \<Rightarrow> string \<Rightarrow> error + string" where
  "Abs wd path =
     (if path \<noteq> [] \<and> hd path = CHR ''/'' then Inr (Clean path)
      else (case wd of Inl err \<Rightarrow> Inl err | Inr d \<Rightarrow> Inr (Clean (d @ ''/'' @ path))))"

definition fNameSansExtension :: "string \<Rightarrow> string" where
  "fNameSansExtension fPath = Base (take (length fPath - length (Ext fPath)) fPath)"

text \<open>
  \<open>sort.Search\<close>, the binary search of the library, and \<open>sort.SearchStrings\<close>. Strings are
  compared byte by byte, which is the order of \<^typ>\<open>string\<close> here.
\<close>

function search :: "nat \<Rightarrow> nat \<Rightarrow> (nat \<Rightarrow> bool) \<Rightarrow> nat" where
  "search i j f =
     (if i < j then (let h = (i + j) div 2 in if \<not> f h then search (h + 1) j f else search i h f)
      else i)"
  by pat_completeness auto
termination
  by (relation "measure (\<lambda>(i, j, f). j - i)") auto

declare search.simps [simp del]

definition SearchStrings :: "string list \<Rightarrow> string \<Rightarrow> nat" where
  "SearchStrings a x = search 0 (length a) (\<lambda>i. a ! i \<ge> x)"

text \<open>\<open>sortedIntersect\<close>.\<close>

definition sortedIntersect :: "string list \<Rightarrow> string list \<Rightarrow> string list" where
  "sortedIntersect a b =
     filter (\<lambda>el. SearchStrings b el < length b \<and> b ! (SearchStrings b el) = el) a"

text \<open>
  \<open>sortUniq\<close>. \<open>sort.Strings(words)\<close> sorts the slice it is given in place, and a Go slice
  shares its array with the caller's slice: after the call the caller's variable holds
  the sorted words. The function therefore returns two lists, the result \<open>ret\<close> and the
  contents of the argument after the call. \<open>uniqLoop\<close> is the loop over \<open>i > 0\<close>, with
  \<open>words[i-1]\<close> as its first argument.
\<close>

fun uniqLoop :: "string \<Rightarrow> string list \<Rightarrow> string list" where
  "uniqLoop prev [] = []"
| "uniqLoop prev (w # ws) = (if w \<noteq> prev then w # uniqLoop w ws else uniqLoop w ws)"

definition sortUniq :: "string list \<Rightarrow> string list \<times> string list" where
  "sortUniq words =
     (let sorted = sort words
      in (case sorted of [] \<Rightarrow> [] | w # ws \<Rightarrow> w # uniqLoop w ws, sorted))"

text \<open>
  The loop of \<open>commonDirWords\<close> over \<open>peerPaths[1:]\<close>. The flag of the result says that the
  loop left the function through \<open>return common, nil\<close>.
\<close>

fun intersectPeers :: "string list \<Rightarrow> string list \<Rightarrow> string list \<Rightarrow> string list \<times> bool" where
  "intersectPeers stopWords common [] = (common, False)"
| "intersectPeers stopWords common (peer # peers) =
     (let b = fst (sortUniq (buildQueryTokens peer stopWords));
          common' = sortedIntersect common b
      in if length common' = 0 then (common', True)
         else intersectPeers stopWords common' peers)"

text \<open>
  \<open>commonDirWords\<close>. \<open>originalQueryTokens\<close> is read after \<open>sortUniq\<close> has sorted it.
\<close>

definition commonDirWords :: "error + string \<Rightarrow> string \<Rightarrow> string list \<Rightarrow> string list \<Rightarrow> error + string list" where
  "commonDirWords wd moviePath movieList stopWords =
     (let name = fNameSansExtension moviePath in
      case Abs wd (Dir moviePath) of
        Inl err \<Rightarrow> Inl err
      | Inr dir \<Rightarrow>
          (let peerPaths = name # map fNameSansExtension (filter (\<lambda>p. HasPrefix p dir) movieList);
               (common0, originalQueryTokens) = sortUniq (buildQueryTokens (hd peerPaths) stopWords)
           in case intersectPeers stopWords common0 (tl peerPaths) of
                (common, True) \<Rightarrow> Inr common
              | (common, False) \<Rightarrow>
                  Inr (filter (\<lambda>el. stringSliceContains common el) originalQueryTokens)))"

text \<open>
  The sibling reducer as the specification words it: the tokens of the target, in their
  original order, that are in the token set of every listed file residing in the
  directory of the target.
\<close>

definition specCommonTokens :: "string \<Rightarrow> string list \<Rightarrow> string list \<Rightarrow> string list" where
  "specCommonTokens moviePath movieList stopWords =
     filter (\<lambda>w. \<forall>p\<in>set (filter (\<lambda>p. Dir p = Dir moviePath) movieList).
                  w \<in> set (buildQueryTokens (fNameSansExtension p) stopWords))
       (buildQueryTokens (fNameSansExtension moviePath) stopWords)"

text \<open>
  A listed path lies under a directory when it continues the directory path with a
  slash: it names a file of the directory or of a directory below it.
\<close>

definition underDir :: "string \<Rightarrow> string \<Rightarrow> bool" where
  "underDir dir p =
     (HasPrefix p dir \<and>
      ((dir \<noteq> [] \<and> last dir = CHR ''/'') \<or> (length dir < length p \<and> p ! length dir = CHR ''/'')))"

section \<open>The selector\<close>

datatype selectorMode = movieSelector | tvSelector | tvSeasonEpisodeSelector

text \<open>
  The catalog client the selector calls (\<open>s.movieDb.SearchMovie\<close>, \<open>SearchTv\<close>, \<open>GetTv\<close>,
  \<open>GetTvSeason\<close>). The calls go to the network through the cache, so here they are
  parameters: each takes the state \<open>'w\<close> of the client and returns, as the Go method
  does, a value and an error, with the new state.
\<close>

record 'w catalog =
  searchMovies :: "'w \<Rightarrow> string \<Rightarrow> int \<Rightarrow> int \<Rightarrow> (SearchMovieResponse \<times> error option) \<times> 'w"
  searchShows :: "'w \<Rightarrow> string \<Rightarrow> int \<Rightarrow> int \<Rightarrow> (SearchTvResponse \<times> error option) \<times> 'w"
  getShow :: "'w \<Rightarrow> int \<Rightarrow> (Tv \<times> error option) \<times> 'w"
  getSeason :: "'w \<Rightarrow> Tv \<Rightarrow> int \<Rightarrow> (TvSeason \<times> error option) \<times> 'w"

text \<open>
  What the selector does to the outside, in order: the lines it prints (by their
  content, without colour or layout) and the calls it makes to the catalog, with what
  they return.
\<close>

datatype event =
    PrintInfo string
  | PrintErrorSelectingTvShow error
  | PrintErrorSearchingMovies error
  | PrintErrorSearchingTvShows error
  | PrintQueryHeader string int int string
  | PrintNoResults
  | PrintMediaOptions "Media list"
  | PrintPrompt int bool int
  | PrintHelp int int
  | PrintInvalidSelection
  | PrintInvalidTvSeasonSelection error
  | PrintUnableToExtractSeason
  | PrintPleaseSelect
  | SearchMovieCall string int int "SearchMovieResponse \<times> error option"
  | SearchTvCall string int int "SearchTvResponse \<times> error option"
  | GetTvCall int "Tv \<times> error option"
  | GetTvSeasonCall Tv int "TvSeason \<times> error option"

text \<open>
  \<open>Selector\<close>. \<open>movieDb\<close> is the state of the catalog client; \<open>tvShowSelections\<close> is a Go
  map, here an association list. The reader is not a field: the lines still to be read
  are an argument of the functions that read. \<open>trace\<close> is added to the struct: it
  records the events so far.
\<close>

record 'w Selector =
  mode :: selectorMode
  movieDb :: 'w
  inDir :: string
  stopWords :: "string list"
  tvId :: int
  seasonNumber :: int
  tvSeason :: TvSeason
  query :: string
  tvShowSelections :: "(string \<times> int) list"
  trace :: "event list"

definition NewSelector :: "'w \<Rightarrow> string \<Rightarrow> string list \<Rightarrow> 'w Selector" where
  "NewSelector db dir stops =
     \<lparr>mode = movieSelector, movieDb = db, inDir = dir, stopWords = stops, tvId = 0,
      seasonNumber = 0, tvSeason = emptyTvSeason, query = [], tvShowSelections = [],
      trace = []\<rparr>"

definition say :: "'w Selector \<Rightarrow> event \<Rightarrow> 'w Selector" where
  "say s e = s\<lparr>trace := trace s @ [e]\<rparr>"

definition setMovieMode :: "'w Selector \<Rightarrow> string \<Rightarrow> 'w Selector" where
  "setMovieMode s qry =
     s\<lparr>mode := movieSelector, tvId := 0, seasonNumber := 0, tvSeason := emptyTvSeason,
       query := qry\<rparr>"

definition isMovieMode :: "'w Selector \<Rightarrow> bool" where
  "isMovieMode s = (mode s = movieSelector)"

definition setTvMode :: "'w Selector \<Rightarrow> string \<Rightarrow> 'w Selector" where
  "setTvMode s qry =
     s\<lparr>mode := tvSelector, tvId := 0, seasonNumber := 0, tvSeason := emptyTvSeason,
       query := qry\<rparr>"

definition isTvMode :: "'w Selector \<Rightarrow> bool" where
  "isTvMode s = (mode s = tvSelector)"

text \<open>\<open>setTvSeasonEpisodeMode\<close>: the error it returns and the selector after it.\<close>

definition setTvSeasonEpisodeMode ::
  "'w catalog \<Rightarrow> 'w Selector \<Rightarrow> int \<Rightarrow> int \<Rightarrow> string \<Rightarrow> error option \<times> 'w Selector" where
  "setTvSeasonEpisodeMode cat s showId seasonNo qry =
     (case getShow cat (movieDb s) showId of
        ((tv, err), db1) \<Rightarrow>
          let s1 = say (s\<lparr>movieDb := db1\<rparr>) (GetTvCall showId (tv, err)) in
          (case err of
             Some e \<Rightarrow> (Some e, s1)
           | None \<Rightarrow>
               (case getSeason cat db1 tv seasonNo of
                  ((fetched, err2), db2) \<Rightarrow>
                    let s2 = say (s1\<lparr>movieDb := db2\<rparr>) (GetTvSeasonCall tv seasonNo (fetched, err2)) in
                    (case err2 of
                       Some e \<Rightarrow> (Some e, s2)
                     | None \<Rightarrow>
                         (None,
                          s2\<lparr>mode := tvSeasonEpisodeSelector, tvId := showId,
                             seasonNumber := seasonNo, tvSeason := fetched, query := qry,
                             tvShowSelections := AList.update qry showId (tvShowSelections s2)\<rparr>)))))"

definition isTvSeasonEpisodeMode :: "'w Selector \<Rightarrow> bool" where
  "isTvSeasonEpisodeMode s = (mode s = tvSeasonEpisodeSelector)"

definition modeName :: "'w Selector \<Rightarrow> string" where
  "modeName s =
     (case mode s of
        movieSelector \<Rightarrow> ''Movie''
      | tvSelector \<Rightarrow> ''Tv show''
      | tvSeasonEpisodeSelector \<Rightarrow> ''Episode'')"

definition GetQuery :: "int \<Rightarrow> string \<Rightarrow> string \<Rightarrow> string list \<Rightarrow> string" where
  "GetQuery thisYear moviePath dir stops =
     (let name = take (length moviePath - length (Ext moviePath)) moviePath;
          relativeName = TrimPrefix name (dir @ ''/'');
          fileName = Base name;
          myQuery = buildQuery fileName stops
      in if fst (extractTvSeasonEpisodeFromQuery thisYear myQuery) = []
         then buildQuery relativeName stops else myQuery)"

text \<open>
  \<open>HandleQuery\<close> up to its loop, in the steps of the source. The parameters \<open>i\<close>, \<open>n\<close> and
  \<open>moviePath\<close> are only handed on by the source and are left out.

  The text in parentheses behind the displayed query.
\<close>

definition displayQuerySuffix :: "int \<Rightarrow> int \<Rightarrow> int \<Rightarrow> string" where
  "displayQuerySuffix year season episode =
     (let suffixTerms =
            (if year > 0 then [''year: '' @ Itoa year] else []) @
            (if season > 0 then [''season: '' @ Itoa season] else []) @
            (if episode > 0 then [''episode: '' @ Itoa episode] else []);
          joined = Join suffixTerms '', ''
      in if joined \<noteq> [] then '' ('' @ joined @ '')'' else joined)"

text \<open>The choice of the mode from the hints; it may replace the query by the common words.\<close>

definition chooseMode ::
  "'w Selector \<Rightarrow> string \<Rightarrow> int \<Rightarrow> int \<Rightarrow> bool \<Rightarrow> string list \<Rightarrow> 'w Selector \<times> string" where
  "chooseMode s myQuery season episode manual common =
     (if season = 0 \<and> episode = 0 then (setMovieMode s myQuery, myQuery)
      else if isMovieMode s then (setTvMode s myQuery, myQuery)
      else if isTvSeasonEpisodeMode s \<and> (seasonNumber s \<noteq> season \<or> query s \<noteq> myQuery) then
        (let myQuery' = (if \<not> manual \<and> length common > 0 then Join common '' '' else myQuery)
         in (setTvMode s myQuery', myQuery'))
      else (s, myQuery))"

text \<open>The short cut through \<open>tvShowSelections\<close>.\<close>

definition recallShow :: "'w catalog \<Rightarrow> 'w Selector \<Rightarrow> string \<Rightarrow> int \<Rightarrow> 'w Selector" where
  "recallShow cat s myQuery season =
     (if isTvMode s then
        (case map_of (tvShowSelections s) myQuery of
           Some showId \<Rightarrow>
             (case setTvSeasonEpisodeMode cat s showId season myQuery of
                (Some err, s1) \<Rightarrow> say s1 (PrintErrorSelectingTvShow err)
              | (None, s1) \<Rightarrow> s1)
         | None \<Rightarrow> s)
      else s)"

text \<open>The search: the selector, the results, the number of pages and the displayed query.\<close>

definition dispatchSearch ::
  "'w catalog \<Rightarrow> 'w Selector \<Rightarrow> string \<Rightarrow> int \<Rightarrow> int \<Rightarrow> string \<Rightarrow>
   'w Selector \<times> Media list \<times> int \<times> string" where
  "dispatchSearch cat s myQuery page year suffix =
     (if myQuery \<noteq> [] \<and> isMovieMode s then
        (case searchMovies cat (movieDb s) myQuery page year of
           ((response, err), db1) \<Rightarrow>
             let s1 = say (s\<lparr>movieDb := db1\<rparr>) (SearchMovieCall myQuery page year (response, err));
                 s2 = (case err of Some e \<Rightarrow> say s1 (PrintErrorSearchingMovies e) | None \<Rightarrow> s1)
             in (s2, SearchMovie_MediaResults response, SearchMovie_TotalPages response,
                 myQuery @ suffix))
      else if myQuery \<noteq> [] \<and> isTvMode s then
        (case searchShows cat (movieDb s) myQuery page year of
           ((response, err), db1) \<Rightarrow>
             let s1 = say (s\<lparr>movieDb := db1\<rparr>) (SearchTvCall myQuery page year (response, err));
                 s2 = (case err of Some e \<Rightarrow> say s1 (PrintErrorSearchingTvShows e) | None \<Rightarrow> s1)
             in (s2, SearchTv_MediaResults response, SearchTv_TotalPages response,
                 myQuery @ suffix))
      else if isTvSeasonEpisodeMode s then
        (s, TvSeason_MediaResults (tvSeason s), 1, TvSeason_TvName (tvSeason s) @ suffix)
      else (s, [], 0, myQuery @ suffix))"

definition defaultSelectionOf :: "'w Selector \<Rightarrow> int \<Rightarrow> nat \<Rightarrow> int" where
  "defaultSelectionOf s episode numResults =
     (if isTvSeasonEpisodeMode s \<and> episode > 0 \<and> episode \<le> int numResults then episode else 1)"

text \<open>
  All of \<open>HandleQuery\<close> before the loop. It returns the selector and the locals the loop
  reads: \<open>myQuery\<close>, \<open>season\<close>, \<open>results\<close>, \<open>totalPages\<close> and \<open>defaultSelection\<close>.
\<close>

definition enterQuery ::
  "'w catalog \<Rightarrow> int \<Rightarrow> 'w Selector \<Rightarrow> string \<Rightarrow> bool \<Rightarrow> string list \<Rightarrow> string \<Rightarrow> int \<Rightarrow>
   'w Selector \<times> string \<times> int \<times> Media list \<times> int \<times> int" where
  "enterQuery cat thisYear s qry manual common info page =
     (case extractTvSeasonEpisodeFromQuery thisYear (TrimSpace qry) of
        (extracted, season, episode, year) \<Rightarrow>
          (case chooseMode (say s (PrintInfo info)) extracted season episode manual common of
             (s1, myQuery) \<Rightarrow>
               (case dispatchSearch cat (recallShow cat s1 myQuery season) myQuery page year
                       (displayQuerySuffix year season episode) of
                  (s2, results, totalPages, displayQuery) \<Rightarrow>
                    let s3 = say s2 (PrintQueryHeader (modeName s2) page totalPages displayQuery);
                        s4 = (if length results = 0 then say s3 PrintNoResults else s3);
                        defaultSelection = defaultSelectionOf s4 episode (length results)
                    in (say s4 (PrintMediaOptions results), myQuery, season, results, totalPages,
                        defaultSelection))))"

text \<open>
  How the loop reads a selection that is none of \<open>q\<close>, \<open>s\<close>, \<open>p\<close> and \<open>h\<close>: the empty
  line is the default index, digits are an index unless \<open>strconv.Atoi\<close> fails, any
  other text is a new query.
\<close>

datatype selectionKind = Index int | BadNumber | NewQueryText

definition readSelection :: "int \<Rightarrow> string \<Rightarrow> selectionKind" where
  "readSelection defaultSelection selection =
     (if selection = [] then Index defaultSelection
      else if intReg selection then
        (case Atoi selection of (iSel, True) \<Rightarrow> BadNumber | (iSel, False) \<Rightarrow> Index iSel)
      else NewQueryText)"

text \<open>
  \<open>HandleQuery\<close> and its loop. The list is what \<open>s.reader.ReadString('\n')\<close> will return,
  line by line; a line that is read without error ends with its newline character,
  which \<open>strings.TrimSpace\<close> removes. When the lines are used up every read fails, the
  loop prints and reads again for ever, and the function does not return: the result is
  \<open>None\<close>. Otherwise the result is the media and the error returned, with the selector.
\<close>

function HandleQuery ::
  "'w catalog \<Rightarrow> int \<Rightarrow> 'w Selector \<Rightarrow> string list \<Rightarrow> string \<Rightarrow> bool \<Rightarrow> string list \<Rightarrow> string \<Rightarrow> int \<Rightarrow>
   ((Media \<times> error option) \<times> 'w Selector) option"
and promptLoop ::
  "'w catalog \<Rightarrow> int \<Rightarrow> 'w Selector \<Rightarrow> string list \<Rightarrow> string \<Rightarrow> bool \<Rightarrow> string list \<Rightarrow> string \<Rightarrow> int \<Rightarrow>
   string \<Rightarrow> int \<Rightarrow> Media list \<Rightarrow> int \<Rightarrow> int \<Rightarrow> ((Media \<times> error option) \<times> 'w Selector) option"
where
  "HandleQuery cat thisYear s input qry manual common info page =
     (case enterQuery cat thisYear s qry manual common info page of
        (s1, myQuery, season, results, totalPages, defaultSelection) \<Rightarrow>
          promptLoop cat thisYear s1 input qry manual common info page
            myQuery season results totalPages defaultSelection)"
| "promptLoop cat thisYear s [] qry manual common info page
     myQuery season results totalPages defaultSelection = None"
| "promptLoop cat thisYear s (rawSelection # input) qry manual common info page
     myQuery season results totalPages defaultSelection =
     (let s0 = say s (PrintPrompt (int (length results)) (totalPages > 1) defaultSelection);
          selection = TrimSpace rawSelection
      in if selection = ''q'' then Some ((MovieMedia emptyMovie, Some Quit), s0)
         else if selection = ''s'' then Some ((MovieMedia emptyMovie, Some Skipped), s0)
         else if selection = ''p'' then
           (if page < totalPages
            then HandleQuery cat thisYear s0 input qry manual common info (page + 1)
            else HandleQuery cat thisYear s0 input qry manual common info 1)
         else if selection = ''h'' then
           promptLoop cat thisYear (say s0 (PrintHelp (int (length results)) defaultSelection))
             input qry manual common info page myQuery season results totalPages defaultSelection
         else
           (case readSelection defaultSelection selection of
              NewQueryText \<Rightarrow> HandleQuery cat thisYear s0 input selection True common info 1
            | BadNumber \<Rightarrow>
                promptLoop cat thisYear (say s0 PrintInvalidSelection)
                  input qry manual common info page myQuery season results totalPages
                  defaultSelection
            | Index iSel \<Rightarrow>
                if iSel \<ge> 1 \<and> iSel \<le> int (length results) then
                  (if isTvMode s0 then
                     (if season > 0 then
                        (case setTvSeasonEpisodeMode cat s0 (GetId (results ! nat (iSel - 1)))
                                season myQuery of
                           (Some err, s1) \<Rightarrow>
                             promptLoop cat thisYear (say s1 (PrintInvalidTvSeasonSelection err))
                               input qry manual common info page myQuery season results
                               totalPages defaultSelection
                         | (None, s1) \<Rightarrow>
                             HandleQuery cat thisYear s1 input qry manual common info page)
                      else
                        promptLoop cat thisYear (say s0 PrintUnableToExtractSeason)
                          input qry manual common info page myQuery season results totalPages
                          defaultSelection)
                   else Some ((results ! nat (iSel - 1), None), s0))
                else
                  promptLoop cat thisYear (say s0 PrintPleaseSelect)
                    input qry manual common info page myQuery season results totalPages
                    defaultSelection))"
  by pat_completeness auto
termination
  by (relation "measure (\<lambda>x. case x of
        Inl (cat, thisYear, s, input, rest) \<Rightarrow> 2 * length input + 1
      | Inr (cat, thisYear, s, input, rest) \<Rightarrow> 2 * length input)") auto

declare HandleQuery.simps [simp del]

declare promptLoop.simps [simp del]

text \<open>\<open>Handle\<close>.\<close>

definition Handle ::
  "'w catalog \<Rightarrow> int \<Rightarrow> 'w Selector \<Rightarrow> string list \<Rightarrow> string \<Rightarrow> string list \<Rightarrow> string \<Rightarrow>
   ((Media \<times> error option) \<times> 'w Selector) option" where
  "Handle cat thisYear s input moviePath common info =
     HandleQuery cat thisYear s input (GetQuery thisYear moviePath (inDir s) (stopWords s))
       False common info 1"

text \<open>
  The invariant of the selector. The shows fetched under an id are read off the trace:
  a season is the one fetched for a pair of show id and season number when a call of
  \<open>GetTv\<close> for the id returned a show without error and a call of \<open>GetTvSeason\<close> for
  that show and the season number returned the season without error.
\<close>

fun fetchedShows :: "event list \<Rightarrow> int \<Rightarrow> Tv list" where
  "fetchedShows [] showId = []"
| "fetchedShows (GetTvCall i (tv, None) # es) showId =
     (if i = showId then tv # fetchedShows es showId else fetchedShows es showId)"
| "fetchedShows (e # es) showId = fetchedShows es showId"

definition seasonFetched :: "event list \<Rightarrow> int \<Rightarrow> int \<Rightarrow> TvSeason \<Rightarrow> bool" where
  "seasonFetched tr showId seasonNo fetched =
     list_ex (\<lambda>tv. GetTvSeasonCall tv seasonNo (fetched, None) \<in> set tr) (fetchedShows tr showId)"

definition selectorInvariant :: "'w Selector \<Rightarrow> bool" where
  "selectorInvariant s =
     (if mode s = tvSeasonEpisodeSelector
      then seasonFetched (trace s) (tvId s) (seasonNumber s) (tvSeason s)
      else tvId s = 0 \<and> seasonNumber s = 0 \<and> TvSeason_Episodes (tvSeason s) = [])"

text \<open>
  A catalog for the examples. Its state counts the calls. It knows the show 42 with the
  seasons 1 and 2 of five episodes each, and answers every movie search with two pages
  of two movies.
\<close>

definition exampleEpisode :: "int \<Rightarrow> int \<Rightarrow> TvEpisode" where
  "exampleEpisode seasonNo n =
     \<lparr>TvEpisode_Id = 100 * seasonNo + n, TvEpisode_Name = ''Episode '' @ Itoa n,
      TvEpisode_AirDate = [], TvEpisode_EpisonNumber = n, TvEpisode_SeasonNumber = seasonNo,
      TvEpisode_Overview = [], TvEpisode_TvName = ''Show'', TvEpisode_SeasonName = ''Season'',
      TvEpisode_FirstAirDate = ''2019-05-01''\<rparr>"

definition exampleSeason :: "int \<Rightarrow> TvSeason" where
  "exampleSeason seasonNo =
     \<lparr>TvSeason_Id = 7, TvSeason_Name = ''Season'', TvSeason_AirDate = [],
      TvSeason_Episodes = map (exampleEpisode seasonNo) [1, 2, 3, 4, 5], TvSeason_Overview = [],
      TvSeason_SeasonNumber = seasonNo, TvSeason_TvName = ''Show''\<rparr>"

definition exampleMovie :: "int \<Rightarrow> Movie" where
  "exampleMovie n =
     \<lparr>Movie_Id = n, Movie_Title = ''Movie '' @ Itoa n, Movie_ReleaseDate = ''2020-01-01'',
      Movie_Overview = []\<rparr>"

definition notFound :: error where
  "notFound = ApiRequestError ''404 Not Found''"

definition exampleCatalog :: "nat catalog" where
  "exampleCatalog =
     \<lparr>searchMovies = (\<lambda>calls qry page year.
        ((\<lparr>SearchMovie_Page = page,
           SearchMovie_Results = [exampleMovie (2 * page - 1), exampleMovie (2 * page)],
           SearchMovie_TotalResults = 4, SearchMovie_TotalPages = 2\<rparr>, None), calls + 1)),
      searchShows = (\<lambda>calls qry page year.
        ((\<lparr>SearchTv_Page = page, SearchTv_Results = [exampleTv], SearchTv_TotalResults = 1,
           SearchTv_TotalPages = 1\<rparr>, None), calls + 1)),
      getShow = (\<lambda>calls showId.
        (if showId = 42 then (exampleTv, None) else (exampleTv\<lparr>Tv_Id := 0\<rparr>, Some notFound),
         calls + 1)),
      getSeason = (\<lambda>calls tv seasonNo.
        (if seasonNo = 1 \<or> seasonNo = 2 then (exampleSeason seasonNo, None)
         else (emptyTvSeason, Some notFound), calls + 1))\<rparr>"

text \<open>
  Selectors of example runs: after the first file \<open>show s01e03\<close> is resolved (the show is
  picked, an index out of range is typed, then the empty line); after the file
  \<open>show s03e04\<close>, whose season the catalog does not have; on entering the query
  \<open>show s02e04\<close>; at the prompts of an episode query and of a movie query, on its first
  and second page.
\<close>

definition afterFirstEpisode :: "nat Selector" where
  "afterFirstEpisode =
     snd (the (HandleQuery exampleCatalog 2026 (NewSelector 0 ''/in'' []) [''1\<newline>'', ''7\<newline>'', ''\<newline>'']
            ''show s01e03'' False [] ''1/2 show s01e03.mkv'' 1))"

definition afterMissingSeason :: "nat Selector" where
  "afterMissingSeason =
     snd (the (HandleQuery exampleCatalog 2026 afterFirstEpisode [''q\<newline>'']
            ''show s03e04'' False [] ''2/2 show s03e04.mkv'' 1))"

definition enteredSecondSeason :: "nat Selector" where
  "enteredSecondSeason =
     fst (enterQuery exampleCatalog 2026 afterFirstEpisode ''show s02e04'' False []
            ''2/2 show s02e04.mkv'' 1)"

definition episodePrompt :: "nat Selector" where
  "episodePrompt =
     fst (enterQuery exampleCatalog 2026 afterFirstEpisode ''show s01e03'' False []
            ''1/2 show s01e03.mkv'' 1)"

definition moviePrompt :: "nat Selector" where
  "moviePrompt =
     fst (enterQuery exampleCatalog 2026 (NewSelector 0 ''/in'' []) ''movie'' False [] ''1/1 movie.mkv'' 1)"

definition moviePromptSecondPage :: "nat Selector" where
  "moviePromptSecondPage =
     fst (enterQuery exampleCatalog 2026 (say moviePrompt (PrintPrompt 2 True 1)) ''movie'' False []
            ''1/1 movie.mkv'' 2)"

definition twoMovies :: "int \<Rightarrow> Media list" where
  "twoMovies page = map MovieMedia [exampleMovie (2 * page - 1), exampleMovie (2 * page)]"

definition fiveEpisodes :: "Media list" where
  "fiveEpisodes = map TvEpisodeMedia (TvSeason_Episodes (exampleSeason 1))"

text \<open>The pages of the movie searches of a trace, in order.\<close>

fun searchedPages :: "event list \<Rightarrow> int list" where
  "searchedPages [] = []"
| "searchedPages (SearchMovieCall qry page year r # es) = page # searchedPages es"
| "searchedPages (e # es) = searchedPages es"

text \<open>Every search recorded in a trace asks for a page of at least 1.\<close>

fun pagesFromOne :: "event list \<Rightarrow> bool" where
  "pagesFromOne [] = True"
| "pagesFromOne (SearchMovieCall qry page year r # es) = (1 \<le> page \<and> pagesFromOne es)"
| "pagesFromOne (SearchTvCall qry page year r # es) = (1 \<le> page \<and> pagesFromOne es)"
| "pagesFromOne (e # es) = pagesFromOne es"

text \<open>
  Concrete values for the examples: a response that succeeds, a stand-in for
  \<open>json.Unmarshal\<close> that reads the payload as the title of a single result, and the
  states of a cache after a first and a second fetch of one key.
\<close>

definition okResponse :: "string \<Rightarrow> httpOutcome" where
  "okResponse payload = Response 200 ''200 OK'' (Some payload)"

definition titleDecoder :: "string \<Rightarrow> SearchMovieResponse \<times> error option" where
  "titleDecoder payload =
     (\<lparr>SearchMovie_Page = 1,
       SearchMovie_Results =
         [\<lparr>Movie_Id = 1, Movie_Title = payload, Movie_ReleaseDate = [], Movie_Overview = []\<rparr>],
       SearchMovie_TotalResults = 1, SearchMovie_TotalPages = 1\<rparr>, None)"

definition afterFirstFetch :: MovieDb where
  "afterFirstFetch =
     snd (cacheGet (NewMovieDb ''k'') 0 1000000000 (okResponse ''p'') ''get-tv-42'' ''u'')"

definition afterSecondFetch :: MovieDb where
  "afterSecondFetch =
     snd (cacheGet afterFirstFetch 30000000000 31000000000 DoFails ''get-tv-42'' ''u'')"

definition afterFirstSearch :: MovieDb where
  "afterFirstSearch =
     snd (SearchMovie titleDecoder (NewMovieDb ''k'') 0 1000000000 (okResponse ''first'')
            ''alien'' 1 1979)"

section \<open>Properties of the hint extractor\<close>

lemma decimal_nonneg_aux:
  "list_all isDigit s \<Longrightarrow> 0 \<le> a \<Longrightarrow> 0 \<le> foldl (\<lambda>a c. 10 * a + digitVal c) a s"
  by (induction s arbitrary: a) (auto simp: isDigit_def digitVal_def)

lemma Atoi_nonneg: "0 \<le> fst (Atoi s)"
  using decimal_nonneg_aux [of s 0] by (simp add: Atoi_def decimal_def maxInt_def)

lemma fieldSeason_nonneg: "0 \<le> fieldSeason f"
  by (simp add: fieldSeason_def Atoi_nonneg split: option.splits)

lemma fieldEpisode_nonneg: "0 \<le> fieldEpisode f"
  by (simp add: fieldEpisode_def Atoi_nonneg split: option.splits)

lemma firstNonZero_Cons: "firstNonZero (v # vs) = (if v \<noteq> 0 then v else firstNonZero vs)"
  by (simp add: firstNonZero_def)

lemma firstNonZero_first:
  "(\<forall>u\<in>set pre. f u = 0) \<Longrightarrow> f t \<noteq> 0 \<Longrightarrow> firstNonZero (map f (pre @ t # post)) = f t"
  by (induction pre) (simp_all add: firstNonZero_Cons)

lemma extractStep_tuple:
  "extractStep yh (nq, s, e, y) f =
     (if keepField f then nq @ [f] else nq,
      if fieldSeason f > 0 \<and> s = 0 then fieldSeason f else s,
      if fieldEpisode f > 0 \<and> e = 0 then fieldEpisode f else e,
      if fieldYear f \<ge> 1900 \<and> fieldYear f \<le> yh \<and> y = 0 then fieldYear f else y)"
  by (simp add: extractStep_def keepField_def)

text \<open>The loop in closed form, from any state of its four variables.\<close>

lemma foldl_extractStep:
  "foldl (extractStep yh) (nq, s, e, y) fs =
     (nq @ filter keepField fs,
      if s \<noteq> 0 then s else firstNonZero (map fieldSeason fs),
      if e \<noteq> 0 then e else firstNonZero (map fieldEpisode fs),
      if y \<noteq> 0 then y else firstNonZero (map (yearInRange yh) fs))"
proof (induction fs arbitrary: nq s e y)
  case Nil
  show ?case by (simp add: firstNonZero_def)
next
  case (Cons f fs)
  have s: "0 \<le> fieldSeason f" and e: "0 \<le> fieldEpisode f"
    by (rule fieldSeason_nonneg, rule fieldEpisode_nonneg)
  have "foldl (extractStep yh) (nq, s, e, y) (f # fs) =
        foldl (extractStep yh) (extractStep yh (nq, s, e, y) f) fs"
    by simp
  also have "\<dots> = (nq @ filter keepField (f # fs),
      if s \<noteq> 0 then s else firstNonZero (map fieldSeason (f # fs)),
      if e \<noteq> 0 then e else firstNonZero (map fieldEpisode (f # fs)),
      if y \<noteq> 0 then y else firstNonZero (map (yearInRange yh) (f # fs)))"
    unfolding extractStep_tuple Cons.IH
    using s e by (auto simp: firstNonZero_Cons yearInRange_def)
  finally show ?case .
qed

lemma extract_closed_form:
  "extractTvSeasonEpisodeFromQuery thisYear qry =
     (Join (filter keepField (Fields qry)) '' '',
      firstNonZero (map fieldSeason (Fields qry)),
      firstNonZero (map fieldEpisode (Fields qry)),
      firstNonZero (map (yearInRange (thisYear + 1)) (Fields qry)))"
  by (simp add: extractTvSeasonEpisodeFromQuery_def foldl_extractStep)

lemma extract_example:
  "extractTvSeasonEpisodeFromQuery thisYear ''show name s02e05'' = (''show name'', 2, 5, 0)"
proof -
  have f: "Fields ''show name s02e05'' = [''show'', ''name'', ''s02e05'']"
    by code_simp
  have v: "fieldSeason ''show'' = 0" "fieldEpisode ''show'' = 0" "fieldYear ''show'' = 0"
    "fieldSeason ''name'' = 0" "fieldEpisode ''name'' = 0" "fieldYear ''name'' = 0"
    "fieldSeason ''s02e05'' = 2" "fieldEpisode ''s02e05'' = 5" "fieldYear ''s02e05'' = 0"
    by code_simp+
  show ?thesis
    by (simp add: extract_closed_form f v firstNonZero_def yearInRange_def keepField_def)
qed

lemma fieldSeason_pattern: "fieldSeason t \<noteq> 0 \<Longrightarrow> seasonReg t \<noteq> None"
  by (cases "seasonReg t") (auto simp: fieldSeason_def)

lemma fieldEpisode_pattern: "fieldEpisode t \<noteq> 0 \<Longrightarrow> episodeReg t \<noteq> None"
  by (cases "episodeReg t") (auto simp: fieldEpisode_def)

text \<open>
  White space is Unicode white space: a no-break space (U+00A0, the bytes \<open>C2 A0\<close>)
  separates two tokens as a space does.
\<close>

lemma extract_no_break_space:
  "Fields (''show'' @ noBreakSpace @ ''2001 s01e02'') = [''show'', ''2001'', ''s01e02''] \<and>
   extractTvSeasonEpisodeFromQuery 2026 (''show'' @ noBreakSpace @ ''2001 s01e02'') =
     (''show'', 1, 2, 2001)"
  by code_simp

text \<open>
  C1, as stated, fails for a marker with the number 0. In \<open>show s00e05 s03\<close> the token
  \<open>s00e05\<close> matches the season pattern and the episode pattern and no token before it
  matches either, but it sets only the episode: the number of its season marker is 0,
  which is the value of a field that is not set, and the season is set by the later
  token \<open>s03\<close>.
\<close>

theorem hint_zero_marker_counterexample:
  "Fields ''show s00e05 s03'' = [''show'', ''s00e05'', ''s03''] \<and>
   seasonReg ''show'' = None \<and> episodeReg ''show'' = None \<and>
   seasonReg ''s00e05'' = Some ''00'' \<and> episodeReg ''s00e05'' = Some ''05'' \<and>
   fieldSeason ''s00e05'' = 0 \<and> fieldSeason ''s03'' = 3 \<and>
   extractTvSeasonEpisodeFromQuery 2026 ''show s00e05 s03'' = (''show'', 3, 5, 0)"
  by code_simp

text \<open>
  C1, amended. For every query and every current year, each of season, episode and year
  is the value of the first token, in sequence order, that yields a value other than 0
  for that field (0 when no token does), so a later token never overrides a field that
  is set. The value a token yields for the season or the episode is the number behind
  its first marker; the value it yields for the year is its four-digit number when that
  lies within \<open>[1900, currentYear + 1]\<close>. A token that yields a season and an episode
  other than 0 matches both patterns and, with no earlier token yielding either, sets
  both fields from itself; and \<open>show name s02e05\<close> gives \<open>(show name, 2, 5, 0)\<close>.
\<close>

theorem hint_first_token_wins:
  "(case extractTvSeasonEpisodeFromQuery thisYear qry of
      (residual, season, episode, year) \<Rightarrow>
        season = firstNonZero (map fieldSeason (Fields qry)) \<and>
        episode = firstNonZero (map fieldEpisode (Fields qry)) \<and>
        year = firstNonZero (map (yearInRange (thisYear + 1)) (Fields qry)) \<and>
        (\<forall>pre t post.
           Fields qry = pre @ t # post \<and> (\<forall>u\<in>set pre. fieldSeason u = 0 \<and> fieldEpisode u = 0) \<and>
           fieldSeason t \<noteq> 0 \<and> fieldEpisode t \<noteq> 0 \<longrightarrow>
           seasonReg t \<noteq> None \<and> episodeReg t \<noteq> None \<and>
           season = fieldSeason t \<and> episode = fieldEpisode t)) \<and>
   extractTvSeasonEpisodeFromQuery thisYear ''show name s02e05'' = (''show name'', 2, 5, 0)"
proof -
  have both: "firstNonZero (map fieldSeason (Fields qry)) = fieldSeason t \<and>
              firstNonZero (map fieldEpisode (Fields qry)) = fieldEpisode t"
    if "Fields qry = pre @ t # post" "\<forall>u\<in>set pre. fieldSeason u = 0 \<and> fieldEpisode u = 0"
       "fieldSeason t \<noteq> 0" "fieldEpisode t \<noteq> 0" for pre t post
    using that firstNonZero_first [of pre fieldSeason t post]
      firstNonZero_first [of pre fieldEpisode t post] by simp
  show ?thesis
    unfolding extract_closed_form [of thisYear qry]
    using both extract_example fieldSeason_pattern fieldEpisode_pattern by auto
qed

theorem hint_first_token_wins_witness:
  "Fields ''show 1850 2001 s02e05 s03 e07 1999'' =
     [''show'', ''1850'', ''2001''] @ ''s02e05'' # [''s03'', ''e07'', ''1999''] \<and>
   map fieldSeason [''show'', ''1850'', ''2001'', ''s02e05'', ''s03'', ''e07'', ''1999''] =
     [0, 0, 0, 2, 3, 0, 0] \<and>
   map fieldEpisode [''show'', ''1850'', ''2001'', ''s02e05'', ''s03'', ''e07'', ''1999''] =
     [0, 0, 0, 5, 0, 7, 0] \<and>
   map (yearInRange 2027) [''show'', ''1850'', ''2001'', ''s02e05'', ''s03'', ''e07'', ''1999''] =
     [0, 0, 2001, 0, 0, 0, 1999] \<and>
   seasonReg ''s02e05'' = Some ''02'' \<and> episodeReg ''s02e05'' = Some ''05'' \<and>
   extractTvSeasonEpisodeFromQuery 2026 ''show 1850 2001 s02e05 s03 e07 1999'' =
     (''show'', 2, 5, 2001) \<and>
   firstNonZero (map fieldSeason (Fields ''show 1850 2001 s02e05 s03 e07 1999'')) = 2 \<and>
   firstNonZero (map fieldEpisode (Fields ''show 1850 2001 s02e05 s03 e07 1999'')) = 5 \<and>
   firstNonZero (map (yearInRange 2027) (Fields ''show 1850 2001 s02e05 s03 e07 1999'')) = 2001 \<and>
   extractTvSeasonEpisodeFromQuery 2026 ''show name s02e05'' = (''show name'', 2, 5, 0) \<and>
   extractTvSeasonEpisodeFromQuery 2026 (''show'' @ noBreakSpace @ ''2001 s01e02'') =
     (''show'', 1, 2, 2001)"
proof -
  have f: "Fields ''show 1850 2001 s02e05 s03 e07 1999'' =
     [''show'', ''1850'', ''2001''] @ ''s02e05'' # [''s03'', ''e07'', ''1999'']"
    by code_simp
  have s: "map fieldSeason [''show'', ''1850'', ''2001'', ''s02e05'', ''s03'', ''e07'', ''1999''] =
     [0, 0, 0, 2, 3, 0, 0]"
    by code_simp
  have e: "map fieldEpisode [''show'', ''1850'', ''2001'', ''s02e05'', ''s03'', ''e07'', ''1999''] =
     [0, 0, 0, 5, 0, 7, 0]"
    by code_simp
  have y: "map (yearInRange 2027) [''show'', ''1850'', ''2001'', ''s02e05'', ''s03'', ''e07'', ''1999''] =
     [0, 0, 2001, 0, 0, 0, 1999]"
    by code_simp
  have p: "seasonReg ''s02e05'' = Some ''02''" "episodeReg ''s02e05'' = Some ''05''"
    by code_simp+
  have r: "extractTvSeasonEpisodeFromQuery 2026 ''show 1850 2001 s02e05 s03 e07 1999'' =
     (''show'', 2, 5, 2001)"
    by code_simp
  have x: "extractTvSeasonEpisodeFromQuery 2026 ''show name s02e05'' = (''show name'', 2, 5, 0)"
    "extractTvSeasonEpisodeFromQuery 2026 (''show'' @ noBreakSpace @ ''2001 s01e02'') =
     (''show'', 1, 2, 2001)"
    by code_simp+
  have pre: "\<forall>u\<in>set [''show'', ''1850'', ''2001'']. fieldSeason u = 0 \<and> fieldEpisode u = 0"
    using s e by simp
  have t: "fieldSeason ''s02e05'' \<noteq> 0" "fieldEpisode ''s02e05'' \<noteq> 0"
    using s e by simp_all
  note th = hint_first_token_wins [where thisYear = 2026
      and qry = "''show 1850 2001 s02e05 s03 e07 1999''"]
  have c: "firstNonZero (map fieldSeason (Fields ''show 1850 2001 s02e05 s03 e07 1999'')) = 2 \<and>
        firstNonZero (map fieldEpisode (Fields ''show 1850 2001 s02e05 s03 e07 1999'')) = 5 \<and>
        firstNonZero (map (yearInRange 2027) (Fields ''show 1850 2001 s02e05 s03 e07 1999'')) = 2001"
    using th unfolding r by simp
  have d: "\<forall>pre t post.
           Fields ''show 1850 2001 s02e05 s03 e07 1999'' = pre @ t # post \<and>
           (\<forall>u\<in>set pre. fieldSeason u = 0 \<and> fieldEpisode u = 0) \<and>
           fieldSeason t \<noteq> 0 \<and> fieldEpisode t \<noteq> 0 \<longrightarrow>
           seasonReg t \<noteq> None \<and> episodeReg t \<noteq> None \<and>
           2 = fieldSeason t \<and> 5 = fieldEpisode t"
    using th [unfolded r prod.case] by blast
  from d f pre t have "2 = fieldSeason ''s02e05'' \<and> 5 = fieldEpisode ''s02e05''"
    by blast
  with c f s e y p r x show ?thesis by simp
qed

text \<open>
  C2, as stated, fails: in \<open>show s0 1234\<close> the token \<open>s0\<close> is a season marker by its
  pattern and stays in the residual (its number is 0), and the bare four-digit token
  \<open>1234\<close>, outside \<open>[1900, 2027]\<close>, sets no field and is removed from the residual.
\<close>

theorem residual_pattern_counterexample:
  "extractTvSeasonEpisodeFromQuery 2026 ''show s0 1234'' = (''show s0'', 0, 0, 0) \<and>
   specResidual 2026 ''show s0 1234'' = ''show 1234'' \<and>
   seasonReg ''s0'' = Some ''0'' \<and> fieldYear ''1234'' = 1234"
  by code_simp

text \<open>
  C2, amended. For every query in which every bare four-digit token other than \<open>0000\<close>
  lies within \<open>[1900, currentYear + 1]\<close>, the residual keeps, in original order and joined
  by single spaces, exactly the tokens that yield the number 0 for the season, for the
  episode and for the year. A marker whose number is 0 (\<open>s0\<close>, \<open>e00\<close>) yields nothing and
  is kept; a token that yields a number is excluded whether or not its number is used.
\<close>

theorem residual_keeps_tokens_without_value:
  assumes "\<forall>t\<in>set (Fields qry). fieldYear t \<noteq> 0 \<longrightarrow> 1900 \<le> fieldYear t \<and> fieldYear t \<le> thisYear + 1"
  shows "fst (extractTvSeasonEpisodeFromQuery thisYear qry) =
     Join (filter (\<lambda>t. fieldSeason t = 0 \<and> fieldEpisode t = 0 \<and> yearInRange (thisYear + 1) t = 0)
       (Fields qry)) '' ''"
proof -
  have "filter keepField (Fields qry) =
        filter (\<lambda>t. fieldSeason t = 0 \<and> fieldEpisode t = 0 \<and> yearInRange (thisYear + 1) t = 0)
          (Fields qry)"
    using assms by (intro filter_cong refl) (auto simp: keepField_def yearInRange_def)
  then show ?thesis by (simp add: extract_closed_form)
qed

theorem residual_keeps_tokens_without_value_witness:
  "Fields (''show'' @ noBreakSpace @ ''s01 s02 e0 2020'') =
     [''show'', ''s01'', ''s02'', ''e0'', ''2020''] \<and>
   map fieldYear [''show'', ''s01'', ''s02'', ''e0'', ''2020''] = [0, 0, 0, 0, 2020] \<and>
   map fieldSeason [''show'', ''s01'', ''s02'', ''e0'', ''2020''] = [0, 1, 2, 0, 0] \<and>
   map fieldEpisode [''show'', ''s01'', ''s02'', ''e0'', ''2020''] = [0, 0, 0, 0, 0] \<and>
   extractTvSeasonEpisodeFromQuery 2026 (''show'' @ noBreakSpace @ ''s01 s02 e0 2020'') =
     (''show e0'', 1, 0, 2020) \<and>
   Join (filter (\<lambda>t. fieldSeason t = 0 \<and> fieldEpisode t = 0 \<and> yearInRange (2026 + 1) t = 0)
     (Fields (''show'' @ noBreakSpace @ ''s01 s02 e0 2020''))) '' '' = ''show e0''"
proof -
  have f: "Fields (''show'' @ noBreakSpace @ ''s01 s02 e0 2020'') =
     [''show'', ''s01'', ''s02'', ''e0'', ''2020'']"
    by code_simp
  have y: "map fieldYear [''show'', ''s01'', ''s02'', ''e0'', ''2020''] = [0, 0, 0, 0, 2020]"
    by code_simp
  have s: "map fieldSeason [''show'', ''s01'', ''s02'', ''e0'', ''2020''] = [0, 1, 2, 0, 0]"
    by code_simp
  have e: "map fieldEpisode [''show'', ''s01'', ''s02'', ''e0'', ''2020''] = [0, 0, 0, 0, 0]"
    by code_simp
  have r: "extractTvSeasonEpisodeFromQuery 2026 (''show'' @ noBreakSpace @ ''s01 s02 e0 2020'') =
     (''show e0'', 1, 0, 2020)"
    by code_simp
  have h: "\<forall>t\<in>set (Fields (''show'' @ noBreakSpace @ ''s01 s02 e0 2020'')).
             fieldYear t \<noteq> 0 \<longrightarrow> 1900 \<le> fieldYear t \<and> fieldYear t \<le> 2026 + 1"
    using y unfolding f by simp
  from residual_keeps_tokens_without_value [OF h]
  have "Join (filter (\<lambda>t. fieldSeason t = 0 \<and> fieldEpisode t = 0 \<and> yearInRange (2026 + 1) t = 0)
     (Fields (''show'' @ noBreakSpace @ ''s01 s02 e0 2020''))) '' '' = ''show e0''"
    unfolding r by simp
  with f y s e r show ?thesis by simp
qed

section \<open>Properties of the catalog cache\<close>

lemma sweepKeys_map_of:
  "map_of (sweepKeys r now ks es) k =
     (case map_of es k of
        None \<Rightarrow> None
      | Some e \<Rightarrow> if k \<in> set ks \<and> expired r now e then None else Some e)"
proof (induction ks arbitrary: es)
  case Nil
  show ?case by (simp split: option.splits)
next
  case (Cons a ks)
  show ?case
    by (auto simp: Cons.IH AList.delete_conv split: option.splits)
qed

text \<open>The sweep drops exactly the entries older than the retention window.\<close>

lemma cacheSweep_map_of:
  "map_of (cacheSweep c now) k =
     (case map_of (cache c) k of
        None \<Rightarrow> None
      | Some e \<Rightarrow> if expired (cacheRetensionSeconds c) now e then None else Some e)"
proof (cases "map_of (cache c) k")
  case None
  then show ?thesis by (simp add: cacheSweep_def sweepKeys_map_of)
next
  case (Some e)
  then have "k \<in> set (map fst (cache c))"
    by (metis map_of_eq_None_iff option.distinct(1) set_map)
  with Some show ?thesis by (simp add: cacheSweep_def sweepKeys_map_of)
qed

lemma cacheGet_hit:
  "map_of (cacheSweep c now) key = Some hit \<Longrightarrow>
   cacheGet c now later outcome key url = ((body hit, None), c\<lparr>cache := cacheSweep c now\<rparr>)"
  by (simp add: cacheGet_def)

lemma cacheGet_miss:
  "map_of (cacheSweep c now) key = None \<Longrightarrow>
   cacheGet c now later outcome key url =
     (fst (httpGet outcome),
      (if snd (fst (httpGet outcome)) = None
       then c\<lparr>cache := AList.update key \<lparr>body = fst (fst (httpGet outcome)), createdAt = later\<rparr>
                         (cacheSweep c now),
              requests := requests c @ (if snd (httpGet outcome) then [url] else [])\<rparr>
       else c\<lparr>cache := cacheSweep c now,
              requests := requests c @ (if snd (httpGet outcome) then [url] else [])\<rparr>))"
  by (cases "httpGet outcome") (auto simp: cacheGet_def Let_def split: option.splits prod.splits)

text \<open>A first fetch that misses and succeeds, whatever the key.\<close>

lemma cacheGet_first:
  assumes miss: "map_of (cacheSweep c0 t1) key = None"
    and ok: "200 \<le> code" "code < 300"
    and first: "cacheGet c0 t1 s1 (Response code status (Some payload)) key url1 = (r1, c1)"
  shows "r1 = (payload, None)"
    and "c1 = c0\<lparr>cache := AList.update key \<lparr>body = payload, createdAt = s1\<rparr> (cacheSweep c0 t1),
                  requests := requests c0 @ [url1]\<rparr>"
proof -
  have h: "httpGet (Response code status (Some payload)) = ((payload, None), True)"
    using ok by (simp add: httpGet_def)
  from first show "r1 = (payload, None)"
    and "c1 = c0\<lparr>cache := AList.update key \<lparr>body = payload, createdAt = s1\<rparr> (cacheSweep c0 t1),
                  requests := requests c0 @ [url1]\<rparr>"
    unfolding cacheGet_miss [OF miss] h by simp_all
qed

text \<open>A fetch within the retention window of an entry is served from it.\<close>

lemma cacheGet_within:
  assumes held: "map_of (cache c1) key = Some \<lparr>body = payload, createdAt = s1\<rparr>"
    and within: "t2 - s1 \<le> cacheRetensionSeconds c1 * 1000000000"
  shows "cacheGet c1 t2 s2 o2 key url2 = ((payload, None), c1\<lparr>cache := cacheSweep c1 t2\<rparr>)"
    and "map_of (cacheSweep c1 t2) key = Some \<lparr>body = payload, createdAt = s1\<rparr>"
proof -
  show hit: "map_of (cacheSweep c1 t2) key = Some \<lparr>body = payload, createdAt = s1\<rparr>"
    using within by (simp add: cacheSweep_map_of held expired_def)
  show "cacheGet c1 t2 s2 o2 key url2 = ((payload, None), c1\<lparr>cache := cacheSweep c1 t2\<rparr>)"
    unfolding cacheGet_hit [OF hit] by simp
qed

text \<open>
  C3. A first fetch of a key that finds nothing cached and whose request succeeds sends
  one request and stores the payload at the time \<open>s1\<close>. A second fetch of the key within
  the retention window of that entry returns the stored payload and sends nothing, so
  the two fetches make exactly one request. A third fetch after the window finds the
  entry evicted by the sweep and runs the request again: its result is that of the
  request, and the request is logged whenever \<open>Client.Do\<close> is reached.
\<close>

theorem cache_idempotence:
  assumes miss: "map_of (cacheSweep c0 t1) key = None"
    and ok: "200 \<le> code" "code < 300"
    and first: "cacheGet c0 t1 s1 (Response code status (Some payload)) key url1 = (r1, c1)"
    and second: "cacheGet c1 t2 s2 o2 key url2 = (r2, c2)"
    and third: "cacheGet c2 t3 s3 o3 key url3 = (r3, c3)"
    and within: "t2 - s1 \<le> cacheRetensionSeconds c0 * 1000000000"
    and after: "t3 - s1 > cacheRetensionSeconds c0 * 1000000000"
  shows "r1 = (payload, None) \<and> r2 = (payload, None) \<and>
         requests c1 = requests c0 @ [url1] \<and> requests c2 = requests c0 @ [url1] \<and>
         map_of (cache c2) key = Some \<lparr>body = payload, createdAt = s1\<rparr> \<and>
         map_of (cacheSweep c2 t3) key = None \<and>
         r3 = fst (httpGet o3) \<and>
         requests c3 = requests c2 @ (if snd (httpGet o3) then [url3] else [])"
proof -
  note f = cacheGet_first [OF miss ok first]
  have e1: "map_of (cache c1) key = Some \<lparr>body = payload, createdAt = s1\<rparr>"
    by (simp add: f(2) AList.update_conv)
  have ret: "cacheRetensionSeconds c1 = cacheRetensionSeconds c0" by (simp add: f(2))
  have within1: "t2 - s1 \<le> cacheRetensionSeconds c1 * 1000000000"
    using within ret by simp
  note w = cacheGet_within [OF e1 within1]
  from second have r2: "r2 = (payload, None)" and c2: "c2 = c1\<lparr>cache := cacheSweep c1 t2\<rparr>"
    using w(1) by simp_all
  have e2: "map_of (cache c2) key = Some \<lparr>body = payload, createdAt = s1\<rparr>"
    using w(2) by (simp add: c2)
  have ret2: "cacheRetensionSeconds c2 = cacheRetensionSeconds c0" by (simp add: c2 ret)
  have gone: "map_of (cacheSweep c2 t3) key = None"
    using after by (simp only: cacheSweep_map_of e2 ret2) (simp add: expired_def)
  from third have r3: "r3 = fst (httpGet o3)"
    and c3: "requests c3 = requests c2 @ (if snd (httpGet o3) then [url3] else [])"
    unfolding cacheGet_miss [OF gone] by (auto split: if_splits)
  show ?thesis using f r2 c2 e2 gone r3 c3 by simp
qed

lemma afterFirstFetch_value:
  "afterFirstFetch =
     \<lparr>ApiKey = ''k'', cache = [(''get-tv-42'', \<lparr>body = ''p'', createdAt = 1000000000\<rparr>)],
      cacheRetensionSeconds = 60, requests = [''u'']\<rparr>"
  by (simp add: afterFirstFetch_def cacheGet_def cacheSweep_def NewMovieDb_def okResponse_def
      httpGet_def)

lemma afterSecondFetch_value: "afterSecondFetch = afterFirstFetch"
  by (simp add: afterSecondFetch_def afterFirstFetch_value cacheGet_def cacheSweep_def expired_def)

theorem cache_idempotence_witness:
  "map_of (cacheSweep (NewMovieDb ''k'') 0) ''get-tv-42'' = None \<and>
   cacheGet (NewMovieDb ''k'') 0 1000000000 (Response 200 ''200 OK'' (Some ''p''))
     ''get-tv-42'' ''u'' = ((''p'', None), afterFirstFetch) \<and>
   cacheGet afterFirstFetch 30000000000 31000000000 DoFails ''get-tv-42'' ''u'' =
     ((''p'', None), afterSecondFetch) \<and>
   requests afterSecondFetch = [''u''] \<and>
   map_of (cacheSweep afterSecondFetch 62000000000) ''get-tv-42'' = None \<and>
   cacheGet afterSecondFetch 62000000000 63000000000 (okResponse ''fresh'') ''get-tv-42'' ''u'' =
     ((''fresh'', None),
      \<lparr>ApiKey = ''k'', cache = [(''get-tv-42'', \<lparr>body = ''fresh'', createdAt = 63000000000\<rparr>)],
       cacheRetensionSeconds = 60, requests = [''u'', ''u'']\<rparr>)"
proof -
  have miss: "map_of (cacheSweep (NewMovieDb ''k'') 0) ''get-tv-42'' = None"
    by (simp add: cacheSweep_def NewMovieDb_def)
  have first: "cacheGet (NewMovieDb ''k'') 0 1000000000 (Response 200 ''200 OK'' (Some ''p''))
      ''get-tv-42'' ''u'' = ((''p'', None), afterFirstFetch)"
    by (simp add: afterFirstFetch_def cacheGet_def cacheSweep_def NewMovieDb_def okResponse_def
        httpGet_def)
  have second: "cacheGet afterFirstFetch 30000000000 31000000000 DoFails ''get-tv-42'' ''u'' =
      ((''p'', None), afterSecondFetch)"
    by (simp add: afterSecondFetch_value afterFirstFetch_value cacheGet_def cacheSweep_def
        expired_def)
  have third: "cacheGet afterSecondFetch 62000000000 63000000000 (okResponse ''fresh'')
      ''get-tv-42'' ''u'' =
     ((''fresh'', None),
      \<lparr>ApiKey = ''k'', cache = [(''get-tv-42'', \<lparr>body = ''fresh'', createdAt = 63000000000\<rparr>)],
       cacheRetensionSeconds = 60, requests = [''u'', ''u'']\<rparr>)"
    by (simp add: afterSecondFetch_value afterFirstFetch_value cacheGet_def cacheSweep_def
        expired_def okResponse_def httpGet_def)
  have within: "30000000000 - 1000000000 \<le> cacheRetensionSeconds (NewMovieDb ''k'') * 1000000000"
    and after: "62000000000 - 1000000000 > cacheRetensionSeconds (NewMovieDb ''k'') * 1000000000"
    by (simp_all add: NewMovieDb_def)
  have ok: "(200::int) \<le> 200" "(200::int) < 300" by simp_all
  from cache_idempotence [OF miss ok first second third within after]
  have "requests afterSecondFetch = requests (NewMovieDb ''k'') @ [''u''] \<and>
        map_of (cacheSweep afterSecondFetch 62000000000) ''get-tv-42'' = None"
    by simp
  then show ?thesis using miss first second third by (simp add: NewMovieDb_def)
qed

text \<open>
  C7. When the lookup misses and the request fails (the request cannot be built, the
  transport fails, the status is outside 200 to 299, or the body cannot be read),
  \<open>cacheGet\<close> returns the error with no bytes, the cache it leaves is the swept cache,
  and that cache holds no entry for the key.
\<close>

theorem cacheGet_failure_stores_nothing:
  assumes miss: "map_of (cacheSweep c now) key = None"
    and fails: "outcome = NewRequestFails \<or> outcome = DoFails \<or>
       (\<exists>code status readAll. outcome = Response code status readAll \<and>
          (code < 200 \<or> 300 \<le> code \<or> readAll = None))"
  shows "(\<exists>e. fst (cacheGet c now later outcome key url) = ([], Some e)) \<and>
         cache (snd (cacheGet c now later outcome key url)) = cacheSweep c now \<and>
         map_of (cache (snd (cacheGet c now later outcome key url))) key = None"
proof -
  from fails have "\<exists>e. fst (httpGet outcome) = ([], Some e)"
    by (auto simp: httpGet_def)
  then obtain e where "fst (httpGet outcome) = ([], Some e)" ..
  then show ?thesis
    unfolding cacheGet_miss [OF miss] using miss by simp
qed

theorem cacheGet_failure_stores_nothing_witness:
  "map_of (cacheSweep afterFirstFetch 62000000000) ''get-tv-42'' = None \<and>
   fst (cacheGet afterFirstFetch 62000000000 63000000000 (Response 404 ''404 Not Found'' (Some ''x''))
          ''get-tv-42'' ''u'') = ([], Some (ApiRequestError ''404 Not Found'')) \<and>
   cache (snd (cacheGet afterFirstFetch 62000000000 63000000000
          (Response 404 ''404 Not Found'' (Some ''x'')) ''get-tv-42'' ''u'')) = [] \<and>
   cacheSweep afterFirstFetch 62000000000 = []"
proof -
  have sw: "cacheSweep afterFirstFetch 62000000000 = []"
    by (simp add: afterFirstFetch_value cacheSweep_def expired_def)
  have miss: "map_of (cacheSweep afterFirstFetch 62000000000) ''get-tv-42'' = None"
    by (simp add: sw)
  have fails: "Response 404 ''404 Not Found'' (Some ''x'') = NewRequestFails \<or>
      Response 404 ''404 Not Found'' (Some ''x'') = DoFails \<or>
      (\<exists>code status readAll. Response 404 ''404 Not Found'' (Some ''x'') = Response code status readAll \<and>
          (code < 200 \<or> 300 \<le> code \<or> readAll = None))"
    by simp
  have r: "fst (cacheGet afterFirstFetch 62000000000 63000000000
        (Response 404 ''404 Not Found'' (Some ''x'')) ''get-tv-42'' ''u'') =
      ([], Some (ApiRequestError ''404 Not Found''))"
    by (simp add: cacheGet_def sw httpGet_def)
  from cacheGet_failure_stores_nothing [OF miss fails, of 63000000000 "''u''"]
  have "cache (snd (cacheGet afterFirstFetch 62000000000 63000000000
          (Response 404 ''404 Not Found'' (Some ''x'')) ''get-tv-42'' ''u'')) = []"
    by (simp add: sw)
  with sw miss r show ?thesis by simp
qed

section \<open>Properties of the search cache keys\<close>

lemma digitChar_isDigit: "d < 10 \<Longrightarrow> isDigit (digitChar d)"
  by (simp add: isDigit_def digitChar_def)

lemma digitVal_digitChar: "d < 10 \<Longrightarrow> digitVal (digitChar d) = int d"
  by (simp add: digitVal_def digitChar_def)

lemma natDigits_isDigit: "list_all isDigit (natDigits n)"
proof (induction n rule: natDigits.induct)
  case (1 n)
  show ?case
  proof (cases "n < 10")
    case True
    then show ?thesis by (subst natDigits.simps) (simp add: digitChar_isDigit)
  next
    case False
    with 1 show ?thesis by (subst natDigits.simps) (simp add: digitChar_isDigit)
  qed
qed

lemma natDigits_nonempty: "natDigits n \<noteq> []"
  by (subst natDigits.simps) simp

lemma decimal_snoc: "decimal (xs @ [c]) = 10 * decimal xs + digitVal c"
  by (simp add: decimal_def)

lemma decimal_natDigits: "decimal (natDigits n) = int n"
proof (induction n rule: natDigits.induct)
  case (1 n)
  show ?case
  proof (cases "n < 10")
    case True
    then show ?thesis by (subst natDigits.simps) (simp add: decimal_def digitVal_digitChar)
  next
    case False
    with 1 have "decimal (natDigits (n div 10)) = int (n div 10)" by simp
    with False show ?thesis
      by (subst natDigits.simps) (simp add: decimal_snoc digitVal_digitChar zdiv_int zmod_int)
  qed
qed

lemma natDigits_inj: "natDigits n = natDigits m \<Longrightarrow> n = m"
  by (metis decimal_natDigits of_nat_eq_iff)

lemma isDigit_not_dash: "isDigit c \<Longrightarrow> c \<noteq> CHR ''-''"
  by (auto simp: isDigit_def)

lemma natDigits_no_dash: "CHR ''-'' \<notin> set (natDigits n)"
  using natDigits_isDigit [of n] isDigit_not_dash by (auto simp: list_all_iff)

lemma split_first_sep:
  "s \<notin> set a \<Longrightarrow> s \<notin> set b \<Longrightarrow> a @ s # x = b @ s # y \<Longrightarrow> a = b \<and> x = y"
proof (induction a arbitrary: b)
  case Nil
  then show ?case by (cases b) auto
next
  case (Cons c a)
  then show ?case by (cases b) auto
qed

lemma split_last_sep:
  assumes "s \<notin> set d1" "s \<notin> set d2" "q1 @ s # d1 = q2 @ s # d2"
  shows "q1 = q2 \<and> d1 = d2"
proof -
  have "rev (q1 @ s # d1) = rev (q2 @ s # d2)" using assms(3) by simp
  then have "rev d1 @ s # rev q1 = rev d2 @ s # rev q2" by simp
  moreover have "s \<notin> set (rev d1)" "s \<notin> set (rev d2)" using assms by simp_all
  ultimately have "rev d1 = rev d2 \<and> rev q1 = rev q2"
    by (rule split_first_sep [rotated 2])
  then show ?thesis by simp
qed

lemma Itoa_key_inj:
  assumes "0 \<le> p1" "0 \<le> p2" "q1 @ ''-'' @ Itoa p1 = q2 @ ''-'' @ Itoa p2"
  shows "q1 = q2 \<and> p1 = p2"
proof -
  from assms have "q1 @ CHR ''-'' # natDigits (nat p1) = q2 @ CHR ''-'' # natDigits (nat p2)"
    by (simp add: Itoa_def)
  then have "q1 = q2 \<and> natDigits (nat p1) = natDigits (nat p2)"
    by (rule split_last_sep [OF natDigits_no_dash natDigits_no_dash])
  with assms(1,2) show ?thesis using natDigits_inj by force
qed

lemma search_key_inj:
  assumes "0 \<le> p1" "0 \<le> p2"
  shows "searchMovieKey q1 p1 = searchMovieKey q2 p2 \<Longrightarrow> q1 = q2 \<and> p1 = p2"
    and "searchTvKey q1 p1 = searchTvKey q2 p2 \<Longrightarrow> q1 = q2 \<and> p1 = p2"
  using Itoa_key_inj [OF assms, of q1 q2] by (simp_all add: searchMovieKey_def searchTvKey_def)

lemma search_key_op: "searchMovieKey q1 p1 \<noteq> searchTvKey q2 p2"
  by (simp add: searchMovieKey_def searchTvKey_def)

lemma SearchMovie_second:
  assumes miss: "map_of (cacheSweep c0 t1) (searchMovieKey q page) = None"
    and ok: "200 \<le> code" "code < 300"
    and first: "SearchMovie unm c0 t1 s1 (Response code status (Some payload)) q page year1 = (r1, c1)"
    and within: "t2 - s1 \<le> cacheRetensionSeconds c0 * 1000000000"
  shows "SearchMovie unm c1 t2 s2 o2 q page year2 = (unm payload, c1\<lparr>cache := cacheSweep c1 t2\<rparr>)"
    and "requests c1 = requests c0 @ [searchMovieUrl (ApiKey c0) q page year1]"
proof -
  obtain b1 e1 where cg: "cacheGet c0 t1 s1 (Response code status (Some payload)) (searchMovieKey q page)
      (searchMovieUrl (ApiKey c0) q page year1) = ((b1, e1), c1)"
    using first by (auto simp: SearchMovie_def split: prod.splits option.splits)
  note f = cacheGet_first [OF miss ok cg]
  have e: "map_of (cache c1) (searchMovieKey q page) = Some \<lparr>body = payload, createdAt = s1\<rparr>"
    by (simp add: f(2) AList.update_conv)
  have w: "t2 - s1 \<le> cacheRetensionSeconds c1 * 1000000000" using within by (simp add: f(2))
  show "SearchMovie unm c1 t2 s2 o2 q page year2 = (unm payload, c1\<lparr>cache := cacheSweep c1 t2\<rparr>)"
    by (simp add: SearchMovie_def cacheGet_within(1) [OF e w])
  show "requests c1 = requests c0 @ [searchMovieUrl (ApiKey c0) q page year1]"
    by (simp add: f(2))
qed

lemma SearchTv_second:
  assumes miss: "map_of (cacheSweep c0 t1) (searchTvKey q page) = None"
    and ok: "200 \<le> code" "code < 300"
    and first: "SearchTv unm c0 t1 s1 (Response code status (Some payload)) q page year1 = (r1, c1)"
    and within: "t2 - s1 \<le> cacheRetensionSeconds c0 * 1000000000"
  shows "SearchTv unm c1 t2 s2 o2 q page year2 = (unm payload, c1\<lparr>cache := cacheSweep c1 t2\<rparr>)"
    and "requests c1 = requests c0 @ [searchTvUrl (ApiKey c0) q page year1]"
proof -
  obtain b1 e1 where cg: "cacheGet c0 t1 s1 (Response code status (Some payload)) (searchTvKey q page)
      (searchTvUrl (ApiKey c0) q page year1) = ((b1, e1), c1)"
    using first by (auto simp: SearchTv_def split: prod.splits option.splits)
  note f = cacheGet_first [OF miss ok cg]
  have e: "map_of (cache c1) (searchTvKey q page) = Some \<lparr>body = payload, createdAt = s1\<rparr>"
    by (simp add: f(2) AList.update_conv)
  have w: "t2 - s1 \<le> cacheRetensionSeconds c1 * 1000000000" using within by (simp add: f(2))
  show "SearchTv unm c1 t2 s2 o2 q page year2 = (unm payload, c1\<lparr>cache := cacheSweep c1 t2\<rparr>)"
    by (simp add: SearchTv_def cacheGet_within(1) [OF e w])
  show "requests c1 = requests c0 @ [searchTvUrl (ApiKey c0) q page year1]"
    by (simp add: f(2))
qed

text \<open>
  The key is the text \<open>search-movie-<query>-<page>\<close>, so the bound on the pages in
  \<open>search_key_inj\<close> is needed: written with a minus sign, page \<open>-2\<close> for \<open>a\<close> and page \<open>2\<close>
  for \<open>a-\<close> give one text. No caller passes such a page: \<open>Handle\<close> starts at page 1 and
  the loop of \<open>HandleQuery\<close> passes on the page, the page after it, or page 1
  (\<open>pages_Handle\<close> below).
\<close>

lemma search_key_negative_page: "searchMovieKey ''a'' (- 2) = searchMovieKey ''a-'' 2"
  by code_simp

text \<open>
  C10. The key of a search is made of the operation name, the query text and the page,
  not the year. For page numbers (pages that are not negative), two searches of one
  operation have the same key only when query text and page agree, and a movie search
  and a show search never have the same key: searches that differ in query text or page
  are never served the same entry. A search that finds nothing cached and succeeds
  sends one request; a second search with the same query text and page within the
  retention window returns the decoded payload of the first and sends no request,
  whatever its year argument.
\<close>

theorem search_cache_key:
  assumes pages: "0 \<le> page1" "0 \<le> page2"
  shows "(searchMovieKey q1 page1 = searchMovieKey q2 page2 \<longrightarrow> q1 = q2 \<and> page1 = page2) \<and>
     (searchTvKey q1 page1 = searchTvKey q2 page2 \<longrightarrow> q1 = q2 \<and> page1 = page2) \<and>
     searchMovieKey q1 page1 \<noteq> searchTvKey q2 page2 \<and>
     (map_of (cacheSweep c0 t1) (searchMovieKey q1 page1) = None \<and> 200 \<le> code \<and> code < 300 \<and>
      SearchMovie unmarshalMovies c0 t1 s1 (Response code status (Some payload)) q1 page1 year1 =
        (r1, c1) \<and>
      t2 - s1 \<le> cacheRetensionSeconds c0 * 1000000000 \<longrightarrow>
        SearchMovie unmarshalMovies c1 t2 s2 o2 q1 page1 year2 =
          (unmarshalMovies payload, c1\<lparr>cache := cacheSweep c1 t2\<rparr>) \<and>
        requests c1 = requests c0 @ [searchMovieUrl (ApiKey c0) q1 page1 year1]) \<and>
     (map_of (cacheSweep c0 t1) (searchTvKey q1 page1) = None \<and> 200 \<le> code \<and> code < 300 \<and>
      SearchTv unmarshalShows c0 t1 s1 (Response code status (Some payload)) q1 page1 year1 =
        (r1', c1') \<and>
      t2 - s1 \<le> cacheRetensionSeconds c0 * 1000000000 \<longrightarrow>
        SearchTv unmarshalShows c1' t2 s2 o2 q1 page1 year2 =
          (unmarshalShows payload, c1'\<lparr>cache := cacheSweep c1' t2\<rparr>) \<and>
        requests c1' = requests c0 @ [searchTvUrl (ApiKey c0) q1 page1 year1])"
proof (intro conjI impI)
  assume "searchMovieKey q1 page1 = searchMovieKey q2 page2"
  then show "q1 = q2" "page1 = page2" using search_key_inj(1) [OF pages] by blast+
next
  assume "searchTvKey q1 page1 = searchTvKey q2 page2"
  then show "q1 = q2" "page1 = page2" using search_key_inj(2) [OF pages] by blast+
next
  show "searchMovieKey q1 page1 \<noteq> searchTvKey q2 page2" by (rule search_key_op)
next
  assume a: "map_of (cacheSweep c0 t1) (searchMovieKey q1 page1) = None \<and> 200 \<le> code \<and>
      code < 300 \<and>
      SearchMovie unmarshalMovies c0 t1 s1 (Response code status (Some payload)) q1 page1 year1 =
        (r1, c1) \<and>
      t2 - s1 \<le> cacheRetensionSeconds c0 * 1000000000"
  then show "SearchMovie unmarshalMovies c1 t2 s2 o2 q1 page1 year2 =
          (unmarshalMovies payload, c1\<lparr>cache := cacheSweep c1 t2\<rparr>)"
    using SearchMovie_second(1) by blast
  from a show "requests c1 = requests c0 @ [searchMovieUrl (ApiKey c0) q1 page1 year1]"
    using SearchMovie_second(2) by blast
next
  assume a: "map_of (cacheSweep c0 t1) (searchTvKey q1 page1) = None \<and> 200 \<le> code \<and>
      code < 300 \<and>
      SearchTv unmarshalShows c0 t1 s1 (Response code status (Some payload)) q1 page1 year1 =
        (r1', c1') \<and>
      t2 - s1 \<le> cacheRetensionSeconds c0 * 1000000000"
  then show "SearchTv unmarshalShows c1' t2 s2 o2 q1 page1 year2 =
          (unmarshalShows payload, c1'\<lparr>cache := cacheSweep c1' t2\<rparr>)"
    using SearchTv_second(1) by blast
  from a show "requests c1' = requests c0 @ [searchTvUrl (ApiKey c0) q1 page1 year1]"
    using SearchTv_second(2) by blast
qed

theorem search_cache_key_witness:
  "(0::int) \<le> 1 \<and> (0::int) \<le> 2 \<and>
   searchMovieKey ''alien'' 1 \<noteq> searchMovieKey ''aliens'' 2 \<and>
   searchTvKey ''alien'' 1 \<noteq> searchTvKey ''aliens'' 2 \<and>
   searchMovieKey ''alien'' 1 \<noteq> searchTvKey ''aliens'' 2 \<and>
   map_of (cacheSweep (NewMovieDb ''k'') 0) (searchMovieKey ''alien'' 1) = None \<and>
   SearchMovie titleDecoder (NewMovieDb ''k'') 0 1000000000 (Response 200 ''200 OK'' (Some ''first''))
     ''alien'' 1 1979 = (titleDecoder ''first'', afterFirstSearch) \<and>
   SearchMovie titleDecoder afterFirstSearch 30000000000 31000000000 (okResponse ''second'')
     ''alien'' 1 1986 = (titleDecoder ''first'', afterFirstSearch\<lparr>cache := cacheSweep afterFirstSearch 30000000000\<rparr>) \<and>
   requests afterFirstSearch = [searchMovieUrl ''k'' ''alien'' 1 1979]"
proof -
  have pages: "(0::int) \<le> 1" "(0::int) \<le> 2" by simp_all
  have miss: "map_of (cacheSweep (NewMovieDb ''k'') 0) (searchMovieKey ''alien'' 1) = None"
    by (simp add: cacheSweep_def NewMovieDb_def)
  have first: "SearchMovie titleDecoder (NewMovieDb ''k'') 0 1000000000
      (Response 200 ''200 OK'' (Some ''first'')) ''alien'' 1 1979 =
      (titleDecoder ''first'', afterFirstSearch)"
    by (simp add: afterFirstSearch_def SearchMovie_def cacheGet_def cacheSweep_def NewMovieDb_def
        okResponse_def httpGet_def)
  have within: "30000000000 - 1000000000 \<le> cacheRetensionSeconds (NewMovieDb ''k'') * 1000000000"
    by (simp add: NewMovieDb_def)
  note t = search_cache_key [OF pages, where ?q1.0 = "''alien''" and ?q2.0 = "''aliens''"
      and ?c0.0 = "NewMovieDb ''k''" and ?t1.0 = 0 and code = 200 and unmarshalMovies = titleDecoder
      and ?s1.0 = 1000000000 and status = "''200 OK''" and payload = "''first''" and ?year1.0 = 1979
      and ?r1.0 = "titleDecoder ''first''" and ?c1.0 = afterFirstSearch and ?t2.0 = 30000000000
      and ?s2.0 = 31000000000 and ?o2.0 = "okResponse ''second''" and ?year2.0 = 1986]
  from t miss first within
  have "searchMovieKey ''alien'' 1 \<noteq> searchMovieKey ''aliens'' 2 \<and>
    searchTvKey ''alien'' 1 \<noteq> searchTvKey ''aliens'' 2 \<and>
    searchMovieKey ''alien'' 1 \<noteq> searchTvKey ''aliens'' 2 \<and>
    SearchMovie titleDecoder afterFirstSearch 30000000000 31000000000 (okResponse ''second'')
     ''alien'' 1 1986 = (titleDecoder ''first'', afterFirstSearch\<lparr>cache := cacheSweep afterFirstSearch 30000000000\<rparr>) \<and>
    requests afterFirstSearch = [searchMovieUrl ''k'' ''alien'' 1 1979]"
    by (auto simp: NewMovieDb_def)
  with miss first show ?thesis by simp
qed

section \<open>Properties of the sibling reducer\<close>

text \<open>What the tokenizer splits into fields is ASCII: lower-case letters, digits and spaces.\<close>

lemma toLowerChar_alnum: "isAlnum c \<Longrightarrow> isDigit (toLowerChar c) \<or> isLower (toLowerChar c)"
proof (cases "isUpper c")
  case True
  then have "of_char c + (32::nat) < 256" by (simp add: isUpper_def)
  then have "of_char (char_of (of_char c + (32::nat))) = of_char c + (32::nat)"
    by (simp add: of_char_of)
  with True show ?thesis by (simp add: toLowerChar_def isLower_def isUpper_def)
next
  case False
  assume "isAlnum c"
  with False show ?thesis by (simp add: toLowerChar_def isAlnum_def)
qed

lemma replaceRuns_chars: "c \<in> set (replaceRuns inRun s) \<Longrightarrow> isAlnum c \<or> c = CHR '' ''"
  by (induction inRun s rule: replaceRuns.induct) (auto split: if_splits)

lemma replaceRuns_ascii:
  assumes "c \<in> set (ToLower (replaceRuns inRun s))"
  shows "isDigit c \<or> isLower c \<or> c = CHR '' ''"
proof -
  from assms obtain c' where c': "c' \<in> set (replaceRuns inRun s)" "c = toLowerChar c'"
    by (auto simp: ToLower_def)
  from replaceRuns_chars [OF c'(1)] show ?thesis
  proof
    assume "isAlnum c'"
    then show ?thesis using toLowerChar_alnum c'(2) by blast
  next
    assume "c' = CHR '' ''"
    then show ?thesis using c'(2) by (simp add: toLowerChar_def isUpper_def)
  qed
qed

text \<open>
  The binary search on a sorted slice: everything before the index it returns is
  smaller than the string searched for, everything from it on is not.
\<close>

lemma search_bounds:
  assumes "i \<le> j" "j \<le> n"
    and "\<forall>a b. a \<le> b \<and> b < n \<and> f a \<longrightarrow> f b"
    and "\<forall>k<i. \<not> f k" "\<forall>k. j \<le> k \<and> k < n \<longrightarrow> f k"
  shows "search i j f \<le> n \<and> (\<forall>k<search i j f. \<not> f k) \<and>
         (\<forall>k. search i j f \<le> k \<and> k < n \<longrightarrow> f k)"
  using assms
proof (induction i j f rule: search.induct)
  case (1 i j f)
  show ?case
  proof (cases "i < j")
    case False
    have "search i j f = i" using False by (subst search.simps) simp
    moreover from False 1(3) have "i = j" by simp
    ultimately show ?thesis using 1(4,6,7) by simp
  next
    case True
    define h where "h = (i + j) div 2"
    have hb: "i \<le> h" "h < j" using True by (simp_all add: h_def)
    have hn: "h < n" using hb 1(4) by simp
    show ?thesis
    proof (cases "f h")
      case False
      have low: "\<forall>k<h + 1. \<not> f k"
      proof (intro allI impI)
        fix k assume "k < h + 1"
        then have kh: "k \<le> h" by simp
        show "\<not> f k"
        proof
          assume "f k"
          with kh hn 1(5) have "f h" by blast
          with False show False ..
        qed
      qed
      have le: "h + 1 \<le> j" using hb by simp
      note IH = 1(1) [OF True h_def False le 1(4) 1(5) low 1(7)]
      have eq: "search i j f = search (h + 1) j f"
        using True False by (subst search.simps) (simp add: h_def Let_def)
      show ?thesis unfolding eq by (rule IH)
    next
      case fh: True
      have high: "\<forall>k. h \<le> k \<and> k < n \<longrightarrow> f k"
        using fh 1(5) by blast
      have fh': "\<not> \<not> f h" using fh by simp
      have le: "i \<le> h" "h \<le> n" using hb hn by simp_all
      note IH = 1(2) [OF True h_def fh' le 1(5) 1(6) high]
      have eq: "search i j f = search i h f"
        using True fh by (subst search.simps) (simp add: h_def Let_def)
      show ?thesis unfolding eq by (rule IH)
    qed
  qed
qed

lemma SearchStrings_found:
  assumes "sorted b"
  shows "(SearchStrings b x < length b \<and> b ! (SearchStrings b x) = x) \<longleftrightarrow> x \<in> set b"
proof -
  let ?f = "\<lambda>i. b ! i \<ge> x"
  have mono: "\<forall>i j. i \<le> j \<and> j < length b \<and> ?f i \<longrightarrow> ?f j"
  proof (intro allI impI)
    fix i j assume a: "i \<le> j \<and> j < length b \<and> x \<le> b ! i"
    then have "b ! i \<le> b ! j" using assms by (simp add: sorted_nth_mono)
    moreover from a have "x \<le> b ! i" by simp
    ultimately show "x \<le> b ! j" by (rule order_trans [rotated])
  qed
  have z: "\<forall>k<(0::nat). \<not> ?f k" by simp
  have e: "\<forall>k. length b \<le> k \<and> k < length b \<longrightarrow> ?f k"
  proof (intro allI impI)
    fix k assume "length b \<le> k \<and> k < length b"
    then have False by arith
    then show "x \<le> b ! k" ..
  qed
  have s: "search 0 (length b) ?f \<le> length b \<and> (\<forall>k<search 0 (length b) ?f. \<not> ?f k) \<and>
         (\<forall>k. search 0 (length b) ?f \<le> k \<and> k < length b \<longrightarrow> ?f k)"
    by (rule search_bounds [OF _ _ mono z e]) simp_all
  define r where "r = search 0 (length b) ?f"
  have r_eq: "SearchStrings b x = r" by (simp only: SearchStrings_def r_def)
  have r: "r \<le> length b" "\<forall>k<r. \<not> b ! k \<ge> x" "\<forall>k. r \<le> k \<and> k < length b \<longrightarrow> b ! k \<ge> x"
    using s unfolding r_def [symmetric] by blast+
  show ?thesis unfolding r_eq
  proof
    assume "r < length b \<and> b ! r = x"
    then show "x \<in> set b" using nth_mem [of r b] by auto
  next
    assume "x \<in> set b"
    then obtain k where k: "k < length b" "b ! k = x" by (auto simp: in_set_conv_nth)
    have rk: "r \<le> k"
    proof (rule ccontr)
      assume "\<not> r \<le> k"
      then have "k < r" by simp
      with r(2) have "\<not> x \<le> b ! k" by blast
      with k(2) show False by simp
    qed
    then have rl: "r < length b" using k by simp
    have "b ! r \<le> b ! k" using assms rk k(1) by (simp add: sorted_nth_mono)
    then have up: "b ! r \<le> x" by (simp only: k(2))
    have lo: "x \<le> b ! r" using r(3) rl by simp
    have "b ! r = x" using up lo by (rule order_antisym)
    with rl show "r < length b \<and> b ! r = x" by simp
  qed
qed

lemma sortedIntersect_filter:
  "sorted b \<Longrightarrow> sortedIntersect a b = filter (\<lambda>el. el \<in> set b) a"
  by (simp add: sortedIntersect_def SearchStrings_found)

lemma stringSliceContains_set: "stringSliceContains s a \<longleftrightarrow> a \<in> set s"
  by (induction s) auto

lemma stringSliceContains_fun: "stringSliceContains s = (\<lambda>a. a \<in> set s)"
  by (rule ext) (simp add: stringSliceContains_set)

lemma set_uniqLoop: "set (w # uniqLoop w ws) = set (w # ws)"
  by (induction ws arbitrary: w) auto

lemma sorted_uniqLoop: "sorted (w # ws) \<Longrightarrow> sorted (w # uniqLoop w ws)"
proof (induction ws arbitrary: w)
  case Nil
  then show ?case by simp
next
  case (Cons a ws)
  then have sa: "sorted (a # uniqLoop a ws)" by simp
  have wa: "w \<le> a" using Cons.prems by simp
  have "\<forall>y\<in>set (a # uniqLoop a ws). w \<le> y"
    using Cons.prems unfolding set_uniqLoop by auto
  with sa wa show ?case by auto
qed

lemma sortUniq_set: "set (fst (sortUniq ws)) = set ws"
proof (cases "sort ws")
  case Nil
  then have "ws = []" by (metis length_sort length_0_conv)
  then show ?thesis by (simp add: sortUniq_def)
next
  case (Cons a as)
  then have "set (fst (sortUniq ws)) = set (a # as)"
    by (simp add: sortUniq_def set_uniqLoop del: set_simps)
  also have "\<dots> = set (sort ws)" by (simp add: Cons)
  finally show ?thesis by simp
qed

lemma sortUniq_sorted: "sorted (fst (sortUniq ws))"
proof (cases "sort ws")
  case Nil
  then show ?thesis by (simp add: sortUniq_def)
next
  case (Cons a as)
  have "sorted (sort ws)" by simp
  then have "sorted (a # as)" by (simp only: Cons)
  then have "sorted (a # uniqLoop a as)" by (rule sorted_uniqLoop)
  then show ?thesis by (simp add: sortUniq_def Cons)
qed

lemma sortUniq_snd: "snd (sortUniq ws) = sort ws"
  by (simp add: sortUniq_def Let_def)

lemma intersectPeers_step:
  "sortedIntersect common (fst (sortUniq (buildQueryTokens peer stops))) =
     filter (\<lambda>el. el \<in> set (buildQueryTokens peer stops)) common"
  by (simp add: sortedIntersect_filter sortUniq_sorted sortUniq_set)

lemma intersectPeers_result:
  "intersectPeers stops common peers = (c, early) \<Longrightarrow>
     (early \<longrightarrow> c = [] \<and>
        filter (\<lambda>el. \<forall>p\<in>set peers. el \<in> set (buildQueryTokens p stops)) common = []) \<and>
     (\<not> early \<longrightarrow>
        c = filter (\<lambda>el. \<forall>p\<in>set peers. el \<in> set (buildQueryTokens p stops)) common)"
proof (induction peers arbitrary: common)
  case Nil
  then show ?case by auto
next
  case (Cons peer peers)
  let ?c' = "filter (\<lambda>el. el \<in> set (buildQueryTokens peer stops)) common"
  show ?case
  proof (cases "?c' = []")
    case True
    then have "intersectPeers stops common (peer # peers) = ([], True)"
      by (simp add: intersectPeers_step)
    with Cons.prems have "c = []" "early" by simp_all
    moreover have "filter (\<lambda>el. \<forall>p\<in>set (peer # peers). el \<in> set (buildQueryTokens p stops))
        common = []"
      using True by (auto simp: filter_empty_conv)
    ultimately show ?thesis by simp
  next
    case False
    then have "intersectPeers stops common (peer # peers) = intersectPeers stops ?c' peers"
      by (simp add: intersectPeers_step)
    with Cons.prems have "intersectPeers stops ?c' peers = (c, early)" by simp
    from Cons.IH [OF this]
    have "(early \<longrightarrow> c = [] \<and>
        filter (\<lambda>el. \<forall>p\<in>set peers. el \<in> set (buildQueryTokens p stops)) ?c' = []) \<and>
     (\<not> early \<longrightarrow>
        c = filter (\<lambda>el. \<forall>p\<in>set peers. el \<in> set (buildQueryTokens p stops)) ?c')" .
    moreover have "filter (\<lambda>el. \<forall>p\<in>set peers. el \<in> set (buildQueryTokens p stops)) ?c' =
        filter (\<lambda>el. \<forall>p\<in>set (peer # peers). el \<in> set (buildQueryTokens p stops)) common"
      by (auto intro: filter_cong)
    ultimately show ?thesis by simp
  qed
qed

text \<open>What the function computes: the common tokens in sorted order.\<close>

lemma commonDirWords_sorted:
  assumes "Abs wd (Dir moviePath) = Inr dir"
  shows "commonDirWords wd moviePath movieList stops =
     Inr (filter (\<lambda>el. \<forall>p\<in>set (filter (\<lambda>p. HasPrefix p dir) movieList).
                     el \<in> set (buildQueryTokens (fNameSansExtension p) stops))
            (sort (buildQueryTokens (fNameSansExtension moviePath) stops)))"
proof -
  let ?toks = "buildQueryTokens (fNameSansExtension moviePath) stops"
  let ?peers = "map fNameSansExtension (filter (\<lambda>p. HasPrefix p dir) movieList)"
  let ?P = "\<lambda>el. \<forall>p\<in>set ?peers. el \<in> set (buildQueryTokens p stops)"
  obtain c early where ip: "intersectPeers stops (fst (sortUniq ?toks)) ?peers = (c, early)"
    by (cases "intersectPeers stops (fst (sortUniq ?toks)) ?peers") auto
  note res = intersectPeers_result [OF ip]
  have P: "?P = (\<lambda>el. \<forall>p\<in>set (filter (\<lambda>p. HasPrefix p dir) movieList).
                     el \<in> set (buildQueryTokens (fNameSansExtension p) stops))"
    by auto
  have cd: "commonDirWords wd moviePath movieList stops =
      (if early then Inr c else Inr (filter (\<lambda>el. el \<in> set c) (sort ?toks)))"
    using assms ip
    by (simp add: commonDirWords_def Let_def split_beta sortUniq_snd stringSliceContains_fun)
  show ?thesis
  proof (cases early)
    case True
    with res have "c = []" and e: "filter ?P (fst (sortUniq ?toks)) = []" by simp_all
    from e have "\<forall>el\<in>set ?toks. \<not> ?P el"
      unfolding filter_empty_conv sortUniq_set by simp
    then have "filter ?P (sort ?toks) = []"
      unfolding filter_empty_conv by simp
    with True \<open>c = []\<close> show ?thesis unfolding cd P by simp
  next
    case False
    with res have c: "c = filter ?P (fst (sortUniq ?toks))" by simp
    have "filter (\<lambda>el. el \<in> set c) (sort ?toks) = filter ?P (sort ?toks)"
      unfolding c by (rule filter_cong) (auto simp: sortUniq_set)
    with False show ?thesis unfolding cd P by simp
  qed
qed

lemma underDir_HasPrefix: "underDir dir p \<Longrightarrow> HasPrefix p dir"
  by (simp add: underDir_def)

text \<open>
  C4, as stated, fails in two ways. A file in a directory below the directory of the
  target is a peer (its path begins with the directory path): with \<open>extras/alpha zulu\<close>
  below the directory of \<open>alpha mike zulu\<close> the token \<open>mike\<close> is lost, though the target is
  the only file residing in its directory. And the result is in sorted order, not in the
  order of the target: \<open>zulu alpha\<close> alone gives \<open>alpha zulu\<close>.
\<close>

theorem sibling_reducer_counterexample:
  "commonDirWords (Inr ''/'') ''/in/show/alpha mike zulu.mkv''
     [''/in/show/alpha mike zulu.mkv'', ''/in/show/extras/alpha zulu.mkv''] [] =
     Inr [''alpha'', ''zulu''] \<and>
   specCommonTokens ''/in/show/alpha mike zulu.mkv''
     [''/in/show/alpha mike zulu.mkv'', ''/in/show/extras/alpha zulu.mkv''] [] =
     [''alpha'', ''mike'', ''zulu''] \<and>
   commonDirWords (Inr ''/'') ''/in/zulu alpha.mkv'' [''/in/zulu alpha.mkv''] [] =
     Inr [''alpha'', ''zulu''] \<and>
   specCommonTokens ''/in/zulu alpha.mkv'' [''/in/zulu alpha.mkv''] [] = [''zulu'', ''alpha'']"
  by code_simp

text \<open>
  C4, amended. When every listed path that begins with the directory path of the target
  lies under that directory, \<open>commonDirWords\<close> returns the tokens of the target
  (extension stripped, base name) that occur among the tokens of every listed file
  under the directory of the target (in it or below it), each as often as the target
  has it; it returns empty when some such file shares no token with the target. The
  order of the result is left open.
\<close>

theorem commonDirWords_common_tokens:
  assumes dir: "Abs wd (Dir moviePath) = Inr dir"
    and tree: "\<forall>p\<in>set movieList. HasPrefix p dir \<longrightarrow> underDir dir p"
  shows "\<exists>result. commonDirWords wd moviePath movieList stops = Inr result \<and>
     mset result =
       mset (filter (\<lambda>w. \<forall>p\<in>set movieList. underDir dir p \<longrightarrow>
                       w \<in> set (buildQueryTokens (fNameSansExtension p) stops))
              (buildQueryTokens (fNameSansExtension moviePath) stops)) \<and>
     ((\<exists>p\<in>set movieList. underDir dir p \<and>
          set (buildQueryTokens (fNameSansExtension p) stops) \<inter>
          set (buildQueryTokens (fNameSansExtension moviePath) stops) = {}) \<longrightarrow>
      result = [])"
proof -
  let ?toks = "buildQueryTokens (fNameSansExtension moviePath) stops"
  let ?Q = "\<lambda>w. \<forall>p\<in>set movieList. underDir dir p \<longrightarrow>
                       w \<in> set (buildQueryTokens (fNameSansExtension p) stops)"
  have P: "(\<lambda>el. \<forall>p\<in>set (filter (\<lambda>p. HasPrefix p dir) movieList).
                     el \<in> set (buildQueryTokens (fNameSansExtension p) stops)) = ?Q"
    using tree underDir_HasPrefix by (intro ext) auto
  have r: "commonDirWords wd moviePath movieList stops = Inr (filter ?Q (sort ?toks))"
    unfolding commonDirWords_sorted [OF dir] P ..
  have m: "mset (filter ?Q (sort ?toks)) = mset (filter ?Q ?toks)"
    by simp
  have e: "filter ?Q (sort ?toks) = []"
    if "\<exists>p\<in>set movieList. underDir dir p \<and>
          set (buildQueryTokens (fNameSansExtension p) stops) \<inter> set ?toks = {}"
    using that unfolding filter_empty_conv by auto
  show ?thesis using r m e by blast
qed

theorem commonDirWords_common_tokens_witness:
  "Abs (Inr ''/'') (Dir ''/in/show/zulu mike alpha.mkv'') = Inr ''/in/show'' \<and>
   underDir ''/in/show'' ''/in/show/zulu mike alpha.mkv'' \<and>
   underDir ''/in/show'' ''/in/show/extras/zulu alpha.mkv'' \<and>
   \<not> HasPrefix ''/in/other/beta.mkv'' ''/in/show'' \<and>
   commonDirWords (Inr ''/'') ''/in/show/zulu mike alpha.mkv''
     [''/in/show/zulu mike alpha.mkv'', ''/in/show/extras/zulu alpha.mkv'', ''/in/other/beta.mkv'']
     [] = Inr [''alpha'', ''zulu''] \<and>
   mset [''alpha'', ''zulu''] =
     mset (filter (\<lambda>w. \<forall>p\<in>set [''/in/show/zulu mike alpha.mkv'',
                ''/in/show/extras/zulu alpha.mkv'', ''/in/other/beta.mkv''].
              underDir ''/in/show'' p \<longrightarrow> w \<in> set (buildQueryTokens (fNameSansExtension p) []))
            (buildQueryTokens (fNameSansExtension ''/in/show/zulu mike alpha.mkv'') []))"
proof -
  have dir: "Abs (Inr ''/'') (Dir ''/in/show/zulu mike alpha.mkv'') = Inr ''/in/show''"
    by code_simp
  have u: "underDir ''/in/show'' ''/in/show/zulu mike alpha.mkv''"
    "underDir ''/in/show'' ''/in/show/extras/zulu alpha.mkv''"
    "\<not> HasPrefix ''/in/other/beta.mkv'' ''/in/show''"
    by code_simp+
  have tree: "\<forall>p\<in>set [''/in/show/zulu mike alpha.mkv'', ''/in/show/extras/zulu alpha.mkv'',
      ''/in/other/beta.mkv'']. HasPrefix p ''/in/show'' \<longrightarrow> underDir ''/in/show'' p"
    using u by simp
  have r: "commonDirWords (Inr ''/'') ''/in/show/zulu mike alpha.mkv''
     [''/in/show/zulu mike alpha.mkv'', ''/in/show/extras/zulu alpha.mkv'', ''/in/other/beta.mkv'']
     [] = Inr [''alpha'', ''zulu'']"
    by code_simp
  from commonDirWords_common_tokens [OF dir tree, of "[]"]
  have "mset [''alpha'', ''zulu''] =
     mset (filter (\<lambda>w. \<forall>p\<in>set [''/in/show/zulu mike alpha.mkv'',
                ''/in/show/extras/zulu alpha.mkv'', ''/in/other/beta.mkv''].
              underDir ''/in/show'' p \<longrightarrow> w \<in> set (buildQueryTokens (fNameSansExtension p) []))
            (buildQueryTokens (fNameSansExtension ''/in/show/zulu mike alpha.mkv'') []))"
    unfolding r by blast
  with dir u r show ?thesis by simp
qed

section \<open>Properties of the media records\<close>

lemma splitFrom_nonempty: "splitFrom sep cur s \<noteq> []"
  by (induction s arbitrary: cur) auto

lemma Split_nonempty: "Split s sep \<noteq> []"
  by (simp add: Split_def splitFrom_nonempty)

text \<open>C9, as stated, fails for a show: \<open>Tv.GetPath\<close> is a panic.\<close>

theorem show_path_counterexample:
  "GetPath (TvMedia exampleTv) = Inl (Panic ''No path for tv'')"
  by simp

text \<open>
  C9, amended. For every movie and every episode \<open>GetPath\<close> returns a path and does not
  panic (\<open>strings.Split\<close> never returns an empty slice, so \<open>dateParts[0]\<close> exists); for
  every show \<open>GetPath\<close> panics with \<open>No path for tv\<close>. The other five capabilities are the
  total functions \<open>GetId\<close>, \<open>GetName\<close>, \<open>GetDate\<close>, \<open>GetOverview\<close> and \<open>GetType\<close>.
\<close>

theorem media_paths:
  "(\<exists>path. GetPath (MovieMedia m) = Inr path) \<and>
   (\<exists>path. GetPath (TvEpisodeMedia e) = Inr path) \<and>
   GetPath (TvMedia t) = Inl (Panic ''No path for tv'')"
proof -
  obtain y ys where "Split (Movie_ReleaseDate m) (CHR ''-'') = y # ys"
    using Split_nonempty by (cases "Split (Movie_ReleaseDate m) (CHR ''-'')") auto
  moreover obtain z zs where "Split (TvEpisode_FirstAirDate e) (CHR ''-'') = z # zs"
    using Split_nonempty by (cases "Split (TvEpisode_FirstAirDate e) (CHR ''-'')") auto
  ultimately show ?thesis by simp
qed

section \<open>Properties of the selector\<close>

lemma fetchedShows_iff: "tv \<in> set (fetchedShows tr showId) \<longleftrightarrow> GetTvCall showId (tv, None) \<in> set tr"
  by (induction tr showId rule: fetchedShows.induct) auto

lemma seasonFetched_iff:
  "seasonFetched tr showId seasonNo fetched \<longleftrightarrow>
     (\<exists>tv. GetTvCall showId (tv, None) \<in> set tr \<and> GetTvSeasonCall tv seasonNo (fetched, None) \<in> set tr)"
  unfolding seasonFetched_def list_ex_iff using fetchedShows_iff by blast

lemma seasonFetched_mono:
  "seasonFetched tr showId seasonNo fetched \<Longrightarrow> set tr \<subseteq> set tr' \<Longrightarrow>
   seasonFetched tr' showId seasonNo fetched"
  unfolding seasonFetched_iff by blast

text \<open>Changes that keep the mode fields and only extend the trace keep the invariant.\<close>

lemma invariant_frame:
  assumes "selectorInvariant s"
    and "mode s' = mode s" "tvId s' = tvId s" "seasonNumber s' = seasonNumber s"
        "tvSeason s' = tvSeason s" "set (trace s) \<subseteq> set (trace s')"
  shows "selectorInvariant s'"
  using assms seasonFetched_mono [of "trace s" "tvId s" "seasonNumber s" "tvSeason s" "trace s'"]
  by (simp add: selectorInvariant_def split: if_splits)

lemma invariant_say: "selectorInvariant s \<Longrightarrow> selectorInvariant (say s e)"
  by (erule invariant_frame) (auto simp: say_def)

lemma invariant_movieDb: "selectorInvariant s \<Longrightarrow> selectorInvariant (s\<lparr>movieDb := db\<rparr>)"
  by (erule invariant_frame) auto

lemma invariant_NewSelector: "selectorInvariant (NewSelector db dir stops)"
  by (simp add: selectorInvariant_def NewSelector_def emptyTvSeason_def)

lemma invariant_setMovieMode: "selectorInvariant (setMovieMode s qry)"
  by (simp add: selectorInvariant_def setMovieMode_def emptyTvSeason_def)

lemma invariant_setTvMode: "selectorInvariant (setTvMode s qry)"
  by (simp add: selectorInvariant_def setTvMode_def emptyTvSeason_def)

lemma invariant_setTvSeasonEpisodeMode:
  assumes "selectorInvariant s"
  shows "selectorInvariant (snd (setTvSeasonEpisodeMode cat s showId seasonNo qry))"
proof -
  obtain tv err db1 where g: "getShow cat (movieDb s) showId = ((tv, err), db1)"
    by (metis surj_pair)
  obtain fetched err2 db2 where h: "getSeason cat db1 tv seasonNo = ((fetched, err2), db2)"
    by (metis surj_pair)
  let ?s1 = "say (s\<lparr>movieDb := db1\<rparr>) (GetTvCall showId (tv, err))"
  let ?s2 = "say (?s1\<lparr>movieDb := db2\<rparr>) (GetTvSeasonCall tv seasonNo (fetched, err2))"
  have i1: "selectorInvariant ?s1" by (intro invariant_say invariant_movieDb assms)
  have i2: "selectorInvariant ?s2" by (intro invariant_say invariant_movieDb i1)
  show ?thesis
  proof (cases err)
    case (Some e)
    then show ?thesis using i1 g by (simp add: setTvSeasonEpisodeMode_def)
  next
    case None
    show ?thesis
    proof (cases err2)
      case (Some e)
      then show ?thesis using i2 g h None by (simp add: setTvSeasonEpisodeMode_def Let_def)
    next
      case n2: None
      have "seasonFetched (trace ?s2) showId seasonNo fetched"
        unfolding seasonFetched_iff using None n2 by (auto simp: say_def)
      then show ?thesis using g h None n2
        by (simp add: setTvSeasonEpisodeMode_def Let_def selectorInvariant_def say_def)
    qed
  qed
qed

lemma invariant_setTvSeasonEpisodeMode':
  "selectorInvariant s \<Longrightarrow> setTvSeasonEpisodeMode cat s showId seasonNo qry = (err, s1) \<Longrightarrow>
   selectorInvariant s1"
  using invariant_setTvSeasonEpisodeMode [of s cat showId seasonNo qry] by simp

lemma invariant_chooseMode:
  "selectorInvariant s \<Longrightarrow> selectorInvariant (fst (chooseMode s myQuery season episode manual common))"
  by (simp add: chooseMode_def Let_def invariant_setMovieMode invariant_setTvMode)

lemma invariant_recallShow:
  assumes "selectorInvariant s"
  shows "selectorInvariant (recallShow cat s myQuery season)"
proof (cases "isTvMode s")
  case False
  then show ?thesis using assms by (simp add: recallShow_def)
next
  case True
  show ?thesis
  proof (cases "map_of (tvShowSelections s) myQuery")
    case None
    then show ?thesis using assms True by (simp add: recallShow_def)
  next
    case (Some showId)
    obtain err s1 where r: "setTvSeasonEpisodeMode cat s showId season myQuery = (err, s1)"
      by (metis surj_pair)
    have "selectorInvariant s1"
      using invariant_setTvSeasonEpisodeMode [OF assms, of cat showId season myQuery] r by simp
    then show ?thesis using True Some r
      by (cases err) (simp_all add: recallShow_def invariant_say)
  qed
qed

lemma invariant_dispatchSearch:
  assumes "selectorInvariant s"
  shows "selectorInvariant (fst (dispatchSearch cat s myQuery page year suffix))"
proof -
  have m: "selectorInvariant (case err of Some e \<Rightarrow> say (say (s\<lparr>movieDb := db1\<rparr>) ev) (f e)
                             | None \<Rightarrow> say (s\<lparr>movieDb := db1\<rparr>) ev)" for err db1 ev and f :: "error \<Rightarrow> event"
    by (cases err) (simp_all add: invariant_say invariant_movieDb assms)
  show ?thesis
    using assms m by (auto simp: dispatchSearch_def Let_def split: prod.splits)
qed

lemma invariant_enterQuery:
  assumes "selectorInvariant s"
  shows "selectorInvariant (fst (enterQuery cat thisYear s qry manual common info page))"
proof -
  obtain extracted season episode year where
    e: "extractTvSeasonEpisodeFromQuery thisYear (TrimSpace qry) = (extracted, season, episode, year)"
    by (metis surj_pair)
  obtain s1 myQuery where
    c: "chooseMode (say s (PrintInfo info)) extracted season episode manual common = (s1, myQuery)"
    by (metis surj_pair)
  obtain s2 results totalPages displayQuery where
    d: "dispatchSearch cat (recallShow cat s1 myQuery season) myQuery page year
          (displayQuerySuffix year season episode) = (s2, results, totalPages, displayQuery)"
    by (metis surj_pair)
  have "selectorInvariant s1"
    using invariant_chooseMode [OF invariant_say [OF assms], of "PrintInfo info" extracted season
        episode manual common] c by simp
  then have "selectorInvariant (recallShow cat s1 myQuery season)" by (rule invariant_recallShow)
  then have "selectorInvariant s2"
    using invariant_dispatchSearch [of "recallShow cat s1 myQuery season" cat myQuery page year
        "displayQuerySuffix year season episode"] d by simp
  then show ?thesis
    by (simp add: enterQuery_def e c d Let_def invariant_say)
qed

lemma invariant_HandleQuery_promptLoop:
  "(selectorInvariant s \<longrightarrow>
      (\<forall>r s'. HandleQuery cat thisYear s input qry manual common info page = Some (r, s') \<longrightarrow>
         selectorInvariant s'))"
  "(selectorInvariant s \<longrightarrow>
      (\<forall>r s'. promptLoop cat thisYear s input qry manual common info page myQuery season results
                totalPages defaultSelection = Some (r, s') \<longrightarrow> selectorInvariant s'))"
proof (induction cat thisYear s input qry manual common info page
    and cat thisYear s input qry manual common info page myQuery season results totalPages
      defaultSelection rule: HandleQuery_promptLoop.induct)
  case (1 cat thisYear s input qry manual common info page)
  show ?case
  proof (intro impI allI)
    fix r s'
    assume inv: "selectorInvariant s"
      and res: "HandleQuery cat thisYear s input qry manual common info page = Some (r, s')"
    obtain s1 myQuery season results totalPages defaultSelection where
      e: "enterQuery cat thisYear s qry manual common info page =
            (s1, myQuery, season, results, totalPages, defaultSelection)"
      by (metis surj_pair)
    have i1: "selectorInvariant s1" using invariant_enterQuery [OF inv, of cat thisYear qry manual common info page] e by simp
    from res have "promptLoop cat thisYear s1 input qry manual common info page myQuery season
        results totalPages defaultSelection = Some (r, s')"
      by (simp add: HandleQuery.simps e)
    with 1 [OF e [symmetric] refl refl refl refl] i1 show "selectorInvariant s'" by blast
  qed
next
  case (2 cat thisYear s qry manual common info page myQuery season results totalPages defaultSelection)
  show ?case by (simp add: promptLoop.simps)
next
  case (3 cat thisYear s rawSelection input qry manual common info page myQuery season results totalPages defaultSelection)
  show ?case
  proof (intro impI allI)
    fix r s'
    assume inv: "selectorInvariant s"
      and res: "promptLoop cat thisYear s (rawSelection # input) qry manual common info page
        myQuery season results totalPages defaultSelection = Some (r, s')"
    define s0 where "s0 = say s (PrintPrompt (int (length results)) (totalPages > 1) defaultSelection)"
    define selection where "selection = TrimSpace rawSelection"
    have i0: "selectorInvariant s0" unfolding s0_def using inv by (rule invariant_say)
    note IH = 3 [OF s0_def selection_def]
    let ?loop = "\<lambda>st. promptLoop cat thisYear st input qry manual common info page myQuery
        season results totalPages defaultSelection"
    have step: "promptLoop cat thisYear s (rawSelection # input) qry manual common info page
        myQuery season results totalPages defaultSelection =
      (if selection = ''q'' then Some ((MovieMedia emptyMovie, Some Quit), s0)
       else if selection = ''s'' then Some ((MovieMedia emptyMovie, Some Skipped), s0)
       else if selection = ''p'' then
         (if page < totalPages
          then HandleQuery cat thisYear s0 input qry manual common info (page + 1)
          else HandleQuery cat thisYear s0 input qry manual common info 1)
       else if selection = ''h'' then
         ?loop (say s0 (PrintHelp (int (length results)) defaultSelection))
       else
         (case readSelection defaultSelection selection of
            NewQueryText \<Rightarrow> HandleQuery cat thisYear s0 input selection True common info 1
          | BadNumber \<Rightarrow> ?loop (say s0 PrintInvalidSelection)
          | Index iSel \<Rightarrow>
              if iSel \<ge> 1 \<and> iSel \<le> int (length results) then
                (if isTvMode s0 then
                   (if season > 0 then
                      (case setTvSeasonEpisodeMode cat s0 (GetId (results ! nat (iSel - 1)))
                              season myQuery of
                         (Some err, s1) \<Rightarrow> ?loop (say s1 (PrintInvalidTvSeasonSelection err))
                       | (None, s1) \<Rightarrow>
                           HandleQuery cat thisYear s1 input qry manual common info page)
                    else ?loop (say s0 PrintUnableToExtractSeason))
                 else Some ((results ! nat (iSel - 1), None), s0))
              else ?loop (say s0 PrintPleaseSelect)))"
      by (simp only: promptLoop.simps Let_def s0_def selection_def)
    note res' = res [unfolded step]
    show "selectorInvariant s'"
    proof (cases "selection = ''q'' \<or> selection = ''s''")
      case True
      with res' have "s' = s0" by (auto split: if_splits)
      with i0 show ?thesis by simp
    next
      case nqs: False
      then have nq: "selection \<noteq> ''q''" and ns: "selection \<noteq> ''s''" by simp_all
      show ?thesis
      proof (cases "selection = ''p''")
        case p: True
        show ?thesis
        proof (cases "page < totalPages")
          case True
          with res' nq ns p have "HandleQuery cat thisYear s0 input qry manual common info (page + 1) = Some (r, s')"
            by simp
          with IH(1) [OF nq ns p True] i0 show ?thesis by blast
        next
          case False
          with res' nq ns p have "HandleQuery cat thisYear s0 input qry manual common info 1 = Some (r, s')"
            by simp
          with IH(2) [OF nq ns p False] i0 show ?thesis by blast
        qed
      next
        case np: False
        show ?thesis
        proof (cases "selection = ''h''")
          case h: True
          with res' nq ns np have "?loop (say s0 (PrintHelp (int (length results)) defaultSelection)) = Some (r, s')"
            by simp
          with IH(3) [OF nq ns np h] invariant_say [OF i0] show ?thesis by blast
        next
          case nh: False
          from res' nq ns np nh have res'': "(case readSelection defaultSelection selection of
            NewQueryText \<Rightarrow> HandleQuery cat thisYear s0 input selection True common info 1
          | BadNumber \<Rightarrow> ?loop (say s0 PrintInvalidSelection)
          | Index iSel \<Rightarrow>
              if iSel \<ge> 1 \<and> iSel \<le> int (length results) then
                (if isTvMode s0 then
                   (if season > 0 then
                      (case setTvSeasonEpisodeMode cat s0 (GetId (results ! nat (iSel - 1)))
                              season myQuery of
                         (Some err, s1) \<Rightarrow> ?loop (say s1 (PrintInvalidTvSeasonSelection err))
                       | (None, s1) \<Rightarrow>
                           HandleQuery cat thisYear s1 input qry manual common info page)
                    else ?loop (say s0 PrintUnableToExtractSeason))
                 else Some ((results ! nat (iSel - 1), None), s0))
              else ?loop (say s0 PrintPleaseSelect)) = Some (r, s')"
            by simp
          show ?thesis
          proof (cases "readSelection defaultSelection selection")
            case NewQueryText
            with res'' have "HandleQuery cat thisYear s0 input selection True common info 1 = Some (r, s')"
              by simp
            with IH(9) [OF nq ns np nh NewQueryText] i0 show ?thesis by blast
          next
            case BadNumber
            with res'' have "?loop (say s0 PrintInvalidSelection) = Some (r, s')" by simp
            with IH(8) [OF nq ns np nh BadNumber] invariant_say [OF i0] show ?thesis by blast
          next
            case (Index iSel)
            show ?thesis
            proof (cases "iSel \<ge> 1 \<and> iSel \<le> int (length results)")
              case out: False
              with res'' Index have "?loop (say s0 PrintPleaseSelect) = Some (r, s')" by simp
              with IH(7) [OF nq ns np nh Index out] invariant_say [OF i0] show ?thesis by blast
            next
              case inr: True
              show ?thesis
              proof (cases "isTvMode s0")
                case ntv: False
                with res'' Index inr have "s' = s0" by simp
                with i0 show ?thesis by simp
              next
                case tv: True
                show ?thesis
                proof (cases "season > 0")
                  case ns0: False
                  with res'' Index inr tv have "?loop (say s0 PrintUnableToExtractSeason) = Some (r, s')"
                    by simp
                  with IH(6) [OF nq ns np nh Index inr tv ns0] invariant_say [OF i0]
                  show ?thesis by blast
                next
                  case sp: True
                  obtain err s1 where st: "setTvSeasonEpisodeMode cat s0
                      (GetId (results ! nat (iSel - 1))) season myQuery = (err, s1)"
                    by (metis surj_pair)
                  have i1: "selectorInvariant s1"
                    by (rule invariant_setTvSeasonEpisodeMode' [OF i0 st])
                  show ?thesis
                  proof (cases err)
                    case (Some e)
                    with res'' Index inr tv sp st
                    have "?loop (say s1 (PrintInvalidTvSeasonSelection e)) = Some (r, s')" by simp
                    with IH(5) [OF nq ns np nh Index inr tv sp st [symmetric] Some]
                      invariant_say [OF i1]
                    show ?thesis by blast
                  next
                    case None
                    with res'' Index inr tv sp st
                    have "HandleQuery cat thisYear s1 input qry manual common info page = Some (r, s')"
                      by simp
                    with IH(4) [OF nq ns np nh Index inr tv sp st [symmetric] None] i1
                    show ?thesis by blast
                  qed
                qed
              qed
            qed
          qed
        qed
      qed
    qed
  qed
qed

text \<open>
  C8. The invariant: outside the episode mode the show id is 0, the season number is 0
  and the stored episode list is empty; in the episode mode the stored season is the
  one fetched for the stored show id and season number. A new selector satisfies it,
  \<open>setMovieMode\<close> and \<open>setTvMode\<close> establish it, and \<open>setTvSeasonEpisodeMode\<close> (whether it
  succeeds or fails), \<open>HandleQuery\<close> and \<open>Handle\<close> (whenever they return) preserve it.
\<close>

theorem selector_invariant:
  "selectorInvariant (NewSelector db dir stops) \<and>
   selectorInvariant (setMovieMode s qry) \<and>
   selectorInvariant (setTvMode s qry) \<and>
   (selectorInvariant s \<longrightarrow>
      selectorInvariant (snd (setTvSeasonEpisodeMode cat s showId seasonNo qry)) \<and>
      (\<forall>r s'. HandleQuery cat thisYear s input qry manual common info page = Some (r, s') \<longrightarrow>
         selectorInvariant s') \<and>
      (\<forall>r s'. Handle cat thisYear s input moviePath common info = Some (r, s') \<longrightarrow>
         selectorInvariant s'))"
proof (intro conjI impI allI)
  show "selectorInvariant (NewSelector db dir stops)" by (rule invariant_NewSelector)
  show "selectorInvariant (setMovieMode s qry)" by (rule invariant_setMovieMode)
  show "selectorInvariant (setTvMode s qry)" by (rule invariant_setTvMode)
next
  assume "selectorInvariant s"
  then show "selectorInvariant (snd (setTvSeasonEpisodeMode cat s showId seasonNo qry))"
    by (rule invariant_setTvSeasonEpisodeMode)
next
  fix r s'
  assume "selectorInvariant s"
    and "HandleQuery cat thisYear s input qry manual common info page = Some (r, s')"
  then show "selectorInvariant s'" using invariant_HandleQuery_promptLoop(1) by blast
next
  fix r s'
  assume "selectorInvariant s"
    and "Handle cat thisYear s input moviePath common info = Some (r, s')"
  then show "selectorInvariant s'"
    unfolding Handle_def using invariant_HandleQuery_promptLoop(1) by blast
qed

lemma firstEpisode_run:
  "HandleQuery exampleCatalog 2026 (NewSelector 0 ''/in'' []) [''1\<newline>'', ''7\<newline>'', ''\<newline>'']
     ''show s01e03'' False [] ''1/2 show s01e03.mkv'' 1 =
   Some ((TvEpisodeMedia (exampleEpisode 1 3), None), afterFirstEpisode)"
  by code_simp

lemma afterFirstEpisode_fields:
  "mode afterFirstEpisode = tvSeasonEpisodeSelector" "tvId afterFirstEpisode = 42"
  "seasonNumber afterFirstEpisode = 1" "tvSeason afterFirstEpisode = exampleSeason 1"
  "query afterFirstEpisode = ''show''" "tvShowSelections afterFirstEpisode = [(''show'', 42)]"
  by code_simp+

theorem selector_invariant_witness:
  "selectorInvariant (NewSelector (0::nat) ''/in'' []) \<and>
   HandleQuery exampleCatalog 2026 (NewSelector 0 ''/in'' []) [''1\<newline>'', ''7\<newline>'', ''\<newline>'']
     ''show s01e03'' False [] ''1/2 show s01e03.mkv'' 1 =
     Some ((TvEpisodeMedia (exampleEpisode 1 3), None), afterFirstEpisode) \<and>
   mode afterFirstEpisode = tvSeasonEpisodeSelector \<and> tvId afterFirstEpisode = 42 \<and>
   seasonNumber afterFirstEpisode = 1 \<and> tvSeason afterFirstEpisode = exampleSeason 1 \<and>
   selectorInvariant afterFirstEpisode \<and>
   seasonFetched (trace afterFirstEpisode) 42 1 (exampleSeason 1)"
proof -
  note t = selector_invariant [where db = "0::nat" and dir = "''/in''" and stops = "[]"
      and s = "NewSelector (0::nat) ''/in'' []" and cat = exampleCatalog and thisYear = 2026
      and input = "[''1\<newline>'', ''7\<newline>'', ''\<newline>'']" and qry = "''show s01e03''" and manual = False
      and common = "[]" and info = "''1/2 show s01e03.mkv''" and page = 1]
  from t have i0: "selectorInvariant (NewSelector (0::nat) ''/in'' [])" by blast
  from t i0 firstEpisode_run have i1: "selectorInvariant afterFirstEpisode" by blast
  then have "seasonFetched (trace afterFirstEpisode) 42 1 (exampleSeason 1)"
    by (simp add: selectorInvariant_def afterFirstEpisode_fields)
  with i0 i1 firstEpisode_run afterFirstEpisode_fields show ?thesis by simp
qed

text \<open>
  The pages of the searches. \<open>Handle\<close> starts at page 1, and \<open>HandleQuery\<close> passes on its
  page, the page after it, or page 1: every search of a run asks for a page of at least 1.
\<close>

lemma pagesFromOne_append: "pagesFromOne (xs @ ys) \<longleftrightarrow> pagesFromOne xs \<and> pagesFromOne ys"
  by (induction xs rule: pagesFromOne.induct) simp_all

lemma pages_say:
  "pagesFromOne (trace s) \<Longrightarrow> pagesFromOne (trace (say s e)) \<longleftrightarrow> pagesFromOne [e]"
  by (simp add: say_def pagesFromOne_append)

lemma pages_setTvSeasonEpisodeMode:
  assumes "pagesFromOne (trace s)"
    and "setTvSeasonEpisodeMode cat s showId seasonNo qry = (err, s1)"
  shows "pagesFromOne (trace s1)"
  using assms
  by (auto simp: setTvSeasonEpisodeMode_def say_def Let_def pagesFromOne_append
      split: prod.splits option.splits)

lemma pages_chooseMode:
  "trace (fst (chooseMode s myQuery season episode manual common)) = trace s"
  by (simp add: chooseMode_def setMovieMode_def setTvMode_def Let_def)

lemma pages_recallShow:
  "pagesFromOne (trace s) \<Longrightarrow> pagesFromOne (trace (recallShow cat s myQuery season))"
  by (auto simp: recallShow_def say_def pagesFromOne_append split: option.splits prod.splits
      dest: pages_setTvSeasonEpisodeMode)

lemma pages_dispatchSearch:
  "1 \<le> page \<Longrightarrow> pagesFromOne (trace s) \<Longrightarrow>
   pagesFromOne (trace (fst (dispatchSearch cat s myQuery page year suffix)))"
  by (auto simp: dispatchSearch_def say_def Let_def pagesFromOne_append
      split: prod.splits option.splits)

lemma pages_enterQuery:
  assumes "1 \<le> page" "pagesFromOne (trace s)"
  shows "pagesFromOne (trace (fst (enterQuery cat thisYear s qry manual common info page)))"
proof -
  obtain extracted season episode year where
    e: "extractTvSeasonEpisodeFromQuery thisYear (TrimSpace qry) = (extracted, season, episode, year)"
    by (metis surj_pair)
  obtain s1 myQuery where
    c: "chooseMode (say s (PrintInfo info)) extracted season episode manual common = (s1, myQuery)"
    by (metis surj_pair)
  obtain s2 results totalPages displayQuery where
    d: "dispatchSearch cat (recallShow cat s1 myQuery season) myQuery page year
          (displayQuerySuffix year season episode) = (s2, results, totalPages, displayQuery)"
    by (metis surj_pair)
  have "trace s1 = trace (say s (PrintInfo info))"
    using pages_chooseMode [of "say s (PrintInfo info)" extracted season episode manual common] c
    by simp
  then have "pagesFromOne (trace s1)" using assms(2) by (simp add: pages_say)
  then have "pagesFromOne (trace (recallShow cat s1 myQuery season))" by (rule pages_recallShow)
  then have "pagesFromOne (trace s2)"
    using pages_dispatchSearch [OF assms(1), of "recallShow cat s1 myQuery season" cat myQuery year
        "displayQuerySuffix year season episode"] d by simp
  then show ?thesis
    by (simp add: enterQuery_def e c d Let_def pages_say)
qed

lemma pages_HandleQuery_promptLoop:
  "(1 \<le> page \<and> pagesFromOne (trace s) \<longrightarrow>
      (\<forall>r s'. HandleQuery cat thisYear s input qry manual common info page = Some (r, s') \<longrightarrow>
         pagesFromOne (trace s')))"
  "(1 \<le> page \<and> pagesFromOne (trace s) \<longrightarrow>
      (\<forall>r s'. promptLoop cat thisYear s input qry manual common info page myQuery season results
                totalPages defaultSelection = Some (r, s') \<longrightarrow> pagesFromOne (trace s')))"
proof (induction cat thisYear s input qry manual common info page
    and cat thisYear s input qry manual common info page myQuery season results totalPages
      defaultSelection rule: HandleQuery_promptLoop.induct)
  case (1 cat thisYear s input qry manual common info page)
  show ?case
  proof (intro impI allI)
    fix r s'
    assume inv': "1 \<le> page \<and> pagesFromOne (trace s)"
      and res: "HandleQuery cat thisYear s input qry manual common info page = Some (r, s')"
    obtain s1 myQuery season results totalPages defaultSelection where
      e: "enterQuery cat thisYear s qry manual common info page =
            (s1, myQuery, season, results, totalPages, defaultSelection)"
      by (metis surj_pair)
    have i1: "pagesFromOne (trace s1)"
      using pages_enterQuery [of page s cat thisYear qry manual common info] inv' e by simp
    from res have "promptLoop cat thisYear s1 input qry manual common info page myQuery season
        results totalPages defaultSelection = Some (r, s')"
      by (simp add: HandleQuery.simps e)
    with 1 [OF e [symmetric] refl refl refl refl] i1 inv' show "pagesFromOne (trace s')" by blast
  qed
next
  case (2 cat thisYear s qry manual common info page myQuery season results totalPages defaultSelection)
  show ?case by (simp add: promptLoop.simps)
next
  case (3 cat thisYear s rawSelection input qry manual common info page myQuery season results totalPages defaultSelection)
  show ?case
  proof (intro impI allI)
    fix r s'
    assume inv': "1 \<le> page \<and> pagesFromOne (trace s)"
      and res: "promptLoop cat thisYear s (rawSelection # input) qry manual common info page
        myQuery season results totalPages defaultSelection = Some (r, s')"
    define s0 where "s0 = say s (PrintPrompt (int (length results)) (totalPages > 1) defaultSelection)"
    define selection where "selection = TrimSpace rawSelection"
    from inv' have pg: "1 \<le> page" "1 \<le> page + 1" "(1::int) \<le> 1" by simp_all
    have i0: "pagesFromOne (trace s0)" unfolding s0_def using inv' by (simp add: pages_say)
    note IH = 3 [OF s0_def selection_def]
    let ?loop = "\<lambda>st. promptLoop cat thisYear st input qry manual common info page myQuery
        season results totalPages defaultSelection"
    have step: "promptLoop cat thisYear s (rawSelection # input) qry manual common info page
        myQuery season results totalPages defaultSelection =
      (if selection = ''q'' then Some ((MovieMedia emptyMovie, Some Quit), s0)
       else if selection = ''s'' then Some ((MovieMedia emptyMovie, Some Skipped), s0)
       else if selection = ''p'' then
         (if page < totalPages
          then HandleQuery cat thisYear s0 input qry manual common info (page + 1)
          else HandleQuery cat thisYear s0 input qry manual common info 1)
       else if selection = ''h'' then
         ?loop (say s0 (PrintHelp (int (length results)) defaultSelection))
       else
         (case readSelection defaultSelection selection of
            NewQueryText \<Rightarrow> HandleQuery cat thisYear s0 input selection True common info 1
          | BadNumber \<Rightarrow> ?loop (say s0 PrintInvalidSelection)
          | Index iSel \<Rightarrow>
              if iSel \<ge> 1 \<and> iSel \<le> int (length results) then
                (if isTvMode s0 then
                   (if season > 0 then
                      (case setTvSeasonEpisodeMode cat s0 (GetId (results ! nat (iSel - 1)))
                              season myQuery of
                         (Some err, s1) \<Rightarrow> ?loop (say s1 (PrintInvalidTvSeasonSelection err))
                       | (None, s1) \<Rightarrow>
                           HandleQuery cat thisYear s1 input qry manual common info page)
                    else ?loop (say s0 PrintUnableToExtractSeason))
                 else Some ((results ! nat (iSel - 1), None), s0))
              else ?loop (say s0 PrintPleaseSelect)))"
      by (simp only: promptLoop.simps Let_def s0_def selection_def)
    note res' = res [unfolded step]
    show "pagesFromOne (trace s')"
    proof (cases "selection = ''q'' \<or> selection = ''s''")
      case True
      with res' have "s' = s0" by (auto split: if_splits)
      with i0 show ?thesis by simp
    next
      case nqs: False
      then have nq: "selection \<noteq> ''q''" and ns: "selection \<noteq> ''s''" by simp_all
      show ?thesis
      proof (cases "selection = ''p''")
        case p: True
        show ?thesis
        proof (cases "page < totalPages")
          case True
          with res' nq ns p have "HandleQuery cat thisYear s0 input qry manual common info (page + 1) = Some (r, s')"
            by simp
          with IH(1) [OF nq ns p True] i0 pg show ?thesis by blast
        next
          case False
          with res' nq ns p have "HandleQuery cat thisYear s0 input qry manual common info 1 = Some (r, s')"
            by simp
          with IH(2) [OF nq ns p False] i0 pg show ?thesis by blast
        qed
      next
        case np: False
        show ?thesis
        proof (cases "selection = ''h''")
          case h: True
          with res' nq ns np have "?loop (say s0 (PrintHelp (int (length results)) defaultSelection)) = Some (r, s')"
            by simp
          with IH(3) [OF nq ns np h] pages_say [OF i0] pg show ?thesis by simp
        next
          case nh: False
          from res' nq ns np nh have res'': "(case readSelection defaultSelection selection of
            NewQueryText \<Rightarrow> HandleQuery cat thisYear s0 input selection True common info 1
          | BadNumber \<Rightarrow> ?loop (say s0 PrintInvalidSelection)
          | Index iSel \<Rightarrow>
              if iSel \<ge> 1 \<and> iSel \<le> int (length results) then
                (if isTvMode s0 then
                   (if season > 0 then
                      (case setTvSeasonEpisodeMode cat s0 (GetId (results ! nat (iSel - 1)))
                              season myQuery of
                         (Some err, s1) \<Rightarrow> ?loop (say s1 (PrintInvalidTvSeasonSelection err))
                       | (None, s1) \<Rightarrow>
                           HandleQuery cat thisYear s1 input qry manual common info page)
                    else ?loop (say s0 PrintUnableToExtractSeason))
                 else Some ((results ! nat (iSel - 1), None), s0))
              else ?loop (say s0 PrintPleaseSelect)) = Some (r, s')"
            by simp
          show ?thesis
          proof (cases "readSelection defaultSelection selection")
            case NewQueryText
            with res'' have "HandleQuery cat thisYear s0 input selection True common info 1 = Some (r, s')"
              by simp
            with IH(9) [OF nq ns np nh NewQueryText] i0 pg show ?thesis by blast
          next
            case BadNumber
            with res'' have "?loop (say s0 PrintInvalidSelection) = Some (r, s')" by simp
            with IH(8) [OF nq ns np nh BadNumber] pages_say [OF i0] pg show ?thesis by simp
          next
            case (Index iSel)
            show ?thesis
            proof (cases "iSel \<ge> 1 \<and> iSel \<le> int (length results)")
              case out: False
              with res'' Index have "?loop (say s0 PrintPleaseSelect) = Some (r, s')" by simp
              with IH(7) [OF nq ns np nh Index out] pages_say [OF i0] pg show ?thesis by simp
            next
              case inr: True
              show ?thesis
              proof (cases "isTvMode s0")
                case ntv: False
                with res'' Index inr have "s' = s0" by simp
                with i0 show ?thesis by simp
              next
                case tv: True
                show ?thesis
                proof (cases "season > 0")
                  case ns0: False
                  with res'' Index inr tv have "?loop (say s0 PrintUnableToExtractSeason) = Some (r, s')"
                    by simp
                  with IH(6) [OF nq ns np nh Index inr tv ns0] pages_say [OF i0] pg
                  show ?thesis by simp
                next
                  case sp: True
                  obtain err s1 where st: "setTvSeasonEpisodeMode cat s0
                      (GetId (results ! nat (iSel - 1))) season myQuery = (err, s1)"
                    by (metis surj_pair)
                  have i1: "pagesFromOne (trace s1)"
                    by (rule pages_setTvSeasonEpisodeMode [OF i0 st])
                  show ?thesis
                  proof (cases err)
                    case (Some e)
                    with res'' Index inr tv sp st
                    have "?loop (say s1 (PrintInvalidTvSeasonSelection e)) = Some (r, s')" by simp
                    with IH(5) [OF nq ns np nh Index inr tv sp st [symmetric] Some]
                      pages_say [OF i1] pg
                    show ?thesis by simp
                  next
                    case None
                    with res'' Index inr tv sp st
                    have "HandleQuery cat thisYear s1 input qry manual common info page = Some (r, s')"
                      by simp
                    with IH(4) [OF nq ns np nh Index inr tv sp st [symmetric] None] i1 pg
                    show ?thesis by blast
                  qed
                qed
              qed
            qed
          qed
        qed
      qed
    qed
  qed
qed

lemma pages_Handle:
  assumes "pagesFromOne (trace s)"
    and "Handle cat thisYear s input moviePath common info = Some (r, s')"
  shows "pagesFromOne (trace s')"
proof -
  have "1 \<le> (1::int) \<and> pagesFromOne (trace s)" using assms(1) by simp
  with pages_HandleQuery_promptLoop(1) [where page = 1 and s = s] assms(2) show ?thesis
    unfolding Handle_def by blast
qed

text \<open>The short cut when both fetches succeed, and the search in the episode mode.\<close>

lemma recallShow_success:
  assumes tvmode: "isTvMode s"
    and known: "map_of (tvShowSelections s) myQuery = Some showId"
    and show_ok: "getShow cat (movieDb s) showId = ((tv, None), db1)"
    and season_ok: "getSeason cat db1 tv season = ((fetched, None), db2)"
  shows "recallShow cat s myQuery season =
     s\<lparr>movieDb := db2,
       trace := trace s @ [GetTvCall showId (tv, None), GetTvSeasonCall tv season (fetched, None)],
       mode := tvSeasonEpisodeSelector, tvId := showId, seasonNumber := season,
       tvSeason := fetched, query := myQuery,
       tvShowSelections := AList.update myQuery showId (tvShowSelections s)\<rparr>"
  using assms by (simp add: recallShow_def setTvSeasonEpisodeMode_def say_def Let_def)

lemma dispatchSearch_episodes:
  "isTvSeasonEpisodeMode s \<Longrightarrow>
   dispatchSearch cat s myQuery page year suffix =
     (s, TvSeason_MediaResults (tvSeason s), 1, TvSeason_TvName (tvSeason s) @ suffix)"
  by (simp add: dispatchSearch_def isTvSeasonEpisodeMode_def isMovieMode_def isTvMode_def)

text \<open>
  C5, as stated, fails when the fetch fails. After \<open>show s01e03\<close> the query \<open>show\<close> is
  remembered for show 42. For \<open>show s03e04\<close> the selector is in the show mode and the
  query is a key of the map, but the catalog has no season 3: the error is printed, the
  selector stays in the show mode and the show search is issued.
\<close>

theorem remembered_show_counterexample:
  "HandleQuery exampleCatalog 2026 afterFirstEpisode [''q\<newline>''] ''show s03e04'' False []
     ''2/2 show s03e04.mkv'' 1 = Some ((MovieMedia emptyMovie, Some Quit), afterMissingSeason) \<and>
   isTvMode (fst (chooseMode (say afterFirstEpisode (PrintInfo ''2/2 show s03e04.mkv''))
     ''show'' 3 4 False [])) \<and>
   map_of (tvShowSelections afterFirstEpisode) ''show'' = Some 42 \<and>
   mode afterMissingSeason = tvSelector \<and>
   drop (length (trace afterFirstEpisode)) (trace afterMissingSeason) =
     [PrintInfo ''2/2 show s03e04.mkv'', GetTvCall 42 (exampleTv, None),
      GetTvSeasonCall exampleTv 3 (emptyTvSeason, Some notFound),
      PrintErrorSelectingTvShow notFound,
      SearchTvCall ''show'' 1 0
        (\<lparr>SearchTv_Page = 1, SearchTv_Results = [exampleTv], SearchTv_TotalResults = 1,
          SearchTv_TotalPages = 1\<rparr>, None),
      PrintQueryHeader ''Tv show'' 1 1 ''show (season: 3, episode: 4)'',
      PrintMediaOptions [TvMedia exampleTv], PrintPrompt 1 False 1]"
  by code_simp

text \<open>
  C5, amended. When, after the choice of the mode, the selector is in the show mode, the
  query is a key of \<open>tvShowSelections\<close>, and the remembered show and the extracted
  season are fetched without error, \<open>HandleQuery\<close> reaches its prompt in the episode mode
  bound to that show id and season, with the fetched episodes as the candidates on one
  page; between the info line and the header it has made the two fetches and no show
  search.
\<close>

theorem remembered_show_short_cut:
  assumes hints: "extractTvSeasonEpisodeFromQuery thisYear (TrimSpace qry) =
        (extracted, season, episode, year)"
    and chosen: "chooseMode (say s (PrintInfo info)) extracted season episode manual common =
        (s1, myQuery)"
    and tvmode: "isTvMode s1"
    and known: "map_of (tvShowSelections s1) myQuery = Some showId"
    and show_ok: "getShow cat (movieDb s1) showId = ((tv, None), db1)"
    and season_ok: "getSeason cat db1 tv season = ((fetched, None), db2)"
    and entered: "enterQuery cat thisYear s qry manual common info page =
        (s', myQuery', season', results, totalPages, defaultSelection)"
  shows "mode s' = tvSeasonEpisodeSelector \<and> tvId s' = showId \<and> seasonNumber s' = season \<and>
     tvSeason s' = fetched \<and> results = map TvEpisodeMedia (TvSeason_Episodes fetched) \<and>
     totalPages = 1 \<and>
     trace s' = trace s @
       [PrintInfo info, GetTvCall showId (tv, None), GetTvSeasonCall tv season (fetched, None),
        PrintQueryHeader ''Episode'' page 1
          (TvSeason_TvName fetched @ displayQuerySuffix year season episode)] @
       (if TvSeason_Episodes fetched = [] then [PrintNoResults] else []) @
       [PrintMediaOptions (map TvEpisodeMedia (TvSeason_Episodes fetched))]"
proof -
  have tr1: "trace s1 = trace s @ [PrintInfo info]"
    using chosen
    by (auto simp: chooseMode_def setMovieMode_def setTvMode_def say_def Let_def split: if_splits)
  note r = recallShow_success [OF tvmode known show_ok season_ok]
  have ep: "isTvSeasonEpisodeMode (recallShow cat s1 myQuery season)"
    by (simp add: r isTvSeasonEpisodeMode_def)
  note d = dispatchSearch_episodes [OF ep]
  let ?r = "recallShow cat s1 myQuery season"
  let ?h = "say ?r (PrintQueryHeader (modeName ?r) page 1
      (TvSeason_TvName (tvSeason ?r) @ displayQuerySuffix year season episode))"
  let ?n = "if length (TvSeason_MediaResults (tvSeason ?r)) = 0 then say ?h PrintNoResults else ?h"
  have "enterQuery cat thisYear s qry manual common info page =
      (say ?n (PrintMediaOptions (TvSeason_MediaResults (tvSeason ?r))), myQuery, season,
       TvSeason_MediaResults (tvSeason ?r), 1,
       defaultSelectionOf ?n episode (length (TvSeason_MediaResults (tvSeason ?r))))"
    by (simp add: enterQuery_def hints chosen d Let_def)
  with entered have s': "s' = say ?n (PrintMediaOptions (TvSeason_MediaResults (tvSeason ?r)))"
    and res: "results = TvSeason_MediaResults (tvSeason ?r)" and tp: "totalPages = 1"
    by (auto simp only: prod.inject)
  have f: "tvSeason ?r = fetched" "mode ?r = tvSeasonEpisodeSelector" "tvId ?r = showId"
    "seasonNumber ?r = season"
    "trace ?r = trace s @ [PrintInfo info, GetTvCall showId (tv, None),
       GetTvSeasonCall tv season (fetched, None)]"
    by (simp_all add: r tr1)
  show ?thesis
    unfolding s' res tp
    by (simp add: f say_def modeName_def TvSeason_MediaResults_def)
qed

theorem remembered_show_short_cut_witness:
  "extractTvSeasonEpisodeFromQuery 2026 (TrimSpace ''show s02e04'') = (''show'', 2, 4, 0) \<and>
   isTvMode (fst (chooseMode (say afterFirstEpisode (PrintInfo ''2/2 show s02e04.mkv''))
     ''show'' 2 4 False [])) \<and>
   map_of (tvShowSelections afterFirstEpisode) ''show'' = Some 42 \<and>
   getShow exampleCatalog (movieDb afterFirstEpisode) 42 = ((exampleTv, None), 4) \<and>
   getSeason exampleCatalog 4 exampleTv 2 = ((exampleSeason 2, None), 5) \<and>
   mode enteredSecondSeason = tvSeasonEpisodeSelector \<and> tvId enteredSecondSeason = 42 \<and>
   seasonNumber enteredSecondSeason = 2 \<and> tvSeason enteredSecondSeason = exampleSeason 2 \<and>
   trace enteredSecondSeason = trace afterFirstEpisode @
     [PrintInfo ''2/2 show s02e04.mkv'', GetTvCall 42 (exampleTv, None),
      GetTvSeasonCall exampleTv 2 (exampleSeason 2, None),
      PrintQueryHeader ''Episode'' 1 1 ''Show (season: 2, episode: 4)'',
      PrintMediaOptions (map TvEpisodeMedia (TvSeason_Episodes (exampleSeason 2)))]"
proof -
  define s1 where "s1 = fst (chooseMode (say afterFirstEpisode (PrintInfo ''2/2 show s02e04.mkv''))
     ''show'' 2 4 False [])"
  have hints: "extractTvSeasonEpisodeFromQuery 2026 (TrimSpace ''show s02e04'') = (''show'', 2, 4, 0)"
    by code_simp
  have chosen: "chooseMode (say afterFirstEpisode (PrintInfo ''2/2 show s02e04.mkv''))
     ''show'' 2 4 False [] = (s1, ''show'')"
    unfolding s1_def by code_simp
  have tvmode: "isTvMode s1" unfolding s1_def by code_simp
  have known: "map_of (tvShowSelections s1) ''show'' = Some 42" unfolding s1_def by code_simp
  have known': "map_of (tvShowSelections afterFirstEpisode) ''show'' = Some 42" by code_simp
  have show_ok: "getShow exampleCatalog (movieDb s1) 42 = ((exampleTv, None), 4)"
    unfolding s1_def by code_simp
  have show_ok': "getShow exampleCatalog (movieDb afterFirstEpisode) 42 = ((exampleTv, None), 4)"
    by code_simp
  have season_ok: "getSeason exampleCatalog 4 exampleTv 2 = ((exampleSeason 2, None), 5)"
    by code_simp
  obtain q' n' rs tp d where entered: "enterQuery exampleCatalog 2026 afterFirstEpisode
      ''show s02e04'' False [] ''2/2 show s02e04.mkv'' 1 = (enteredSecondSeason, q', n', rs, tp, d)"
    unfolding enteredSecondSeason_def by (metis prod.collapse)
  have sfx: "TvSeason_TvName (exampleSeason 2) @ displayQuerySuffix 0 2 4 =
      ''Show (season: 2, episode: 4)''" "TvSeason_Episodes (exampleSeason 2) \<noteq> []"
    by code_simp+
  from remembered_show_short_cut [OF hints chosen tvmode known show_ok season_ok entered]
  have "mode enteredSecondSeason = tvSeasonEpisodeSelector \<and> tvId enteredSecondSeason = 42 \<and>
   seasonNumber enteredSecondSeason = 2 \<and> tvSeason enteredSecondSeason = exampleSeason 2 \<and>
   trace enteredSecondSeason = trace afterFirstEpisode @
     [PrintInfo ''2/2 show s02e04.mkv'', GetTvCall 42 (exampleTv, None),
      GetTvSeasonCall exampleTv 2 (exampleSeason 2, None),
      PrintQueryHeader ''Episode'' 1 1 ''Show (season: 2, episode: 4)'',
      PrintMediaOptions (map TvEpisodeMedia (TvSeason_Episodes (exampleSeason 2)))]"
    by (simp add: sfx)
  with hints tvmode known' show_ok' season_ok show ?thesis unfolding s1_def by simp
qed

text \<open>Digits are none of the four commands.\<close>

lemma intReg_not_command:
  "intReg sel \<Longrightarrow> sel \<noteq> ''q'' \<and> sel \<noteq> ''s'' \<and> sel \<noteq> ''p'' \<and> sel \<noteq> ''h'' \<and> sel \<noteq> []"
  by (auto simp: intReg_def isDigit_def)

text \<open>
  One round of the loop: for a line that is empty after trimming, for digits that are
  out of range, and for \<open>p\<close>.
\<close>

lemma promptLoop_empty_line:
  assumes "TrimSpace raw = []" "intReg (TrimSpace raw')" "Atoi (TrimSpace raw') = (d, False)"
  shows "promptLoop cat thisYear s (raw # input) qry manual common info page myQuery season results
        totalPages d =
      promptLoop cat thisYear s (raw' # input) qry manual common info page myQuery season results
        totalPages d"
  using assms intReg_not_command [of "TrimSpace raw'"]
  by (simp add: promptLoop.simps Let_def readSelection_def)

lemma promptLoop_default:
  assumes "TrimSpace raw = []" "1 \<le> d" "d \<le> int (length results)" "\<not> isTvMode s"
  shows "promptLoop cat thisYear s (raw # input) qry manual common info page myQuery season results
        totalPages d =
      Some ((results ! nat (d - 1), None),
            say s (PrintPrompt (int (length results)) (totalPages > 1) d))"
  using assms by (simp add: promptLoop.simps Let_def readSelection_def isTvMode_def say_def)

lemma promptLoop_out_of_range:
  assumes a: "intReg (TrimSpace raw)" "Atoi (TrimSpace raw) = (k, overflow)"
    "overflow \<or> k < 1 \<or> int (length results) < k"
  shows "promptLoop cat thisYear s (raw # input) qry manual common info page myQuery season results
        totalPages d =
      promptLoop cat thisYear
        (say (say s (PrintPrompt (int (length results)) (totalPages > 1) d))
           (if overflow then PrintInvalidSelection else PrintPleaseSelect))
        input qry manual common info page myQuery season results totalPages d"
proof -
  have n: "TrimSpace raw \<noteq> ''q''" "TrimSpace raw \<noteq> ''s''" "TrimSpace raw \<noteq> ''p''"
    "TrimSpace raw \<noteq> ''h''" "TrimSpace raw \<noteq> []"
    using a(1) intReg_not_command by blast+
  have r: "readSelection d (TrimSpace raw) = (if overflow then BadNumber else Index k)"
    using a n by (simp add: readSelection_def)
  show ?thesis
  proof (cases overflow)
    case True
    then show ?thesis using n r by (simp add: promptLoop.simps Let_def)
  next
    case False
    with a have c: "(1 \<le> k \<and> k \<le> int (length results)) = False" by auto
    show ?thesis using False n r by (simp add: promptLoop.simps Let_def c)
  qed
qed

lemma promptLoop_next_page:
  assumes "TrimSpace raw = ''p''"
  shows "promptLoop cat thisYear s (raw # input) qry manual common info page myQuery season results
        totalPages d =
      HandleQuery cat thisYear (say s (PrintPrompt (int (length results)) (totalPages > 1) d))
        input qry manual common info (if page < totalPages then page + 1 else 1)"
  using assms by (simp add: promptLoop.simps Let_def)

text \<open>
  C6. \<open>HandleQuery\<close> enters its loop with the default index: the episode extracted from
  the query when the selector is then in the episode mode and the episode lies in
  \<open>[1, candidateCount]\<close>, and 1 otherwise, so always 1 in the other modes. A line that is
  empty after trimming is read as the default index: it does what the digits of the
  default index do and, outside the show mode and with candidates, it returns that
  candidate. Digits that are out of range (or too large for \<open>strconv.Atoi\<close>) print an
  error and the loop reads the next line, with the same candidates and the same
  default. \<open>p\<close> runs the query again on the next page, or on page 1 from the last page.
\<close>

theorem prompt_loop_commands:
  assumes hints: "extractTvSeasonEpisodeFromQuery thisYear (TrimSpace qry) =
        (extracted, season, episode, year)"
    and entered: "enterQuery cat thisYear s qry manual common info page =
        (s1, myQuery, season', results, totalPages, d)"
  shows "d = (if mode s1 = tvSeasonEpisodeSelector \<and> 1 \<le> episode \<and>
                 episode \<le> int (length results) then episode else 1) \<and>
   (TrimSpace raw = [] \<and> intReg (TrimSpace raw') \<and> Atoi (TrimSpace raw') = (d, False) \<longrightarrow>
      HandleQuery cat thisYear s (raw # input) qry manual common info page =
      HandleQuery cat thisYear s (raw' # input) qry manual common info page) \<and>
   (TrimSpace raw = [] \<and> results \<noteq> [] \<and> \<not> isTvMode s1 \<longrightarrow>
      HandleQuery cat thisYear s (raw # input) qry manual common info page =
      Some ((results ! nat (d - 1), None),
            say s1 (PrintPrompt (int (length results)) (totalPages > 1) d))) \<and>
   (intReg (TrimSpace raw) \<and> Atoi (TrimSpace raw) = (k, overflow) \<and>
    (overflow \<or> k < 1 \<or> int (length results) < k) \<longrightarrow>
      HandleQuery cat thisYear s (raw # input) qry manual common info page =
      promptLoop cat thisYear
        (say (say s1 (PrintPrompt (int (length results)) (totalPages > 1) d))
           (if overflow then PrintInvalidSelection else PrintPleaseSelect))
        input qry manual common info page myQuery season results totalPages d) \<and>
   (TrimSpace raw = ''p'' \<longrightarrow>
      HandleQuery cat thisYear s (raw # input) qry manual common info page =
      HandleQuery cat thisYear (say s1 (PrintPrompt (int (length results)) (totalPages > 1) d))
        input qry manual common info (if page < totalPages then page + 1 else 1))"
proof -
  have dflt: "d = (if mode s1 = tvSeasonEpisodeSelector \<and> 1 \<le> episode \<and>
                 episode \<le> int (length results) then episode else 1)"
    "season' = season"
    using entered
    by (auto simp: enterQuery_def hints Let_def defaultSelectionOf_def isTvSeasonEpisodeMode_def
        say_def split: prod.splits if_splits)
  have hq: "HandleQuery cat thisYear s lines qry manual common info page =
      promptLoop cat thisYear s1 lines qry manual common info page myQuery season results
        totalPages d" for lines
    by (simp add: HandleQuery.simps entered dflt(2))
  have range: "1 \<le> d \<and> d \<le> int (length results)" if "results \<noteq> []"
    using that dflt(1) by (cases results) auto
  show ?thesis
  proof (intro conjI impI)
    show "d = (if mode s1 = tvSeasonEpisodeSelector \<and> 1 \<le> episode \<and>
                 episode \<le> int (length results) then episode else 1)"
      by (rule dflt(1))
  next
    assume "TrimSpace raw = [] \<and> intReg (TrimSpace raw') \<and> Atoi (TrimSpace raw') = (d, False)"
    then show "HandleQuery cat thisYear s (raw # input) qry manual common info page =
      HandleQuery cat thisYear s (raw' # input) qry manual common info page"
      unfolding hq using promptLoop_empty_line by blast
  next
    assume "TrimSpace raw = [] \<and> results \<noteq> [] \<and> \<not> isTvMode s1"
    then show "HandleQuery cat thisYear s (raw # input) qry manual common info page =
      Some ((results ! nat (d - 1), None),
            say s1 (PrintPrompt (int (length results)) (totalPages > 1) d))"
      unfolding hq using promptLoop_default range by blast
  next
    assume "intReg (TrimSpace raw) \<and> Atoi (TrimSpace raw) = (k, overflow) \<and>
      (overflow \<or> k < 1 \<or> int (length results) < k)"
    then show "HandleQuery cat thisYear s (raw # input) qry manual common info page =
      promptLoop cat thisYear
        (say (say s1 (PrintPrompt (int (length results)) (totalPages > 1) d))
           (if overflow then PrintInvalidSelection else PrintPleaseSelect))
        input qry manual common info page myQuery season results totalPages d"
      unfolding hq using promptLoop_out_of_range by blast
  next
    assume "TrimSpace raw = ''p''"
    then show "HandleQuery cat thisYear s (raw # input) qry manual common info page =
      HandleQuery cat thisYear (say s1 (PrintPrompt (int (length results)) (totalPages > 1) d))
        input qry manual common info (if page < totalPages then page + 1 else 1)"
      unfolding hq by (rule promptLoop_next_page)
  qed
qed

theorem prompt_loop_commands_witness:
  "extractTvSeasonEpisodeFromQuery 2026 (TrimSpace ''show s01e03'') = (''show'', 1, 3, 0) \<and>
   enterQuery exampleCatalog 2026 afterFirstEpisode ''show s01e03'' False [] ''1/2 show s01e03.mkv'' 1 =
     (episodePrompt, ''show'', 1, fiveEpisodes, 1, 3) \<and>
   mode episodePrompt = tvSeasonEpisodeSelector \<and> length fiveEpisodes = 5 \<and>
   TrimSpace ''\<newline>'' = [] \<and> TrimSpace (noBreakSpace @ ''\<newline>'') = [] \<and>
   TrimSpace ''3\<newline>'' = ''3'' \<and> TrimSpace ''7\<newline>'' = ''7'' \<and>
   TrimSpace ''p\<newline>'' = ''p'' \<and>
   HandleQuery exampleCatalog 2026 afterFirstEpisode [''\<newline>''] ''show s01e03'' False []
     ''1/2 show s01e03.mkv'' 1 =
     Some ((TvEpisodeMedia (exampleEpisode 1 3), None), say episodePrompt (PrintPrompt 5 False 3)) \<and>
   HandleQuery exampleCatalog 2026 afterFirstEpisode [noBreakSpace @ ''\<newline>''] ''show s01e03''
     False [] ''1/2 show s01e03.mkv'' 1 =
     HandleQuery exampleCatalog 2026 afterFirstEpisode [''3\<newline>''] ''show s01e03''
       False [] ''1/2 show s01e03.mkv'' 1 \<and>
   HandleQuery exampleCatalog 2026 afterFirstEpisode [''7\<newline>'', ''\<newline>''] ''show s01e03''
     False [] ''1/2 show s01e03.mkv'' 1 =
     promptLoop exampleCatalog 2026
       (say (say episodePrompt (PrintPrompt 5 False 3)) PrintPleaseSelect)
       [''\<newline>''] ''show s01e03'' False [] ''1/2 show s01e03.mkv'' 1 ''show'' 1 fiveEpisodes 1 3 \<and>
   HandleQuery exampleCatalog 2026 afterFirstEpisode [''7\<newline>'', ''\<newline>''] ''show s01e03''
     False [] ''1/2 show s01e03.mkv'' 1 =
     Some ((TvEpisodeMedia (exampleEpisode 1 3), None),
           say (say (say episodePrompt (PrintPrompt 5 False 3)) PrintPleaseSelect)
             (PrintPrompt 5 False 3)) \<and>
   snd (snd (snd (snd (snd (enterQuery exampleCatalog 2026 afterFirstEpisode ''show s01e09'' False []
     ''1/2 show s01e09.mkv'' 1))))) = 1 \<and>
   enterQuery exampleCatalog 2026 (NewSelector 0 ''/in'' []) ''movie'' False [] ''1/1 movie.mkv'' 1 =
     (moviePrompt, ''movie'', 0, twoMovies 1, 2, 1) \<and>
   HandleQuery exampleCatalog 2026 (NewSelector 0 ''/in'' [])
     [''p\<newline>'', ''p\<newline>'', ''q\<newline>''] ''movie'' False [] ''1/1 movie.mkv'' 1 =
     HandleQuery exampleCatalog 2026 (say moviePrompt (PrintPrompt 2 True 1))
       [''p\<newline>'', ''q\<newline>''] ''movie'' False [] ''1/1 movie.mkv'' 2 \<and>
   HandleQuery exampleCatalog 2026 (say moviePrompt (PrintPrompt 2 True 1))
     [''p\<newline>'', ''q\<newline>''] ''movie'' False [] ''1/1 movie.mkv'' 2 =
     HandleQuery exampleCatalog 2026 (say moviePromptSecondPage (PrintPrompt 2 True 1))
       [''q\<newline>''] ''movie'' False [] ''1/1 movie.mkv'' 1 \<and>
   searchedPages (trace (snd (the (HandleQuery exampleCatalog 2026 (NewSelector 0 ''/in'' [])
     [''p\<newline>'', ''p\<newline>'', ''q\<newline>''] ''movie'' False [] ''1/1 movie.mkv'' 1)))) =
     [1, 2, 1]"
proof -
  have hints: "extractTvSeasonEpisodeFromQuery 2026 (TrimSpace ''show s01e03'') = (''show'', 1, 3, 0)"
    by code_simp
  have entered: "enterQuery exampleCatalog 2026 afterFirstEpisode ''show s01e03'' False []
      ''1/2 show s01e03.mkv'' 1 = (episodePrompt, ''show'', 1, fiveEpisodes, 1, 3)"
    by code_simp
  have m: "mode episodePrompt = tvSeasonEpisodeSelector" "length fiveEpisodes = 5"
    "\<not> isTvMode episodePrompt" "fiveEpisodes \<noteq> []"
    by code_simp+
  have e3: "fiveEpisodes ! nat (3 - 1) = TvEpisodeMedia (exampleEpisode 1 3)" by code_simp
  have tr: "TrimSpace ''\<newline>'' = []" "TrimSpace (noBreakSpace @ ''\<newline>'') = []"
    "TrimSpace ''3\<newline>'' = ''3''" "TrimSpace ''7\<newline>'' = ''7''"
    "TrimSpace ''p\<newline>'' = ''p''"
    by code_simp+
  have dg: "intReg ''3''" "Atoi ''3'' = (3, False)" "intReg ''7''" "Atoi ''7'' = (7, False)"
    by code_simp+
  note t = prompt_loop_commands [OF hints entered]
  have r1: "HandleQuery exampleCatalog 2026 afterFirstEpisode [''\<newline>''] ''show s01e03'' False []
     ''1/2 show s01e03.mkv'' 1 =
     Some ((TvEpisodeMedia (exampleEpisode 1 3), None), say episodePrompt (PrintPrompt 5 False 3))"
    using t [where raw = "''\<newline>''" and input = "[]"] m tr e3 by simp
  have r2: "HandleQuery exampleCatalog 2026 afterFirstEpisode [noBreakSpace @ ''\<newline>''] ''show s01e03''
     False [] ''1/2 show s01e03.mkv'' 1 =
     HandleQuery exampleCatalog 2026 afterFirstEpisode [''3\<newline>''] ''show s01e03''
       False [] ''1/2 show s01e03.mkv'' 1"
    using t [where raw = "noBreakSpace @ ''\<newline>''" and raw' = "''3\<newline>''" and input = "[]"]
      tr dg by simp
  have r3: "HandleQuery exampleCatalog 2026 afterFirstEpisode [''7\<newline>'', ''\<newline>''] ''show s01e03''
     False [] ''1/2 show s01e03.mkv'' 1 =
     promptLoop exampleCatalog 2026
       (say (say episodePrompt (PrintPrompt 5 False 3)) PrintPleaseSelect)
       [''\<newline>''] ''show s01e03'' False [] ''1/2 show s01e03.mkv'' 1 ''show'' 1 fiveEpisodes 1 3"
    using t [where raw = "''7\<newline>''" and k = 7 and overflow = False and input = "[''\<newline>'']"]
      m tr dg by simp
  have r4: "HandleQuery exampleCatalog 2026 afterFirstEpisode [''7\<newline>'', ''\<newline>''] ''show s01e03''
     False [] ''1/2 show s01e03.mkv'' 1 =
     Some ((TvEpisodeMedia (exampleEpisode 1 3), None),
           say (say (say episodePrompt (PrintPrompt 5 False 3)) PrintPleaseSelect)
             (PrintPrompt 5 False 3))"
    unfolding r3 using promptLoop_default [where raw = "''\<newline>''" and d = 3
        and results = fiveEpisodes and s = "say (say episodePrompt (PrintPrompt 5 False 3)) PrintPleaseSelect"]
      m tr e3 by (simp add: isTvMode_def say_def)
  have d9: "snd (snd (snd (snd (snd (enterQuery exampleCatalog 2026 afterFirstEpisode ''show s01e09''
      False [] ''1/2 show s01e09.mkv'' 1))))) = 1"
    by code_simp
  have mhints: "extractTvSeasonEpisodeFromQuery 2026 (TrimSpace ''movie'') = (''movie'', 0, 0, 0)"
    by code_simp
  have mentered: "enterQuery exampleCatalog 2026 (NewSelector 0 ''/in'' []) ''movie'' False []
      ''1/1 movie.mkv'' 1 = (moviePrompt, ''movie'', 0, twoMovies 1, 2, 1)"
    by code_simp
  have mentered2: "enterQuery exampleCatalog 2026 (say moviePrompt (PrintPrompt 2 True 1)) ''movie''
      False [] ''1/1 movie.mkv'' 2 = (moviePromptSecondPage, ''movie'', 0, twoMovies 2, 2, 1)"
    by code_simp
  have l2: "int (length (twoMovies 1)) = 2" "int (length (twoMovies 2)) = 2" by code_simp+
  have p1: "HandleQuery exampleCatalog 2026 (NewSelector 0 ''/in'' [])
     [''p\<newline>'', ''p\<newline>'', ''q\<newline>''] ''movie'' False [] ''1/1 movie.mkv'' 1 =
     HandleQuery exampleCatalog 2026 (say moviePrompt (PrintPrompt 2 True 1))
       [''p\<newline>'', ''q\<newline>''] ''movie'' False [] ''1/1 movie.mkv'' 2"
    using prompt_loop_commands [OF mhints mentered, where raw = "''p\<newline>''"
        and input = "[''p\<newline>'', ''q\<newline>'']"] tr l2 by simp
  have p2: "HandleQuery exampleCatalog 2026 (say moviePrompt (PrintPrompt 2 True 1))
     [''p\<newline>'', ''q\<newline>''] ''movie'' False [] ''1/1 movie.mkv'' 2 =
     HandleQuery exampleCatalog 2026 (say moviePromptSecondPage (PrintPrompt 2 True 1))
       [''q\<newline>''] ''movie'' False [] ''1/1 movie.mkv'' 1"
    using prompt_loop_commands [OF mhints mentered2, where raw = "''p\<newline>''"
        and input = "[''q\<newline>'']"] tr l2 by simp
  have pg: "searchedPages (trace (snd (the (HandleQuery exampleCatalog 2026 (NewSelector 0 ''/in'' [])
     [''p\<newline>'', ''p\<newline>'', ''q\<newline>''] ''movie'' False [] ''1/1 movie.mkv'' 1)))) =
     [1, 2, 1]"
    by code_simp
  show ?thesis using hints entered m(1,2) tr r1 r2 r3 r4 d9 mentered p1 p2 pg by blast
qed

end
